(* ===== verification/Prelude.thy ===== *)
theory Prelude
  imports Main "HOL-Library.Sublist"
begin

section \<open>Prelude: Go strings, 64-bit integers and shared list lemmas\<close>

text \<open>
  What every component shares. A Go \<open>string\<close> is a sequence of bytes, and an Isabelle \<open>char\<close> is
  a byte, so a Go string is a \<open>string\<close> here; JavaScript strings have a type of their own in
  \<open>SyncDocs\<close>. A Go \<open>int64\<close>, \<open>int\<close> or \<open>time.Duration\<close> is an \<open>int\<close>, with the wrap-around
  of a multiplication or conversion written out by \<open>int64\<close>. An error return is the left side
  of a sum. The parts of the Go standard library that are tables or engines of their own
  (Unicode case tables, the regexp compiler) are the fields of \<open>golib\<close>, a parameter of every
  definition that uses them.
\<close>

named_theorems go_string \<open>equations and characterisations of the Go string functions\<close>
named_theorems store_simps \<open>defining equations of the statements on the database tables\<close>
named_theorems inv_intros \<open>preservation of a component's invariant by its operations\<close>

subsection \<open>Results\<close>

type_synonym ('e, 'a) result = "'e + 'a"

fun is_ok :: "('e, 'a) result \<Rightarrow> bool" where
  "is_ok (Inl _) = False"
| "is_ok (Inr _) = True"

lemma is_ok_iff: "is_ok r \<longleftrightarrow> (\<exists>a. r = Inr a)"
  by (cases r) auto

subsection \<open>Signed 64-bit integers\<close>

definition int64 :: "int \<Rightarrow> int" where
  "int64 x = signed_take_bit 63 x"

lemma int64_id: "- (2 ^ 63) \<le> x \<Longrightarrow> x < 2 ^ 63 \<Longrightarrow> int64 x = x"
  by (simp add: int64_def signed_take_bit_int_eq_self)

lemma int64_range: "- (2 ^ 63) \<le> int64 x \<and> int64 x < 2 ^ 63"
  using signed_take_bit_int_greater_eq_minus_exp [of 63 x] signed_take_bit_int_less_exp [of 63 x]
  by (simp add: int64_def)

lemma int64_mod: "int64 x = (x + 2 ^ 63) mod 2 ^ 64 - 2 ^ 63"
  by (simp add: int64_def signed_take_bit_eq_take_bit_shift take_bit_eq_mod)

lemma int64_wrap: "2 ^ 63 \<le> x \<Longrightarrow> x < 2 ^ 63 + 2 ^ 64 \<Longrightarrow> int64 x = x - 2 ^ 64"
proof -
  assume x: "2 ^ 63 \<le> x" "x < 2 ^ 63 + 2 ^ 64"
  have "(x + 2 ^ 63) mod 2 ^ 64 = (x + 2 ^ 63 - 2 ^ 64) mod 2 ^ 64" by (simp only: minus_mod_self2)
  also have "\<dots> = x + 2 ^ 63 - 2 ^ 64" using x by (intro mod_pos_pos_trivial) simp_all
  finally show ?thesis by (simp add: int64_mod)
qed

lemma int64_mult_id: "- (2 ^ 63) \<le> a * b \<Longrightarrow> a * b < 2 ^ 63 \<Longrightarrow> int64 (a * b) = a * b"
  by (rule int64_id)

subsection \<open>Bytes and case\<close>

abbreviation byte_of :: "char \<Rightarrow> nat" where
  "byte_of c \<equiv> of_char c"

definition is_ascii :: "string \<Rightarrow> bool" where
  "is_ascii s = list_all (\<lambda>c. byte_of c < 128) s"

definition ascii_lower :: "char \<Rightarrow> char" where
  "ascii_lower c = (if 65 \<le> byte_of c \<and> byte_of c \<le> 90 then char_of (byte_of c + 32) else c)"

text \<open>
  \<open>uni_lower\<close> is \<open>strings.ToLower\<close> on a string with a byte outside ASCII, \<open>uni_fold\<close> is
  \<open>strings.EqualFold\<close> when one of the strings has such a byte, and \<open>re_compile\<close> is
  \<open>regexp.Compile\<close> followed by \<open>MatchString\<close>: \<open>None\<close> when the expression does not compile. \<open>go_quote\<close> is
  \<open>strconv.Quote\<close>, the \<open>%q\<close> of \<open>fmt\<close>, which only error texts use.
\<close>

record golib =
  uni_lower :: "string \<Rightarrow> string"
  uni_fold :: "string \<Rightarrow> string \<Rightarrow> bool"
  re_compile :: "string \<Rightarrow> (string \<Rightarrow> bool) option"
  go_quote :: "string \<Rightarrow> string"

definition ToLower :: "'z golib_scheme \<Rightarrow> string \<Rightarrow> string" where
  "ToLower G s = (if is_ascii s then map ascii_lower s else uni_lower G s)"

definition EqualFold :: "'z golib_scheme \<Rightarrow> string \<Rightarrow> string \<Rightarrow> bool" where
  "EqualFold G s t = (if is_ascii s \<and> is_ascii t then map ascii_lower s = map ascii_lower t
     else uni_fold G s t)"

lemma is_ascii_simps [simp]:
  "is_ascii []"
  "is_ascii (c # s) \<longleftrightarrow> byte_of c < 128 \<and> is_ascii s"
  "is_ascii (s @ t) \<longleftrightarrow> is_ascii s \<and> is_ascii t"
  by (simp_all add: is_ascii_def)

lemma byte_ascii_lower:
  "byte_of (ascii_lower c) = (if 65 \<le> byte_of c \<and> byte_of c \<le> 90 then byte_of c + 32 else byte_of c)"
  by (simp add: ascii_lower_def)

lemma ascii_lower_idem [simp]: "ascii_lower (ascii_lower c) = ascii_lower c"
  by (simp add: ascii_lower_def)

lemma ascii_lower_comp_idem [simp]: "ascii_lower \<circ> ascii_lower = ascii_lower"
  by (rule ext) simp

lemma is_ascii_map_lower [simp]: "is_ascii (map ascii_lower s) = is_ascii s"
  by (induction s) (auto simp: byte_ascii_lower)

lemma ToLower_ascii [go_string]: "is_ascii s \<Longrightarrow> ToLower G s = map ascii_lower s"
  by (simp add: ToLower_def)

lemma ToLower_idem: "is_ascii s \<Longrightarrow> ToLower G (ToLower G s) = ToLower G s"
  by (simp add: ToLower_def)

lemma EqualFold_ascii [go_string]:
  "is_ascii s \<Longrightarrow> is_ascii t \<Longrightarrow> EqualFold G s t \<longleftrightarrow> ToLower G s = ToLower G t"
  by (simp add: EqualFold_def ToLower_def)

text \<open>A byte whose case does not matter: lowering neither makes it nor removes it.\<close>

lemma ascii_lower_eq_iff:
  assumes "byte_of d < 65 \<or> 90 < byte_of d \<and> byte_of d < 97 \<or> 122 < byte_of d"
  shows "ascii_lower c = d \<longleftrightarrow> c = d"
proof
  assume "ascii_lower c = d"
  then have "byte_of (ascii_lower c) = byte_of d" by simp
  with assms have "byte_of c = byte_of d"
    by (auto simp: byte_ascii_lower split: if_splits)
  then show "c = d" by simp
next
  assume "c = d"
  with assms show "ascii_lower c = d" by (auto simp: ascii_lower_def)
qed

subsection \<open>Go string functions\<close>

definition HasPrefix :: "string \<Rightarrow> string \<Rightarrow> bool" where
  "HasPrefix s p = (take (length p) s = p)"

definition HasSuffix :: "string \<Rightarrow> string \<Rightarrow> bool" where
  "HasSuffix s p = (length p \<le> length s \<and> drop (length s - length p) s = p)"

text \<open>\<open>strings.SplitN(s, c, 2)\<close>: \<open>Some\<close> of the two parts, \<open>None\<close> when there is only one.\<close>

fun SplitN2 :: "char \<Rightarrow> string \<Rightarrow> (string \<times> string) option" where
  "SplitN2 c [] = None"
| "SplitN2 c (x # xs) =
     (if x = c then Some ([], xs) else map_option (\<lambda>(a, b). (x # a, b)) (SplitN2 c xs))"

fun Split :: "char \<Rightarrow> string \<Rightarrow> string list" where
  "Split c [] = [[]]"
| "Split c (x # xs) =
     (if x = c then [] # Split c xs
      else (case Split c xs of [] \<Rightarrow> [[x]] | y # ys \<Rightarrow> (x # y) # ys))"

fun Join :: "string list \<Rightarrow> string \<Rightarrow> string" where
  "Join [] sep = []"
| "Join [x] sep = x"
| "Join (x # y # ys) sep = x @ sep @ Join (y # ys) sep"

text \<open>\<open>strings.Index\<close> and \<open>strings.LastIndex\<close> of one byte; \<open>None\<close> is the \<open>-1\<close> of Go.\<close>

fun IndexFrom :: "nat \<Rightarrow> string \<Rightarrow> string \<Rightarrow> nat option" where
  "IndexFrom i [] p = (if p = [] then Some i else None)"
| "IndexFrom i (x # xs) p = (if HasPrefix (x # xs) p then Some i else IndexFrom (Suc i) xs p)"

definition Index :: "string \<Rightarrow> string \<Rightarrow> nat option" where
  "Index s p = IndexFrom 0 s p"

fun LastSplit :: "char \<Rightarrow> string \<Rightarrow> (string \<times> string) option" where
  "LastSplit c [] = None"
| "LastSplit c (x # xs) =
     (case LastSplit c xs of Some (a, b) \<Rightarrow> Some (x # a, b)
      | None \<Rightarrow> if x = c then Some ([], xs) else None)"

definition ContainsAny :: "string \<Rightarrow> string \<Rightarrow> bool" where
  "ContainsAny s cs = list_ex (\<lambda>c. c \<in> set cs) s"

text \<open>
  A concrete library for examples: no case outside ASCII, and only regular expressions without
  meta characters, searched for as they are.
\<close>

definition ascii_lib :: golib where
  "ascii_lib = \<lparr>uni_lower = (\<lambda>s. s), uni_fold = (=),
     re_compile = (\<lambda>p. if ContainsAny p (CHR 0x5C # ''()[]{}+*?.|^$'') then None else Some (\<lambda>s. Index s p \<noteq> None)),
     go_quote = (\<lambda>s. CHR 0x22 # s @ [CHR 0x22])\<rparr>"

lemma HasPrefix_iff [go_string]: "HasPrefix s p \<longleftrightarrow> (\<exists>t. s = p @ t)"
proof
  assume "HasPrefix s p"
  then have "s = p @ drop (length p) s"
    by (metis HasPrefix_def append_take_drop_id)
  then show "\<exists>t. s = p @ t" ..
qed (auto simp: HasPrefix_def)

lemma HasSuffix_iff [go_string]: "HasSuffix s p \<longleftrightarrow> (\<exists>t. s = t @ p)"
proof
  assume "HasSuffix s p"
  then have "s = take (length s - length p) s @ p"
    by (metis HasSuffix_def append_take_drop_id)
  then show "\<exists>t. s = t @ p" ..
qed (auto simp: HasSuffix_def)

lemma SplitN2_Some_iff: "SplitN2 c s = Some (a, b) \<longleftrightarrow> s = a @ c # b \<and> c \<notin> set a"
proof (induction s arbitrary: a)
  case (Cons x xs)
  show ?case by (cases a) (auto simp: Cons.IH)
qed simp

lemma SplitN2_None_iff: "SplitN2 c s = None \<longleftrightarrow> c \<notin> set s"
  by (induction s) auto

lemma LastSplit_None_iff: "LastSplit c s = None \<longleftrightarrow> c \<notin> set s"
  by (induction s) (auto split: option.splits)

lemma LastSplit_Some_iff: "LastSplit c s = Some (a, b) \<longleftrightarrow> s = a @ c # b \<and> c \<notin> set b"
proof (induction s arbitrary: a)
  case (Cons x xs)
  show ?case
  proof (cases "LastSplit c xs")
    case None
    then have "c \<notin> set xs" by (simp add: LastSplit_None_iff)
    with None show ?thesis by (auto simp: Cons_eq_append_conv)
  next
    case (Some ab)
    then have "c \<in> set xs" using LastSplit_None_iff [of c xs] by fastforce
    with Some Cons.IH show ?thesis by (cases ab; cases a) auto
  qed
qed simp

lemma Split_not_Nil [simp]: "Split c s \<noteq> []"
  by (induction s) (auto split: list.splits)

lemma Join_Cons_head: "Join ((x # y) # ys) sep = x # Join (y # ys) sep"
  by (cases ys) auto

lemma Join_Nil_head: "ys \<noteq> [] \<Longrightarrow> Join ([] # ys) sep = sep @ Join ys sep"
  by (cases ys) auto

lemma Join_Split: "Join (Split c s) [c] = s"
  by (induction s) (auto simp: Join_Cons_head Join_Nil_head split: list.split)

lemma Split_no_sep: "p \<in> set (Split c s) \<Longrightarrow> c \<notin> set p"
  by (induction s arbitrary: p) (auto split: list.splits if_splits)

lemma ContainsAny_iff [go_string]: "ContainsAny s cs \<longleftrightarrow> (\<exists>c\<in>set cs. c \<in> set s)"
  by (auto simp: ContainsAny_def list_ex_iff)

subsection \<open>Trimming white space\<close>

text \<open>
  The UTF-8 encodings of the runes for which \<open>unicode.IsSpace\<close> holds. \<open>strings.TrimSpace\<close> removes
  them from both ends, one rune at a time. An encoding that ends a string is its last rune, since
  a lead byte is never a continuation byte.
\<close>

definition space_runes :: "string list" where
  "space_runes =
     [[CHR 0x20], [CHR 0x09], [CHR 0x0A], [CHR 0x0B], [CHR 0x0C], [CHR 0x0D],
      [CHR 0xC2, CHR 0x85], [CHR 0xC2, CHR 0xA0], [CHR 0xE1, CHR 0x9A, CHR 0x80],
      [CHR 0xE2, CHR 0x80, CHR 0x80], [CHR 0xE2, CHR 0x80, CHR 0x81], [CHR 0xE2, CHR 0x80, CHR 0x82],
      [CHR 0xE2, CHR 0x80, CHR 0x83], [CHR 0xE2, CHR 0x80, CHR 0x84], [CHR 0xE2, CHR 0x80, CHR 0x85],
      [CHR 0xE2, CHR 0x80, CHR 0x86], [CHR 0xE2, CHR 0x80, CHR 0x87], [CHR 0xE2, CHR 0x80, CHR 0x88],
      [CHR 0xE2, CHR 0x80, CHR 0x89], [CHR 0xE2, CHR 0x80, CHR 0x8A], [CHR 0xE2, CHR 0x80, CHR 0xA8],
      [CHR 0xE2, CHR 0x80, CHR 0xA9], [CHR 0xE2, CHR 0x80, CHR 0xAF], [CHR 0xE2, CHR 0x81, CHR 0x9F],
      [CHR 0xE3, CHR 0x80, CHR 0x80]]"

text \<open>The length of the space rune a string starts with, read in a given list of encodings.\<close>

fun lead_len :: "string list \<Rightarrow> string \<Rightarrow> nat" where
  "lead_len [] s = 0"
| "lead_len (e # es) s = (if HasPrefix s e then length e else lead_len es s)"

lemma lead_len_le: "lead_len es s \<le> length s"
  by (induction es) (auto simp: HasPrefix_def dest: arg_cong [where f = length])

function trim_lead :: "string list \<Rightarrow> string \<Rightarrow> string" where
  "trim_lead es s = (case lead_len es s of 0 \<Rightarrow> s | Suc n \<Rightarrow> trim_lead es (drop (Suc n) s))"
  by pat_completeness auto
termination
proof (relation "measure (\<lambda>(es, s). length s)", goal_cases)
  case (2 es s n)
  then show ?case using lead_len_le [of es s] by auto
qed simp

declare trim_lead.simps [simp del]

definition TrimLeft :: "string \<Rightarrow> string" where
  "TrimLeft s = trim_lead space_runes s"

definition TrimRight :: "string \<Rightarrow> string" where
  "TrimRight s = rev (trim_lead (map rev space_runes) (rev s))"

definition TrimSpace :: "string \<Rightarrow> string" where
  "TrimSpace s = TrimRight (TrimLeft s)"

lemma trim_lead_stop: "lead_len es (trim_lead es s) = 0"
proof (induction es s rule: trim_lead.induct)
  case (1 es s)
  show ?case
  proof (cases "lead_len es s")
    case (Suc n)
    with "1.IH" show ?thesis by (simp add: trim_lead.simps [of es s])
  qed (simp add: trim_lead.simps [of es s])
qed

lemma trim_lead_id: "lead_len es s = 0 \<Longrightarrow> trim_lead es s = s"
  by (simp add: trim_lead.simps)

lemma trim_lead_idem [simp]: "trim_lead es (trim_lead es s) = trim_lead es s"
  by (rule trim_lead_id) (rule trim_lead_stop)

lemma trim_lead_suffix: "\<exists>u. s = u @ trim_lead es s"
proof (induction es s rule: trim_lead.induct)
  case (1 es s)
  show ?case
  proof (cases "lead_len es s")
    case 0
    then show ?thesis by (simp add: trim_lead_id)
  next
    case (Suc n)
    with "1.IH" obtain u where "drop (Suc n) s = u @ trim_lead es (drop (Suc n) s)"
      by blast
    moreover from Suc have "trim_lead es s = trim_lead es (drop (Suc n) s)"
      by (simp add: trim_lead.simps [of es s])
    ultimately have "s = (take (Suc n) s @ u) @ trim_lead es s"
      by (metis append.assoc append_take_drop_id)
    then show ?thesis ..
  qed
qed

lemma lead_len_prefix: "lead_len es (s @ t) = 0 \<Longrightarrow> lead_len es s = 0"
  by (induction es) (auto simp: HasPrefix_iff split: if_splits)

lemma TrimSpace_idem [simp]: "TrimSpace (TrimSpace s) = TrimSpace s"
proof -
  define l where "l = TrimLeft s"
  define r where "r = TrimRight l"
  obtain u where "rev l = u @ rev r"
    using trim_lead_suffix [of "rev l" "map rev space_runes"] by (auto simp: r_def TrimRight_def)
  then have l: "l = r @ rev u" by (metis rev_append rev_rev_ident)
  have "lead_len space_runes r = 0"
    using trim_lead_stop [of space_runes s] l lead_len_prefix [of space_runes r "rev u"]
    by (auto simp: l_def TrimLeft_def)
  then have "TrimLeft r = r" by (simp add: TrimLeft_def trim_lead_id)
  moreover have "TrimRight r = r" by (simp add: r_def TrimRight_def)
  ultimately show ?thesis by (simp add: TrimSpace_def l_def r_def)
qed


subsection \<open>Canonical header keys\<close>

text \<open>
  \<open>textproto.CanonicalMIMEHeaderKey\<close> (which is \<open>http.CanonicalHeaderKey\<close>): a key with a byte that is
  not a token byte is returned as it is; otherwise the first letter and every letter after a hyphen
  are upper case and the others lower case.
\<close>

definition token_byte :: "char \<Rightarrow> bool" where
  "token_byte c = (c \<in> set ''!#$%&*+-.^_`|~0123456789abcdefghijklmnopqrstuvwxyzABCDEFGHIJKLMNOPQRSTUVWXYZ''
     \<or> c = CHR 0x27)"

definition ascii_upper :: "char \<Rightarrow> char" where
  "ascii_upper c = (if 97 \<le> byte_of c \<and> byte_of c \<le> 122 then char_of (byte_of c - 32) else c)"

fun canon_bytes :: "bool \<Rightarrow> string \<Rightarrow> string" where
  "canon_bytes upper [] = []"
| "canon_bytes upper (c # s) =
     (if upper then ascii_upper c else ascii_lower c) # canon_bytes (c = CHR ''-'') s"

definition CanonicalHeaderKey :: "string \<Rightarrow> string" where
  "CanonicalHeaderKey s = (if list_all token_byte s then canon_bytes True s else s)"


subsection \<open>Tables: lists of rows with a key\<close>

text \<open>
  A database table is the list of its rows in insertion order. \<open>key_distinct\<close> is a primary key or a
  UNIQUE constraint, \<open>map_where\<close> an UPDATE with a WHERE clause.
\<close>

definition key_distinct :: "('r \<Rightarrow> 'k) \<Rightarrow> 'r list \<Rightarrow> bool" where
  "key_distinct k rows = distinct (map k rows)"

definition map_where :: "('r \<Rightarrow> bool) \<Rightarrow> ('r \<Rightarrow> 'r) \<Rightarrow> 'r list \<Rightarrow> 'r list" where
  "map_where p f rows = map (\<lambda>r. if p r then f r else r) rows"

lemma key_distinct_simps [simp]:
  "key_distinct k []"
  "key_distinct k (r # rs) \<longleftrightarrow> k r \<notin> k ` set rs \<and> key_distinct k rs"
  by (auto simp: key_distinct_def)

lemma key_distinct_append [simp]:
  "key_distinct k (rs @ [r]) \<longleftrightarrow> k r \<notin> k ` set rs \<and> key_distinct k rs"
  by (auto simp: key_distinct_def)

lemma key_distinct_filter [simp]: "key_distinct k rs \<Longrightarrow> key_distinct k (filter p rs)"
  by (induction rs) auto

lemma key_distinct_map_where:
  "(\<And>r. k (f r) = k r) \<Longrightarrow> key_distinct k (map_where p f rs) \<longleftrightarrow> key_distinct k rs"
  by (auto simp: key_distinct_def map_where_def comp_def if_distrib [where f = k] cong: if_cong)

lemma key_image_map_where: "(\<And>r. k (f r) = k r) \<Longrightarrow> k ` set (map_where p f rs) = k ` set rs"
  by (induction rs) (auto simp: map_where_def)

lemma set_map_where: "set (map_where p f rs) = {r. r \<in> set rs \<and> \<not> p r} \<union> f ` {r. r \<in> set rs \<and> p r}"
  by (auto simp: map_where_def)

lemma ball_map_where:
  "(\<And>r. P (f r) = P r) \<Longrightarrow> (\<forall>r\<in>set (map_where p f rs). P r) = (\<forall>r\<in>set rs. P r)"
  by (induction rs) (auto simp: map_where_def)

lemma bex_map_where:
  "(\<And>r. P (f r) = P r) \<Longrightarrow> (\<exists>r\<in>set (map_where p f rs). P r) = (\<exists>r\<in>set rs. P r)"
  by (induction rs) (auto simp: map_where_def)

lemma in_map_where_iff: "r' \<in> set (map_where p f rs) \<longleftrightarrow> (\<exists>r\<in>set rs. r' = (if p r then f r else r))"
  by (auto simp: map_where_def)

lemma map_where_False [simp]: "(\<And>r. r \<in> set rs \<Longrightarrow> \<not> p r) \<Longrightarrow> map_where p f rs = rs"
  by (induction rs) (auto simp: map_where_def)

lemma key_distinct_inj: "key_distinct k rs \<Longrightarrow> r \<in> set rs \<Longrightarrow> r' \<in> set rs \<Longrightarrow> k r = k r' \<Longrightarrow> r = r'"
  by (induction rs) (auto simp: image_iff)

text \<open>The row with a given key, as a lookup.\<close>

definition row_of :: "('r \<Rightarrow> 'k) \<Rightarrow> 'r list \<Rightarrow> 'k \<Rightarrow> 'r option" where
  "row_of k rs x = find (\<lambda>r. k r = x) rs"

lemma row_of_Some_iff: "key_distinct k rs \<Longrightarrow> row_of k rs x = Some r \<longleftrightarrow> r \<in> set rs \<and> k r = x"
  by (induction rs) (auto simp: row_of_def image_iff)

lemma row_of_None_iff: "row_of k rs x = None \<longleftrightarrow> x \<notin> k ` set rs"
  by (induction rs) (auto simp: row_of_def)

lemma row_of_key: "row_of k rs x = Some r \<Longrightarrow> k r = x"
  by (auto simp: row_of_def find_Some_iff)

lemma row_of_map_where:
  "(\<And>r. k (f r) = k r) \<Longrightarrow>
   row_of k (map_where p f rs) x = map_option (\<lambda>r. if p r then f r else r) (row_of k rs x)"
  by (induction rs) (auto simp: row_of_def map_where_def)

lemma row_of_append: "row_of k (rs @ [r]) x =
    (case row_of k rs x of Some r' \<Rightarrow> Some r' | None \<Rightarrow> if k r = x then Some r else None)"
  by (induction rs) (auto simp: row_of_def)

lemma sum_list_less:
  fixes f g :: "'a \<Rightarrow> nat"
  assumes "x \<in> set xs" "f x < g x" "\<And>y. f y \<le> g y"
  shows "sum_list (map f xs) < sum_list (map g xs)"
  using assms(1)
proof (induction xs)
  case (Cons y ys)
  have "sum_list (map f ys) \<le> sum_list (map g ys)" using assms(3) by (simp add: sum_list_mono)
  with Cons assms(2) assms(3) [of y] show ?case by (cases "x = y") fastforce+
qed simp

end
