(* ===== verification/Models.thy ===== *)
theory Models
  imports Prelude
begin

section \<open>The data model (\<open>internal/models\<close>)\<close>

text \<open>
  The structs of \<open>internal/models/models.go\<close> as records, with the methods on them. A record field
  carries a short prefix of its struct (\<open>pe_\<close> for \<open>ParsedEmail\<close>, \<open>wh_\<close> for \<open>WebhookConfig\<close>, ...) before
  the Go name. A nil pointer is \<open>None\<close>, a Go map is its list of entries in key order, inside an
  option where the code distinguishes a nil map, and a \<open>time.Time\<close> or \<open>time.Duration\<close> is a number of
  nanoseconds. Enumerations the code closes are datatypes; authentication results and modes stay
  strings, because their zero value is the empty string and the code can produce it.
\<close>

subsection \<open>Parsed email and authentication results\<close>

type_synonym auth_check = string

abbreviation AuthPass :: auth_check where "AuthPass \<equiv> ''pass''"
abbreviation AuthFail :: auth_check where "AuthFail \<equiv> ''fail''"
abbreviation AuthNone :: auth_check where "AuthNone \<equiv> ''none''"

record AuthResult =
  ar_TLS :: bool
  ar_SPF :: auth_check
  ar_DKIM :: auth_check
  ar_DMARC :: auth_check
  ar_ARC :: auth_check

record Attachment =
  at_Filename :: string
  at_ContentType :: string
  at_Content :: string

record ParsedEmail =
  pe_From :: string
  pe_To :: "string list"
  pe_CC :: "string list"
  pe_Subject :: string
  pe_TextBody :: string
  pe_HTMLBody :: string
  pe_Headers :: "(string \<times> string list) list"
  pe_Attachments :: "Attachment list"
  pe_AuthResult :: "AuthResult option"
  pe_EnvelopeFrom :: string
  pe_EnvelopeTo :: "string list"

text \<open>Indexing a header map: a missing key yields the nil slice.\<close>

definition header_values :: "(string \<times> string list) list \<Rightarrow> string \<Rightarrow> string list" where
  "header_values h k = (case map_of h k of Some vs \<Rightarrow> vs | None \<Rightarrow> [])"

definition domain_of :: "'z golib_scheme \<Rightarrow> string \<Rightarrow> string option" where
  "domain_of G addr = (case SplitN2 CHR ''@'' addr of Some (_, d) \<Rightarrow> Some (ToLower G d) | None \<Rightarrow> None)"

definition FromDomain :: "'z golib_scheme \<Rightarrow> ParsedEmail \<Rightarrow> string" where
  "FromDomain G e = (case domain_of G (pe_EnvelopeFrom e) of Some d \<Rightarrow> d | None \<Rightarrow> [])"

definition HeaderFromDomain :: "'z golib_scheme \<Rightarrow> ParsedEmail \<Rightarrow> string" where
  "HeaderFromDomain G e = (case domain_of G (pe_From e) of Some d \<Rightarrow> d | None \<Rightarrow> [])"

text \<open>The loop over the addresses, with the set \<open>seen\<close> and the result so far.\<close>

fun dedup_domains :: "'z golib_scheme \<Rightarrow> string list \<Rightarrow> string list \<Rightarrow> string list" where
  "dedup_domains G domains [] = domains"
| "dedup_domains G domains (addr # addrs) =
     (case domain_of G addr of
        Some d \<Rightarrow> dedup_domains G (if d \<in> set domains then domains else domains @ [d]) addrs
      | None \<Rightarrow> dedup_domains G domains addrs)"

definition ToDomains :: "'z golib_scheme \<Rightarrow> ParsedEmail \<Rightarrow> string list" where
  "ToDomains G e = dedup_domains G [] (pe_EnvelopeTo e)"

definition HeaderToDomains :: "'z golib_scheme \<Rightarrow> ParsedEmail \<Rightarrow> string list" where
  "HeaderToDomains G e = dedup_domains G [] (pe_To e)"

lemma set_dedup_domains:
  "set (dedup_domains G ds addrs) = set ds \<union> {d. \<exists>a\<in>set addrs. domain_of G a = Some d}"
  by (induction G ds addrs rule: dedup_domains.induct) (auto split: option.splits)

lemma distinct_dedup_domains: "distinct ds \<Longrightarrow> distinct (dedup_domains G ds addrs)"
  by (induction G ds addrs rule: dedup_domains.induct) (auto split: option.splits)

subsection \<open>Statuses and records\<close>

datatype EmailStatus =
  EmailStatusReceived | EmailStatusDropped | EmailStatusDelivered
| EmailStatusPartialFailure | EmailStatusFailed | EmailStatusRejected

text \<open>The values of \<open>deliveries.status\<close>; a queued delivery starts \<open>pending\<close>.\<close>

datatype delivery_status =
  DPending | DInProgress | DSuccess | DFailed | DRejected | DError | DCancelled

record EmailRecord =
  er_ID :: string
  er_ReceivedAt :: int
  er_EnvelopeFrom :: string
  er_EnvelopeTo :: "string list"
  er_HeaderFrom :: string
  er_HeaderTo :: "string list"
  er_Subject :: string
  er_Status :: EmailStatus
  er_RejectionReason :: string
  er_ParsedEmail :: "ParsedEmail option"
  er_AuthResult :: "AuthResult option"

definition DisplayFrom :: "EmailRecord \<Rightarrow> string" where
  "DisplayFrom r = (if er_HeaderFrom r \<noteq> [] then er_HeaderFrom r else er_EnvelopeFrom r)"

definition DisplayTo :: "EmailRecord \<Rightarrow> string list" where
  "DisplayTo r = (if length (er_HeaderTo r) > 0 then er_HeaderTo r else er_EnvelopeTo r)"

definition IsForwarded :: "EmailRecord \<Rightarrow> bool" where
  "IsForwarded r = (er_HeaderFrom r \<noteq> [] \<and> er_HeaderFrom r \<noteq> er_EnvelopeFrom r)"

record DeliveryResult =
  dr_RuleName :: string
  dr_Status :: delivery_status
  dr_StatusCode :: int
  dr_Error :: string
  dr_ResponseBody :: string
  dr_Attempts :: int

subsection \<open>Rules\<close>

record MatchCondition =
  mc_Field :: string
  mc_Pattern :: string
  mc_Header :: string

record MatcherConfig =
  m_Mode :: string
  m_Conditions :: "MatchCondition list"

definition EffectiveMode :: "MatcherConfig \<Rightarrow> string" where
  "EffectiveMode m = (if m_Mode m = ''any'' then ''any'' else ''all'')"

record WebhookConfig =
  wh_SigningSecret :: string
  wh_URL :: string
  wh_Method :: string
  wh_Headers :: "(string \<times> string) list option"
  wh_PayloadTemplate :: string
  wh_Timeout :: "int option"
  wh_MaxRetries :: "int option"
  wh_InitialWait :: "int option"
  wh_MaxWait :: "int option"
  wh_RetryOnTimeout :: "bool option"

text \<open>A \<open>time.Time\<close> counts nanoseconds from the Unix epoch; its zero value is the year 1.\<close>

definition zero_time :: int where
  "zero_time = - 62135596800000000000"

text \<open>\<open>time.Second\<close>; \<open>time.Duration(n) * time.Second\<close> is a 64-bit product.\<close>

definition Second :: int where
  "Second = 1000000000"

definition seconds :: "int \<Rightarrow> int" where
  "seconds n = int64 (n * Second)"

definition EffectiveTimeout :: "WebhookConfig \<Rightarrow> int \<Rightarrow> int" where
  "EffectiveTimeout w g = (case wh_Timeout w of Some n \<Rightarrow> seconds n | None \<Rightarrow> g)"

definition EffectiveMaxRetries :: "WebhookConfig \<Rightarrow> int \<Rightarrow> int" where
  "EffectiveMaxRetries w g = (case wh_MaxRetries w of Some n \<Rightarrow> n | None \<Rightarrow> g)"

definition EffectiveInitialWait :: "WebhookConfig \<Rightarrow> int \<Rightarrow> int" where
  "EffectiveInitialWait w g = (case wh_InitialWait w of Some n \<Rightarrow> seconds n | None \<Rightarrow> g)"

definition EffectiveMaxWait :: "WebhookConfig \<Rightarrow> int \<Rightarrow> int" where
  "EffectiveMaxWait w g = (case wh_MaxWait w of Some n \<Rightarrow> seconds n | None \<Rightarrow> g)"

definition EffectiveRetryOnTimeout :: "WebhookConfig \<Rightarrow> bool \<Rightarrow> bool" where
  "EffectiveRetryOnTimeout w g = (case wh_RetryOnTimeout w of Some b \<Rightarrow> b | None \<Rightarrow> g)"

record Rule =
  ru_Name :: string
  ru_Match :: MatcherConfig
  ru_Webhook :: WebhookConfig

record RuleRecord =
  rr_ID :: string
  rr_Name :: string
  rr_Enabled :: bool
  rr_Match :: MatcherConfig
  rr_Webhook :: WebhookConfig
  rr_Position :: int
  rr_CreatedAt :: int
  rr_UpdatedAt :: int

definition ToRule :: "RuleRecord \<Rightarrow> Rule" where
  "ToRule r = \<lparr>ru_Name = rr_Name r, ru_Match = rr_Match r, ru_Webhook = rr_Webhook r\<rparr>"

record TransferRule =
  tr_Name :: string
  tr_Enabled :: bool
  tr_Position :: int
  tr_Match :: MatcherConfig
  tr_Webhook :: WebhookConfig

record RetryConfig =
  rc_MaxRetries :: int
  rc_InitialWait :: int
  rc_MaxWait :: int
  rc_Timeout :: int
  rc_RetryOnTimeout :: bool

text \<open>
  The retry settings of one webhook: its overrides over the global ones, as \<open>Enqueue\<close> and
  \<open>dispatchOne\<close> both compute them.
\<close>

definition effective_retry :: "RetryConfig \<Rightarrow> WebhookConfig \<Rightarrow> RetryConfig" where
  "effective_retry g w =
     \<lparr>rc_MaxRetries = EffectiveMaxRetries w (rc_MaxRetries g),
      rc_InitialWait = EffectiveInitialWait w (rc_InitialWait g),
      rc_MaxWait = EffectiveMaxWait w (rc_MaxWait g),
      rc_Timeout = EffectiveTimeout w (rc_Timeout g),
      rc_RetryOnTimeout = EffectiveRetryOnTimeout w (rc_RetryOnTimeout g)\<rparr>"

lemma seconds_exact:
  assumes "0 \<le> n" "n \<le> 9223372036"
  shows "seconds n = n * Second"
proof -
  have "n * 1000000000 \<le> 9223372036 * 1000000000" using assms(2) by simp
  with assms(1) show ?thesis by (simp add: seconds_def Second_def int64_id)
qed

subsection \<open>Configuration\<close>

type_synonym auth_mode = string

abbreviation AuthModeOff :: auth_mode where "AuthModeOff \<equiv> ''off''"
abbreviation AuthModeLog :: auth_mode where "AuthModeLog \<equiv> ''log''"
abbreviation AuthModeEnforce :: auth_mode where "AuthModeEnforce \<equiv> ''enforce''"

definition mode_Enabled :: "auth_mode \<Rightarrow> bool" where
  "mode_Enabled m = (m \<noteq> AuthModeOff)"

definition mode_Enforced :: "auth_mode \<Rightarrow> bool" where
  "mode_Enforced m = (m = AuthModeEnforce)"

record AuthConfig =
  ac_SPF :: auth_mode
  ac_DKIM :: auth_mode
  ac_DMARC :: auth_mode

record SMTPConfig =
  sc_TLSCert :: string
  sc_TLSKey :: string
  sc_RequireTLS :: bool
  sc_Addr :: string
  sc_Domain :: string
  sc_MaxMessageBytes :: int
  sc_MaxRecipients :: int
  sc_ReadTimeout :: int
  sc_WriteTimeout :: int
  sc_AllowedRecipients :: "string list"

record WebhookPolicy =
  wp_Workers :: int
  wp_ShutdownTimeout :: int
  wp_AllowPrivateNetworks :: bool

record WebUIConfig =
  wu_Enabled :: bool
  wu_DBPath :: string
  wu_RetentionDays :: int
  wu_RawEmailDir :: string

record HTTPAuthProviderConfig =
  hp_Name :: string
  hp_IssuerURL :: string
  hp_ClientID :: string
  hp_ClientSecret :: string
  hp_Scopes :: "string list"

record HTTPAuthConfig =
  ha_Enabled :: bool
  ha_Providers :: "HTTPAuthProviderConfig list"
  ha_AllowedEmailDomains :: "string list"
  ha_CookieName :: string
  ha_CookieSecure :: "bool option"
  ha_CookieDomain :: string
  ha_CookieSameSite :: string
  ha_SessionTTL :: int
  ha_SessionSecret :: string
  ha_RedirectURL :: string

record HTTPConfig =
  hc_Addr :: string
  hc_Auth :: HTTPAuthConfig
  hc_ProtectMetrics :: bool

record AppConfig =
  cfg_LogLevel :: string
  cfg_SMTP :: SMTPConfig
  cfg_Auth :: AuthConfig
  cfg_HTTP :: HTTPConfig
  cfg_Retry :: RetryConfig
  cfg_Webhook :: WebhookPolicy
  cfg_WebUI :: WebUIConfig

end
