(* ===== verification/Store.thy ===== *)
theory Store
  imports Models
begin

section \<open>The SQLite store (\<open>internal/storage\<close>): emails, deliveries and their queue\<close>

text \<open>
  The tables of \<open>migrate\<close> as lists of rows, and every statement of \<open>store.go\<close> and \<open>queue.go\<close> on the
  emails, deliveries and delivery_queue tables as a function on them (the rules table is in
  \<open>RuleStore\<close>). A statement that breaks a PRIMARY KEY or FOREIGN KEY constraint is an error, and a
  transaction that meets one leaves the tables as they were. JSON columns hold the value they
  encode; the snapshot column holds \<open>None\<close> once it is released (the empty string). Identifiers from
  \<open>uuid.NewString\<close> come from a stream \<open>uuid\<close>, the k-th call being \<open>uuid k\<close>. Where ORDER BY leaves a tie,
  the argument \<open>tie\<close> chooses among the tied rows.
\<close>

subsection \<open>Tables\<close>

record email_row =
  em_id :: string
  em_received_at :: int
  em_envelope_from :: string
  em_envelope_to :: "string list"
  em_header_from :: string
  em_header_to :: "string list"
  em_subject :: string
  em_status :: EmailStatus
  em_rejection_reason :: string
  em_parsed_email :: "ParsedEmail option"
  em_auth_result :: "AuthResult option"
  em_delivery_batch :: string

record delivery_row =
  dl_id :: string
  dl_email_id :: string
  dl_rule_name :: string
  dl_status :: delivery_status
  dl_status_code :: int
  dl_error_message :: string
  dl_response_body :: string
  dl_attempts :: int
  dl_created_at :: int
  dl_updated_at :: int

record 's queue_row =
  q_delivery_id :: string
  q_batch_id :: string
  q_email_id :: string
  q_snapshot :: "'s option"
  q_next_attempt_at :: int

record 's db =
  t_emails :: "email_row list"
  t_deliveries :: "delivery_row list"
  t_queue :: "'s queue_row list"

definition empty_db :: "'s db" where
  "empty_db = \<lparr>t_emails = [], t_deliveries = [], t_queue = []\<rparr>"

datatype sql_error = UniqueConstraint | ForeignKeyConstraint | NoRows

text \<open>A queued job as the dispatcher hands it over, and as \<open>ClaimDelivery\<close> returns it.\<close>

record 's QueuedDelivery =
  qd_ID :: string
  qd_EmailID :: string
  qd_RuleName :: string
  qd_Snapshot :: "'s option"
  qd_Attempts :: int
  qd_NextAttemptAt :: int

definition max_int64 :: int where
  "max_int64 = 9223372036854775807"

text \<open>\<open>time.Time.UnixNano\<close>: the count of nanoseconds wraps around at 64 bits.\<close>

definition UnixNano :: "int \<Rightarrow> int" where
  "UnixNano t = int64 t"

subsection \<open>Statements\<close>

definition email_exists :: "'s db \<Rightarrow> string \<Rightarrow> bool" where
  "email_exists s i = (i \<in> em_id ` set (t_emails s))"

definition delivery_exists :: "'s db \<Rightarrow> string \<Rightarrow> bool" where
  "delivery_exists s i = (i \<in> dl_id ` set (t_deliveries s))"

definition insert_email :: "email_row \<Rightarrow> 's db \<Rightarrow> (sql_error, 's db) result" where
  "insert_email r s =
     (if email_exists s (em_id r) then Inl UniqueConstraint else Inr (s\<lparr>t_emails := t_emails s @ [r]\<rparr>))"

definition insert_delivery :: "delivery_row \<Rightarrow> 's db \<Rightarrow> (sql_error, 's db) result" where
  "insert_delivery r s =
     (if delivery_exists s (dl_id r) then Inl UniqueConstraint
      else if \<not> email_exists s (dl_email_id r) then Inl ForeignKeyConstraint
      else Inr (s\<lparr>t_deliveries := t_deliveries s @ [r]\<rparr>))"

definition insert_queue :: "'s queue_row \<Rightarrow> 's db \<Rightarrow> (sql_error, 's db) result" where
  "insert_queue r s =
     (if q_delivery_id r \<in> q_delivery_id ` set (t_queue s) then Inl UniqueConstraint
      else if \<not> delivery_exists s (q_delivery_id r) \<or> \<not> email_exists s (q_email_id r)
      then Inl ForeignKeyConstraint
      else Inr (s\<lparr>t_queue := t_queue s @ [r]\<rparr>))"

text \<open>DELETE FROM emails with its cascades to deliveries and delivery_queue.\<close>

definition delete_emails :: "(email_row \<Rightarrow> bool) \<Rightarrow> 's db \<Rightarrow> 's db" where
  "delete_emails p s =
     (let gone = em_id ` {e. e \<in> set (t_emails s) \<and> p e};
          gone_d = dl_id ` {d. d \<in> set (t_deliveries s) \<and> dl_email_id d \<in> gone}
      in s\<lparr>t_emails := filter (\<lambda>e. \<not> p e) (t_emails s),
           t_deliveries := filter (\<lambda>d. dl_email_id d \<notin> gone) (t_deliveries s),
           t_queue := filter (\<lambda>q. q_email_id q \<notin> gone \<and> q_delivery_id q \<notin> gone_d) (t_queue s)\<rparr>)"

definition unfinished_status :: "delivery_status \<Rightarrow> bool" where
  "unfinished_status st = (st = DPending \<or> st = DInProgress)"

text \<open>The joins of a queue row with its delivery, restricted to one email.\<close>

definition queued_rows :: "'s db \<Rightarrow> string \<Rightarrow> (delivery_row \<times> 's queue_row) list" where
  "queued_rows s eid =
     [(d, q). q \<leftarrow> t_queue s, d \<leftarrow> t_deliveries s, dl_id d = q_delivery_id q \<and> q_email_id q = eid]"

definition has_unfinished :: "'s db \<Rightarrow> string \<Rightarrow> bool" where
  "has_unfinished s eid = list_ex (\<lambda>(d, q). unfinished_status (dl_status d)) (queued_rows s eid)"

subsection \<open>Emails\<close>

definition SaveEmail :: "(nat \<Rightarrow> string) \<Rightarrow> int \<Rightarrow> EmailRecord \<Rightarrow> 's db \<Rightarrow> (sql_error, 's db) result" where
  "SaveEmail uuid now r s =
     insert_email
       \<lparr>em_id = (if er_ID r = [] then uuid 0 else er_ID r),
        em_received_at = (if er_ReceivedAt r = zero_time then now else er_ReceivedAt r),
        em_envelope_from = er_EnvelopeFrom r, em_envelope_to = er_EnvelopeTo r,
        em_header_from = er_HeaderFrom r, em_header_to = er_HeaderTo r,
        em_subject = er_Subject r, em_status = er_Status r,
        em_rejection_reason = er_RejectionReason r, em_parsed_email = er_ParsedEmail r,
        em_auth_result = er_AuthResult r, em_delivery_batch = []\<rparr> s"

definition UpdateEmailStatus :: "string \<Rightarrow> EmailStatus \<Rightarrow> 's db \<Rightarrow> 's db" where
  "UpdateEmailStatus i st s =
     s\<lparr>t_emails := map_where
        (\<lambda>e. em_id e = i \<and> (st \<noteq> EmailStatusDropped \<or>
           \<not> list_ex (\<lambda>d. dl_email_id d = em_id e \<and> unfinished_status (dl_status d)) (t_deliveries s)))
        (\<lambda>e. e\<lparr>em_status := st\<rparr>) (t_emails s)\<rparr>"

definition UpdateParsedEmail :: "string \<Rightarrow> ParsedEmail \<Rightarrow> 's db \<Rightarrow> 's db" where
  "UpdateParsedEmail i pe s =
     s\<lparr>t_emails := map_where (\<lambda>e. em_id e = i)
        (\<lambda>e. e\<lparr>em_header_from := pe_From pe, em_header_to := pe_To pe, em_subject := pe_Subject pe,
               em_parsed_email := Some pe\<rparr>) (t_emails s)\<rparr>"

definition GetEmail :: "string \<Rightarrow> 's db \<Rightarrow> (sql_error, EmailRecord) result" where
  "GetEmail i s =
     (case row_of em_id (t_emails s) i of
        None \<Rightarrow> Inl NoRows
      | Some e \<Rightarrow> Inr \<lparr>er_ID = em_id e, er_ReceivedAt = em_received_at e,
          er_EnvelopeFrom = em_envelope_from e, er_EnvelopeTo = em_envelope_to e,
          er_HeaderFrom = em_header_from e, er_HeaderTo = em_header_to e, er_Subject = em_subject e,
          er_Status = em_status e, er_RejectionReason = em_rejection_reason e,
          er_ParsedEmail = em_parsed_email e, er_AuthResult = em_auth_result e\<rparr>)"

definition DeleteEmail :: "string \<Rightarrow> 's db \<Rightarrow> 's db" where
  "DeleteEmail i s = delete_emails (\<lambda>e. em_id e = i) s"

definition DeleteAllEmails :: "'s db \<Rightarrow> nat \<times> 's db" where
  "DeleteAllEmails s = (length (t_emails s), delete_emails (\<lambda>_. True) s)"

definition AllEmailIDs :: "'s db \<Rightarrow> string list" where
  "AllEmailIDs s = map em_id (t_emails s)"

definition Hour :: int where
  "Hour = 3600 * Second"

text \<open>\<open>now - time.Duration(days) * 24 * time.Hour\<close>, each product at 64 bits.\<close>

definition cutoff :: "int \<Rightarrow> int \<Rightarrow> int" where
  "cutoff now days = now + int64 (- int64 (int64 (days * 24) * Hour))"

definition expired :: "int \<Rightarrow> 's db \<Rightarrow> email_row \<Rightarrow> bool" where
  "expired c s e = (em_received_at e < c \<and> \<not> has_unfinished s (em_id e))"

definition GetExpiredEmailIDs :: "int \<Rightarrow> int \<Rightarrow> 's db \<Rightarrow> string list" where
  "GetExpiredEmailIDs now days s =
     (if days \<le> 0 then [] else map em_id (filter (expired (cutoff now days) s) (t_emails s)))"

definition CleanupExpired :: "int \<Rightarrow> int \<Rightarrow> 's db \<Rightarrow> string list \<times> 's db" where
  "CleanupExpired now days s =
     (if days \<le> 0 then ([], s)
      else (let p = expired (cutoff now days) s
            in (map em_id (filter p (t_emails s)), delete_emails p s)))"

definition Cleanup :: "int \<Rightarrow> int \<Rightarrow> 's db \<Rightarrow> nat \<times> 's db" where
  "Cleanup now days s = (let (ids, s') = CleanupExpired now days s in (length ids, s'))"

record Stats =
  ss_Total :: nat
  ss_Delivered :: nat
  ss_Dropped :: nat
  ss_Failed :: nat
  ss_PartialFailure :: nat
  ss_Rejected :: nat

definition count_status :: "EmailStatus \<Rightarrow> 's db \<Rightarrow> nat" where
  "count_status st s = length (filter (\<lambda>e. em_status e = st) (t_emails s))"

text \<open>\<open>Stats\<close>: the groups of GROUP BY status summed; a received email counts in the total only.\<close>

definition stats_of :: "'s db \<Rightarrow> Stats" where
  "stats_of s =
     \<lparr>ss_Total = sum_list (map (\<lambda>st. count_status st s)
        [EmailStatusReceived, EmailStatusDropped, EmailStatusDelivered, EmailStatusPartialFailure,
         EmailStatusFailed, EmailStatusRejected]),
      ss_Delivered = count_status EmailStatusDelivered s,
      ss_Dropped = count_status EmailStatusDropped s,
      ss_Failed = count_status EmailStatusFailed s,
      ss_PartialFailure = count_status EmailStatusPartialFailure s,
      ss_Rejected = count_status EmailStatusRejected s\<rparr>"

subsection \<open>Deliveries and their queue\<close>

definition GetDeliveriesForEmail :: "string \<Rightarrow> 's db \<Rightarrow> delivery_row list" where
  "GetDeliveriesForEmail eid s =
     sort_key (\<lambda>d. - dl_created_at d) (filter (\<lambda>d. dl_email_id d = eid) (t_deliveries s))"

text \<open>\<open>SaveDelivery\<close>, the record of an attempt made outside the queue; \<open>uuid\<close> is the identifier it may draw.\<close>

definition SaveDelivery :: "string \<Rightarrow> int \<Rightarrow> delivery_row \<Rightarrow> 's db \<Rightarrow> (sql_error, 's db) result" where
  "SaveDelivery uuid now d s =
     insert_delivery
       (d\<lparr>dl_id := if dl_id d = [] then uuid else dl_id d,
          dl_created_at := if dl_created_at d = zero_time then now else dl_created_at d,
          dl_updated_at := now\<rparr>) s"

text \<open>The two rows one job of \<open>EnqueueDeliveries\<close> inserts.\<close>

definition new_delivery :: "string \<Rightarrow> int \<Rightarrow> string \<Rightarrow> string \<Rightarrow> delivery_row" where
  "new_delivery emailID now i rule =
     \<lparr>dl_id = i, dl_email_id = emailID, dl_rule_name = rule, dl_status = DPending,
      dl_status_code = 0, dl_error_message = [], dl_response_body = [], dl_attempts = 0,
      dl_created_at = now, dl_updated_at = now\<rparr>"

definition new_queue_row :: "string \<Rightarrow> string \<Rightarrow> int \<Rightarrow> string \<Rightarrow> 's \<Rightarrow> 's queue_row" where
  "new_queue_row batch emailID now i snap =
     \<lparr>q_delivery_id = i, q_batch_id = batch, q_email_id = emailID, q_snapshot = Some snap,
      q_next_attempt_at = UnixNano now\<rparr>"

definition enqueue_job ::
    "string \<Rightarrow> string \<Rightarrow> int \<Rightarrow> string \<Rightarrow> string \<times> 's \<Rightarrow> 's db \<Rightarrow> (sql_error, 's db) result" where
  "enqueue_job batch emailID now i job s =
     (case insert_delivery (new_delivery emailID now i (fst job)) s of
        Inl e \<Rightarrow> Inl e
      | Inr s' \<Rightarrow> insert_queue (new_queue_row batch emailID now i (snd job)) s')"

fun enqueue_jobs ::
    "(nat \<Rightarrow> string) \<Rightarrow> nat \<Rightarrow> string \<Rightarrow> string \<Rightarrow> int \<Rightarrow> (string \<times> 's) list \<Rightarrow> 's db \<Rightarrow> (sql_error, 's db) result"
where
  "enqueue_jobs uuid k batch emailID now [] s = Inr s"
| "enqueue_jobs uuid k batch emailID now (job # jobs) s =
     (case enqueue_job batch emailID now (uuid k) job s of
        Inl e \<Rightarrow> Inl e
      | Inr s' \<Rightarrow> enqueue_jobs uuid (Suc k) batch emailID now jobs s')"

text \<open>
  The whole transaction: a job is a rule name and its request snapshot. The error result carries
  the tables as the rollback leaves them.
\<close>

definition EnqueueDeliveries ::
    "(nat \<Rightarrow> string) \<Rightarrow> string \<Rightarrow> (string \<times> 's) list \<Rightarrow> int \<Rightarrow> 's db \<Rightarrow> sql_error option \<times> 's db" where
  "EnqueueDeliveries uuid emailID jobs now s =
     (let batch = uuid 0 in
      case enqueue_jobs uuid 1 batch emailID now jobs s of
        Inl e \<Rightarrow> (Some e, s)
      | Inr s' \<Rightarrow> (None, s'\<lparr>t_emails := map_where (\<lambda>e. em_id e = emailID)
          (\<lambda>e. e\<lparr>em_status := EmailStatusReceived, em_delivery_batch := batch\<rparr>) (t_emails s')\<rparr>))"

definition RecoverDeliveries :: "'s db \<Rightarrow> 's db" where
  "RecoverDeliveries s =
     s\<lparr>t_deliveries := map_where
        (\<lambda>d. dl_status d = DInProgress \<and> dl_id d \<in> q_delivery_id ` set (t_queue s))
        (\<lambda>d. d\<lparr>dl_status := DPending\<rparr>) (t_deliveries s)\<rparr>"

text \<open>The rows the SELECT of \<open>ClaimDelivery\<close> sees, and those tied for the least due time.\<close>

definition due_rows :: "'s db \<Rightarrow> int \<Rightarrow> (delivery_row \<times> 's queue_row) list" where
  "due_rows s t =
     [(d, q). q \<leftarrow> t_queue s, d \<leftarrow> t_deliveries s,
        dl_id d = q_delivery_id q \<and> email_exists s (q_email_id q) \<and> dl_status d = DPending
        \<and> q_next_attempt_at q \<le> t]"

definition first_due :: "(delivery_row \<times> 's queue_row) list \<Rightarrow> (delivery_row \<times> 's queue_row) list" where
  "first_due rows =
     filter (\<lambda>(d, q). list_all (\<lambda>(_, q'). q_next_attempt_at q \<le> q_next_attempt_at q') rows) rows"

definition set_in_progress :: "string \<Rightarrow> int \<Rightarrow> 's db \<Rightarrow> 's db" where
  "set_in_progress i now s =
     s\<lparr>t_deliveries := map_where (\<lambda>d. dl_id d = i)
        (\<lambda>d. d\<lparr>dl_status := DInProgress, dl_updated_at := now\<rparr>) (t_deliveries s)\<rparr>"

definition ClaimDelivery :: "nat \<Rightarrow> int \<Rightarrow> 's db \<Rightarrow> 's QueuedDelivery option \<times> 's db" where
  "ClaimDelivery tie now s =
     (let rows = first_due (due_rows s (UnixNano now)) in
      if rows = [] then (None, s)
      else (let (d, q) = rows ! (tie mod length rows) in
        (Some \<lparr>qd_ID = dl_id d, qd_EmailID = q_email_id q, qd_RuleName = dl_rule_name d,
               qd_Snapshot = q_snapshot q, qd_Attempts = dl_attempts d,
               qd_NextAttemptAt = q_next_attempt_at q\<rparr>,
         set_in_progress (dl_id d) now s)))"

text \<open>
  The status the last statement of \<open>FinishDelivery\<close> computes for an email from the deliveries of its
  latest batch; SUM over no rows is NULL, which both comparisons treat as false.
\<close>

definition aggregate_status :: "delivery_status list \<Rightarrow> EmailStatus" where
  "aggregate_status sts =
     (let n = length (filter (\<lambda>st. st = DSuccess) sts) in
      if sts \<noteq> [] \<and> n = length sts then EmailStatusDelivered
      else if sts \<noteq> [] \<and> n > 0 then EmailStatusPartialFailure
      else EmailStatusFailed)"

definition batch_statuses :: "'s db \<Rightarrow> email_row \<Rightarrow> delivery_status list" where
  "batch_statuses s e =
     map (\<lambda>(d, q). dl_status d)
       (filter (\<lambda>(d, q). q_batch_id q = em_delivery_batch e) (queued_rows s (em_id e)))"

definition save_result :: "string \<Rightarrow> DeliveryResult \<Rightarrow> int \<Rightarrow> 's db \<Rightarrow> 's db" where
  "save_result i r now s =
     s\<lparr>t_deliveries := map_where (\<lambda>d. dl_id d = i)
        (\<lambda>d. d\<lparr>dl_status := dr_Status r, dl_status_code := dr_StatusCode r,
               dl_error_message := dr_Error r, dl_response_body := dr_ResponseBody r,
               dl_attempts := dr_Attempts r, dl_updated_at := now\<rparr>) (t_deliveries s)\<rparr>"

definition reschedule :: "string \<Rightarrow> int option \<Rightarrow> 's db \<Rightarrow> 's db" where
  "reschedule i next s =
     s\<lparr>t_queue := map_where (\<lambda>q. q_delivery_id q = i)
        (case next of
           Some t \<Rightarrow> (\<lambda>q. q\<lparr>q_next_attempt_at := UnixNano t\<rparr>)
         | None \<Rightarrow> (\<lambda>q. q\<lparr>q_snapshot := None, q_next_attempt_at := max_int64\<rparr>)) (t_queue s)\<rparr>"

definition settle_email :: "string \<Rightarrow> 's db \<Rightarrow> 's db" where
  "settle_email eid s =
     s\<lparr>t_emails := map_where (\<lambda>e. em_id e = eid \<and> \<not> has_unfinished s (em_id e))
        (\<lambda>e. e\<lparr>em_status := aggregate_status (batch_statuses s e)\<rparr>) (t_emails s)\<rparr>"

text \<open>\<open>next\<close> is \<open>None\<close> for the zero time, which marks a final result.\<close>

definition FinishDelivery ::
    "'s QueuedDelivery \<Rightarrow> DeliveryResult \<Rightarrow> int option \<Rightarrow> int \<Rightarrow> 's db \<Rightarrow> 's db" where
  "FinishDelivery job r next now s =
     settle_email (qd_EmailID job) (reschedule (qd_ID job) next (save_result (qd_ID job) r now s))"

end
