(* ===== verification/StoreInv.thy ===== *)
theory StoreInv
  imports Store
begin

section \<open>The store: invariants, atomicity and the delivery contract\<close>

text \<open>
  What every statement and transaction of \<open>Store\<close> keeps: \<open>store_inv\<close> (keys and foreign keys),
  \<open>snapshot_inv\<close> (a queue row has its request snapshot exactly while its delivery is unfinished) and
  \<open>email_inv\<close> (an email that was enqueued is \<open>received\<close> exactly while work is left). \<open>qstat\<close> is the
  abstract view, the status of each queued delivery; the locale \<open>delivery_store\<close> states what the
  worker loop relies on over such a view, and is interpreted on the store's own operations.
\<close>

subsection \<open>Joins as sets\<close>

lemma queued_rows_iff:
  "(d, q) \<in> set (queued_rows s eid) \<longleftrightarrow>
   q \<in> set (t_queue s) \<and> d \<in> set (t_deliveries s) \<and> dl_id d = q_delivery_id q \<and> q_email_id q = eid"
  by (auto simp: queued_rows_def)

lemma has_unfinished_iff:
  "has_unfinished s eid \<longleftrightarrow> (\<exists>q\<in>set (t_queue s). \<exists>d\<in>set (t_deliveries s).
     dl_id d = q_delivery_id q \<and> q_email_id q = eid \<and> unfinished_status (dl_status d))"
  by (auto simp: has_unfinished_def list_ex_iff queued_rows_iff) (metis case_prodI queued_rows_iff)

lemma due_rows_iff:
  "(d, q) \<in> set (due_rows s t) \<longleftrightarrow>
   q \<in> set (t_queue s) \<and> d \<in> set (t_deliveries s) \<and> dl_id d = q_delivery_id q
   \<and> email_exists s (q_email_id q) \<and> dl_status d = DPending \<and> q_next_attempt_at q \<le> t"
  by (auto simp: due_rows_def)

lemma first_due_iff:
  "(d, q) \<in> set (first_due rows) \<longleftrightarrow>
   (d, q) \<in> set rows \<and> (\<forall>(d', q')\<in>set rows. q_next_attempt_at q \<le> q_next_attempt_at q')"
  by (auto simp: first_due_def list_all_iff)

lemma first_due_Nil_iff: "first_due rows = [] \<longleftrightarrow> rows = []"
proof
  assume empty: "first_due rows = []"
  show "rows = []"
  proof (rule ccontr)
    assume "rows \<noteq> []"
    define m where "m = Min ((\<lambda>(d, q). q_next_attempt_at q) ` set rows)"
    have fin: "finite ((\<lambda>(d, q). q_next_attempt_at q) ` set rows)" by simp
    have "m \<in> (\<lambda>(d, q). q_next_attempt_at q) ` set rows"
      unfolding m_def using \<open>rows \<noteq> []\<close> by (intro Min_in) auto
    then obtain d q where dq: "(d, q) \<in> set rows" "q_next_attempt_at q = m" by auto
    have "(d, q) \<in> set (first_due rows)"
      unfolding first_due_iff using dq Min_le [OF fin, folded m_def] by (force simp: image_iff)
    with empty show False by simp
  qed
qed (simp add: first_due_def)

subsection \<open>Keys and foreign keys\<close>

definition store_inv :: "'s db \<Rightarrow> bool" where
  "store_inv s \<longleftrightarrow>
     key_distinct em_id (t_emails s) \<and> key_distinct dl_id (t_deliveries s)
     \<and> key_distinct q_delivery_id (t_queue s)
     \<and> (\<forall>d\<in>set (t_deliveries s). email_exists s (dl_email_id d))
     \<and> (\<forall>q\<in>set (t_queue s). \<exists>d\<in>set (t_deliveries s).
          dl_id d = q_delivery_id q \<and> dl_email_id d = q_email_id q)"

lemma store_inv_empty [simp]: "store_inv empty_db"
  by (simp add: store_inv_def empty_db_def)

lemma store_inv_queue_email: "store_inv s \<Longrightarrow> q \<in> set (t_queue s) \<Longrightarrow> email_exists s (q_email_id q)"
  by (force simp: store_inv_def)

lemma store_inv_join:
  assumes "store_inv s" "q \<in> set (t_queue s)"
  obtains d where "d \<in> set (t_deliveries s)" "dl_id d = q_delivery_id q" "dl_email_id d = q_email_id q"
    "\<And>d'. d' \<in> set (t_deliveries s) \<Longrightarrow> dl_id d' = q_delivery_id q \<Longrightarrow> d' = d"
  using assms key_distinct_inj [of dl_id "t_deliveries s"] by (fastforce simp: store_inv_def)

text \<open>An UPDATE that keeps the key columns keeps the invariant.\<close>

lemma store_inv_map_emails:
  "(\<And>e. em_id (f e) = em_id e) \<Longrightarrow> store_inv (s\<lparr>t_emails := map_where p f (t_emails s)\<rparr>) = store_inv s"
  by (simp add: store_inv_def email_exists_def key_distinct_map_where key_image_map_where)

lemma store_inv_map_deliveries:
  assumes "\<And>d. dl_id (f d) = dl_id d" "\<And>d. dl_email_id (f d) = dl_email_id d"
  shows "store_inv (s\<lparr>t_deliveries := map_where p f (t_deliveries s)\<rparr>) = store_inv s"
  using assms by (simp add: store_inv_def email_exists_def key_distinct_map_where ball_map_where bex_map_where)

lemma store_inv_map_queue:
  assumes "\<And>q. q_delivery_id (f q) = q_delivery_id q" "\<And>q. q_email_id (f q) = q_email_id q"
  shows "store_inv (s\<lparr>t_queue := map_where p f (t_queue s)\<rparr>) = store_inv s"
  using assms by (simp add: store_inv_def email_exists_def key_distinct_map_where ball_map_where)

lemma store_inv_insert_email [inv_intros]:
  "store_inv s \<Longrightarrow> insert_email r s = Inr s' \<Longrightarrow> store_inv s'"
  by (auto simp: insert_email_def store_inv_def email_exists_def split: if_splits)

text \<open>\<open>SaveDelivery\<close> keeps the keys, refuses a delivery of an email that is not there, and its record is read back.\<close>

lemma store_inv_SaveDelivery [inv_intros]:
  "store_inv s \<Longrightarrow> SaveDelivery u now d s = Inr s' \<Longrightarrow> store_inv s'"
  by (auto simp: SaveDelivery_def insert_delivery_def store_inv_def email_exists_def delivery_exists_def split: if_splits)

lemma SaveDelivery_read_back:
  assumes "SaveDelivery u now d s = Inr s'"
  shows "email_exists s (dl_email_id d) \<and> (\<exists>d'\<in>set (GetDeliveriesForEmail (dl_email_id d) s').
    dl_status d' = dl_status d \<and> dl_response_body d' = dl_response_body d \<and> dl_updated_at d' = now
    \<and> dl_id d' = (if dl_id d = [] then u else dl_id d))"
  using assms by (auto simp: SaveDelivery_def insert_delivery_def GetDeliveriesForEmail_def split: if_splits)

lemma store_inv_enqueue_job [inv_intros]:
  "store_inv s \<Longrightarrow> enqueue_job b eid now i job s = Inr s' \<Longrightarrow> store_inv s'"
  by (auto simp: enqueue_job_def insert_delivery_def insert_queue_def store_inv_def email_exists_def
      delivery_exists_def new_delivery_def new_queue_row_def split: if_splits)

lemma store_inv_enqueue_jobs [inv_intros]:
  "store_inv s \<Longrightarrow> enqueue_jobs uuid k b eid now jobs s = Inr s' \<Longrightarrow> store_inv s'"
  by (induction uuid k b eid now jobs s rule: enqueue_jobs.induct)
    (auto split: sum.splits intro: store_inv_enqueue_job)

lemma store_inv_delete_emails [inv_intros]:
  assumes "store_inv s"
  shows "store_inv (delete_emails p s)"
proof -
  define gone where "gone = em_id ` {e. e \<in> set (t_emails s) \<and> p e}"
  have uniq: "em_id e \<in> gone \<longleftrightarrow> p e" if "e \<in> set (t_emails s)" for e
    using assms that key_distinct_inj [of em_id "t_emails s"] by (auto simp: gone_def store_inv_def)
  show ?thesis
    unfolding store_inv_def delete_emails_def Let_def gone_def [symmetric] email_exists_def
  proof (intro conjI ballI; simp)
    fix d assume d: "d \<in> set (t_deliveries s) \<and> dl_email_id d \<notin> gone"
    with assms obtain e where "e \<in> set (t_emails s)" "em_id e = dl_email_id d"
      by (auto simp: store_inv_def email_exists_def)
    with d uniq show "dl_email_id d \<in> em_id ` {e \<in> set (t_emails s). \<not> p e}" by force
  next
    fix q assume q: "q \<in> set (t_queue s) \<and> q_email_id q \<notin> gone
      \<and> q_delivery_id q \<notin> dl_id ` {d \<in> set (t_deliveries s). dl_email_id d \<in> gone}"
    with assms obtain d where "d \<in> set (t_deliveries s)" "dl_id d = q_delivery_id q" "dl_email_id d = q_email_id q"
      by (blast elim: store_inv_join)
    with q show "\<exists>d. d \<in> set (t_deliveries s) \<and> dl_email_id d \<notin> gone \<and> dl_id d = q_delivery_id q
      \<and> dl_email_id d = q_email_id q" by metis
  qed (use assms in \<open>auto simp: store_inv_def\<close>)
qed

lemma store_inv_EnqueueDeliveries [inv_intros]:
  "store_inv s \<Longrightarrow> store_inv (snd (EnqueueDeliveries uuid eid jobs now s))"
  by (auto simp: EnqueueDeliveries_def Let_def store_inv_map_emails split: sum.splits
      intro: store_inv_enqueue_jobs)

lemma store_inv_RecoverDeliveries [inv_intros]: "store_inv s \<Longrightarrow> store_inv (RecoverDeliveries s)"
  by (simp add: RecoverDeliveries_def store_inv_map_deliveries)

lemma store_inv_ClaimDelivery [inv_intros]:
  "store_inv s \<Longrightarrow> store_inv (snd (ClaimDelivery tie now s))"
  by (simp add: ClaimDelivery_def Let_def set_in_progress_def store_inv_map_deliveries split: prod.split)

lemma store_inv_save_result: "store_inv (save_result i r now s) = store_inv s"
  by (simp add: save_result_def store_inv_map_deliveries)

lemma store_inv_reschedule: "store_inv (reschedule i next s) = store_inv s"
  by (cases "next") (simp_all add: reschedule_def store_inv_map_queue)

lemma store_inv_settle_email: "store_inv (settle_email i s) = store_inv s"
  by (simp add: settle_email_def store_inv_map_emails)

lemma store_inv_FinishDelivery [inv_intros]:
  "store_inv s \<Longrightarrow> store_inv (FinishDelivery job r next now s)"
  by (simp add: FinishDelivery_def store_inv_save_result store_inv_reschedule store_inv_settle_email)

lemma store_inv_UpdateEmailStatus [inv_intros]: "store_inv s \<Longrightarrow> store_inv (UpdateEmailStatus i st s)"
  by (simp add: UpdateEmailStatus_def store_inv_map_emails)

lemma store_inv_UpdateParsedEmail [inv_intros]: "store_inv s \<Longrightarrow> store_inv (UpdateParsedEmail i pe s)"
  by (simp add: UpdateParsedEmail_def store_inv_map_emails)


subsection \<open>What a transaction of \<open>EnqueueDeliveries\<close> does\<close>

definition job_ids :: "(nat \<Rightarrow> string) \<Rightarrow> nat \<Rightarrow> 'j list \<Rightarrow> string list" where
  "job_ids uuid k jobs = map uuid [k..<k + length jobs]"

lemma job_ids_Cons: "job_ids uuid k (j # js) = uuid k # job_ids uuid (Suc k) js"
  by (simp add: job_ids_def upt_conv_Cons del: upt_Suc)

lemma job_ids_Nil [simp]: "job_ids uuid k [] = []"
  by (simp add: job_ids_def)

definition added :: "string \<Rightarrow> string \<Rightarrow> int \<Rightarrow> (string \<times> string \<times> 's) list \<Rightarrow> 's db \<Rightarrow> 's db" where
  "added batch eid now ijs s =
     s\<lparr>t_deliveries := t_deliveries s @ map (\<lambda>ij. new_delivery eid now (fst ij) (fst (snd ij))) ijs,
       t_queue := t_queue s @ map (\<lambda>ij. new_queue_row batch eid now (fst ij) (snd (snd ij))) ijs\<rparr>"

lemma enqueue_job_iff:
  assumes "store_inv s"
  shows "enqueue_job b eid now i job s =
    (if delivery_exists s i then Inl UniqueConstraint
     else if \<not> email_exists s eid then Inl ForeignKeyConstraint
     else Inr (added b eid now [(i, job)] s))"
proof -
  have "q_delivery_id ` set (t_queue s) \<subseteq> dl_id ` set (t_deliveries s)"
  proof clarify
    fix q assume "q \<in> set (t_queue s)"
    with assms obtain d where "d \<in> set (t_deliveries s)" "dl_id d = q_delivery_id q"
      by (rule store_inv_join)
    then show "q_delivery_id q \<in> dl_id ` set (t_deliveries s)" by (metis imageI)
  qed
  then show ?thesis
    by (auto simp: enqueue_job_def insert_delivery_def insert_queue_def new_delivery_def
        new_queue_row_def added_def delivery_exists_def email_exists_def)
qed

lemma added_append: "added b eid now ys (added b eid now xs s) = added b eid now (xs @ ys) s"
  by (simp add: added_def)

lemma enqueue_jobs_iff:
  "store_inv s \<Longrightarrow>
   (\<exists>s'. enqueue_jobs uuid k b eid now jobs s = Inr s') \<longleftrightarrow>
   (jobs = [] \<or> email_exists s eid \<and> distinct (job_ids uuid k jobs)
      \<and> list_all (\<lambda>i. \<not> delivery_exists s i) (job_ids uuid k jobs))"
proof (induction jobs arbitrary: k s)
  case (Cons j js)
  show ?case
  proof (cases "delivery_exists s (uuid k) \<or> \<not> email_exists s eid")
    case True
    with Cons.prems show ?thesis by (auto simp: enqueue_job_iff job_ids_Cons)
  next
    case False
    let ?s' = "added b eid now [(uuid k, j)] s"
    have job: "enqueue_job b eid now (uuid k) j s = Inr ?s'"
      using False Cons.prems by (simp add: enqueue_job_iff)
    have ex: "delivery_exists ?s' i \<longleftrightarrow> delivery_exists s i \<or> i = uuid k" "email_exists ?s' i = email_exists s i" for i
      by (cases j; auto simp: delivery_exists_def email_exists_def added_def new_delivery_def)+
    from Cons.IH [OF store_inv_enqueue_job [OF Cons.prems job], of "Suc k"] False
    show ?thesis by (auto simp: job job_ids_Cons ex list_all_iff)
  qed
qed simp

lemma enqueue_jobs_result:
  "store_inv s \<Longrightarrow> enqueue_jobs uuid k b eid now jobs s = Inr s' \<Longrightarrow>
   s' = added b eid now (zip (job_ids uuid k jobs) jobs) s"
proof (induction jobs arbitrary: k s)
  case Nil
  then show ?case by (simp add: added_def)
next
  case (Cons j js)
  then obtain s1 where job: "enqueue_job b eid now (uuid k) j s = Inr s1"
    and rest: "enqueue_jobs uuid (Suc k) b eid now js s1 = Inr s'"
    by (auto split: sum.splits)
  have s1: "s1 = added b eid now [(uuid k, j)] s"
    using job Cons.prems(1) by (simp add: enqueue_job_iff split: if_splits)
  from Cons.IH [OF store_inv_enqueue_job [OF Cons.prems(1) job] rest] show ?case
    by (simp add: s1 added_append job_ids_Cons)
qed

subsection \<open>The abstract view: the status of each queued delivery\<close>

definition qstat :: "'s db \<Rightarrow> string \<Rightarrow> delivery_status option" where
  "qstat s i =
     (if i \<in> q_delivery_id ` set (t_queue s) then map_option dl_status (row_of dl_id (t_deliveries s) i)
      else None)"

lemma qstat_emails [simp]: "qstat (s\<lparr>t_emails := es\<rparr>) = qstat s"
  by (rule ext) (simp add: qstat_def)

lemma qstat_map_queue:
  "(\<And>q. q_delivery_id (f q) = q_delivery_id q) \<Longrightarrow> qstat (s\<lparr>t_queue := map_where p f (t_queue s)\<rparr>) = qstat s"
  by (rule ext) (simp add: qstat_def key_image_map_where)

lemma qstat_set_status:
  assumes "\<And>d. dl_id (f d) = dl_id d" "\<And>d. dl_status (f d) = st"
  shows "qstat (s\<lparr>t_deliveries := map_where (\<lambda>d. dl_id d = i) f (t_deliveries s)\<rparr>) =
    (qstat s)(i := map_option (\<lambda>_. st) (qstat s i))"
proof (rule ext)
  fix x
  have id: "d \<in> set (t_deliveries s) \<and> dl_id d = x" if "row_of dl_id (t_deliveries s) x = Some d" for d
    using that by (auto simp: row_of_def find_Some_iff)
  show "qstat (s\<lparr>t_deliveries := map_where (\<lambda>d. dl_id d = i) f (t_deliveries s)\<rparr>) x =
      ((qstat s)(i := map_option (\<lambda>_. st) (qstat s i))) x"
    using id by (cases "row_of dl_id (t_deliveries s) x")
      (auto simp: qstat_def row_of_map_where assms)
qed

lemma qstat_Some_iff:
  assumes "store_inv s"
  shows "qstat s i = Some st \<longleftrightarrow> (\<exists>q\<in>set (t_queue s). \<exists>d\<in>set (t_deliveries s).
    q_delivery_id q = i \<and> dl_id d = i \<and> dl_status d = st)"
proof -
  have "key_distinct dl_id (t_deliveries s)" using assms by (simp add: store_inv_def)
  then show ?thesis by (force simp: qstat_def row_of_Some_iff image_iff)
qed

lemma qstat_dom: "store_inv s \<Longrightarrow> qstat s i = None \<longleftrightarrow> i \<notin> q_delivery_id ` set (t_queue s)"
proof -
  assume inv: "store_inv s"
  have "i \<in> dl_id ` set (t_deliveries s)" if "i \<in> q_delivery_id ` set (t_queue s)"
  proof -
    from that obtain q where q: "q \<in> set (t_queue s)" "i = q_delivery_id q" by auto
    from store_inv_join [OF inv q(1)] obtain d where "d \<in> set (t_deliveries s)" "dl_id d = q_delivery_id q"
      by metis
    with q(2) show ?thesis by (metis imageI)
  qed
  then show ?thesis by (auto simp: qstat_def row_of_None_iff)
qed

lemma has_unfinished_qstat:
  "store_inv s \<Longrightarrow> has_unfinished s eid \<longleftrightarrow>
   (\<exists>q\<in>set (t_queue s). q_email_id q = eid \<and> (\<exists>st. qstat s (q_delivery_id q) = Some st \<and> unfinished_status st))"
  by (auto simp: has_unfinished_iff qstat_Some_iff)

lemma qstat_ClaimDelivery:
  assumes "store_inv s" "ClaimDelivery tie now s = (Some job, s')"
  shows "qstat s (qd_ID job) = Some DPending \<and> qstat s' = (qstat s)(qd_ID job \<mapsto> DInProgress)"
proof -
  define rows where "rows = first_due (due_rows s (UnixNano now))"
  obtain d q where dq: "rows ! (tie mod length rows) = (d, q)" by force
  have ne: "rows \<noteq> []" and job: "qd_ID job = dl_id d" and s': "s' = set_in_progress (dl_id d) now s"
    using assms(2) dq by (auto simp: ClaimDelivery_def Let_def rows_def [symmetric] split: if_splits)
  have "(d, q) \<in> set rows" using ne dq nth_mem [of "tie mod length rows" rows] by simp
  then have "q \<in> set (t_queue s) \<and> d \<in> set (t_deliveries s) \<and> dl_id d = q_delivery_id q \<and> dl_status d = DPending"
    by (simp add: rows_def first_due_iff due_rows_iff)
  then have pend: "qstat s (dl_id d) = Some DPending" using assms(1) by (auto simp: qstat_Some_iff)
  moreover have "qstat s' = (qstat s)(dl_id d := map_option (\<lambda>_. DInProgress) (qstat s (dl_id d)))"
    unfolding s' set_in_progress_def by (rule qstat_set_status) simp_all
  ultimately show ?thesis by (simp add: job)
qed

lemma ClaimDelivery_job:
  assumes "store_inv s" "ClaimDelivery tie now s = (Some job, s')"
  shows "t_queue s' = t_queue s \<and> (\<exists>q. q \<in> set (t_queue s) \<and> qd_ID job = q_delivery_id q
    \<and> qd_EmailID job = q_email_id q \<and> qd_Snapshot job = q_snapshot q)"
proof -
  define rows where "rows = first_due (due_rows s (UnixNano now))"
  obtain d q where dq: "rows ! (tie mod length rows) = (d, q)" by force
  have ne: "rows \<noteq> []" and job: "qd_ID job = dl_id d" "qd_EmailID job = q_email_id q" "qd_Snapshot job = q_snapshot q"
    and s': "s' = set_in_progress (dl_id d) now s"
    using assms(2) dq by (auto simp: ClaimDelivery_def Let_def rows_def [symmetric] split: if_splits)
  have "(d, q) \<in> set rows" using ne dq nth_mem [of "tie mod length rows" rows] by simp
  then have "q \<in> set (t_queue s) \<and> dl_id d = q_delivery_id q"
    by (simp add: rows_def first_due_iff due_rows_iff)
  with job show ?thesis by (auto simp: s' set_in_progress_def)
qed

lemma ClaimDelivery_None: "ClaimDelivery tie now s = (None, s') \<Longrightarrow> s' = s"
  by (auto simp: ClaimDelivery_def Let_def split: if_splits prod.splits)

lemma qstat_FinishDelivery:
  "qstat (FinishDelivery job r next now s) = (qstat s)(qd_ID job := map_option (\<lambda>_. dr_Status r) (qstat s (qd_ID job)))"
proof -
  have "qstat (save_result (qd_ID job) r now s) =
      (qstat s)(qd_ID job := map_option (\<lambda>_. dr_Status r) (qstat s (qd_ID job)))"
    unfolding save_result_def by (rule qstat_set_status) simp_all
  moreover have "qstat (reschedule i next s1) = qstat s1" for i and s1 :: "'a db"
    by (cases "next") (simp_all add: reschedule_def qstat_map_queue)
  ultimately show ?thesis by (simp add: FinishDelivery_def settle_email_def)
qed

lemma qstat_RecoverDeliveries:
  "qstat (RecoverDeliveries s) i = map_option (\<lambda>st. if st = DInProgress then DPending else st) (qstat s i)"
proof -
  have id: "dl_id d = i" if "row_of dl_id (t_deliveries s) i = Some d" for d
    using that by (auto simp: row_of_def find_Some_iff)
  show ?thesis
    using id by (cases "row_of dl_id (t_deliveries s) i")
      (auto simp: qstat_def RecoverDeliveries_def row_of_map_where)
qed

lemma qstat_delete_emails_sub:
  "store_inv s \<Longrightarrow> qstat (delete_emails p s) i = Some st \<Longrightarrow> qstat s i = Some st"
  using store_inv_delete_emails [of s p]
  by (auto simp: qstat_Some_iff) (auto simp: delete_emails_def Let_def)


subsection \<open>Snapshots and email statuses\<close>

definition snapshot_inv :: "'s db \<Rightarrow> bool" where
  "snapshot_inv s \<longleftrightarrow> (\<forall>q\<in>set (t_queue s).
     (q_snapshot q \<noteq> None) = (\<exists>st. qstat s (q_delivery_id q) = Some st \<and> unfinished_status st))"

definition email_inv :: "'s db \<Rightarrow> bool" where
  "email_inv s \<longleftrightarrow> (\<forall>e\<in>set (t_emails s).
     (has_unfinished s (em_id e) \<longrightarrow> em_status e = EmailStatusReceived)
     \<and> (em_status e = EmailStatusReceived \<and> em_delivery_batch e \<noteq> [] \<longrightarrow> has_unfinished s (em_id e)))"

definition queue_inv :: "'s db \<Rightarrow> bool" where
  "queue_inv s \<longleftrightarrow> store_inv s \<and> snapshot_inv s \<and> email_inv s"

lemma queue_inv_empty [simp]: "queue_inv empty_db"
  by (simp add: queue_inv_def snapshot_inv_def email_inv_def store_inv_empty) (simp add: empty_db_def)

text \<open>
  Statements that keep the queue rows and whether each delivery is finished keep both invariants;
  \<open>qsim\<close> compares the two views.
\<close>

definition qsim :: "'s db \<Rightarrow> 's db \<Rightarrow> bool" where
  "qsim s s' \<longleftrightarrow> t_queue s' = t_queue s \<and>
     (\<forall>i. map_option unfinished_status (qstat s' i) = map_option unfinished_status (qstat s i))"

lemma qsim_unfinished:
  "qsim s s' \<Longrightarrow> (\<exists>st. qstat s' i = Some st \<and> unfinished_status st) = (\<exists>st. qstat s i = Some st \<and> unfinished_status st)"
proof -
  assume "qsim s s'"
  then have "map_option unfinished_status (qstat s' i) = map_option unfinished_status (qstat s i)"
    by (simp add: qsim_def)
  then show ?thesis by (cases "qstat s i"; cases "qstat s' i") auto
qed

lemma qsim_has_unfinished:
  "qsim s s' \<Longrightarrow> store_inv s \<Longrightarrow> store_inv s' \<Longrightarrow> has_unfinished s' = has_unfinished s"
  by (rule ext) (simp add: has_unfinished_qstat qsim_unfinished, simp add: qsim_def)

lemma qsim_snapshot_inv: "qsim s s' \<Longrightarrow> snapshot_inv s \<Longrightarrow> snapshot_inv s'"
  by (simp add: snapshot_inv_def qsim_unfinished) (simp add: qsim_def)

lemma queue_inv_qsim:
  assumes "queue_inv s" "qsim s s'" "store_inv s'" "t_emails s' = t_emails s"
  shows "queue_inv s'"
proof -
  have "has_unfinished s' = has_unfinished s"
    using assms by (intro qsim_has_unfinished) (simp_all add: queue_inv_def)
  then show ?thesis using assms qsim_snapshot_inv by (auto simp: queue_inv_def email_inv_def)
qed

lemma queue_inv_ClaimDelivery [inv_intros]:
  assumes "queue_inv s"
  shows "queue_inv (snd (ClaimDelivery tie now s))"
proof (cases "ClaimDelivery tie now s")
  case (Pair j s')
  have inv: "store_inv s" using assms by (simp add: queue_inv_def)
  show ?thesis
  proof (cases j)
    case None
    with Pair assms show ?thesis using ClaimDelivery_None by fastforce
  next
    case (Some job)
    with Pair have c: "ClaimDelivery tie now s = (Some job, s')" by simp
    have "qsim s s'"
      using qstat_ClaimDelivery [OF inv c] c
      by (auto simp: qsim_def unfinished_status_def ClaimDelivery_def Let_def set_in_progress_def
          split: if_splits prod.splits)
    moreover have "t_emails s' = t_emails s"
      using c by (auto simp: ClaimDelivery_def Let_def set_in_progress_def split: if_splits prod.splits)
    moreover have "store_inv s'" using store_inv_ClaimDelivery [OF inv, of tie now] Pair by simp
    ultimately show ?thesis using assms Pair by (simp add: queue_inv_qsim)
  qed
qed

lemma queue_inv_RecoverDeliveries [inv_intros]:
  assumes "queue_inv s"
  shows "queue_inv (RecoverDeliveries s)"
proof (rule queue_inv_qsim [OF assms])
  have "map_option unfinished_status (qstat (RecoverDeliveries s) i) = map_option unfinished_status (qstat s i)" for i
    by (cases "qstat s i") (auto simp: qstat_RecoverDeliveries unfinished_status_def)
  then show "qsim s (RecoverDeliveries s)" by (simp add: qsim_def RecoverDeliveries_def)
  show "store_inv (RecoverDeliveries s)" using assms by (simp add: queue_inv_def store_inv_RecoverDeliveries)
qed (simp add: RecoverDeliveries_def)

lemma has_unfinished_emails [simp]: "has_unfinished (s\<lparr>t_emails := es\<rparr>) = has_unfinished s"
  by (rule ext) (simp add: has_unfinished_def queued_rows_def)

lemma snapshot_inv_emails [simp]: "snapshot_inv (s\<lparr>t_emails := es\<rparr>) = snapshot_inv s"
  by (simp add: snapshot_inv_def)

lemma queue_inv_insert_email [inv_intros]:
  assumes "queue_inv s" "insert_email r s = Inr s'" "em_delivery_batch r = []"
  shows "queue_inv s'"
proof -
  have s': "s' = s\<lparr>t_emails := t_emails s @ [r]\<rparr>" and new: "\<not> email_exists s (em_id r)"
    using assms(2) by (auto simp: insert_email_def split: if_splits)
  have inv: "store_inv s" using assms(1) by (simp add: queue_inv_def)
  have "\<not> has_unfinished s (em_id r)"
    using new store_inv_queue_email [OF inv] by (metis has_unfinished_iff)
  then show ?thesis
    using assms store_inv_insert_email [OF inv assms(2)] by (auto simp: s' queue_inv_def email_inv_def)
qed

lemma has_unfinished_delivery:
  assumes "store_inv s" "has_unfinished s eid"
  shows "\<exists>d\<in>set (t_deliveries s). dl_email_id d = eid \<and> unfinished_status (dl_status d)"
proof -
  from assms(2) obtain q d where qd: "q \<in> set (t_queue s)" "d \<in> set (t_deliveries s)"
    "dl_id d = q_delivery_id q" "q_email_id q = eid" "unfinished_status (dl_status d)"
    by (auto simp: has_unfinished_iff)
  from store_inv_join [OF assms(1) qd(1)] qd(2,3) have "dl_email_id d = q_email_id q" by metis
  with qd show ?thesis by blast
qed

lemma queue_inv_UpdateEmailStatus [inv_intros]:
  assumes "queue_inv s"
  shows "queue_inv (UpdateEmailStatus i EmailStatusDropped s)"
proof -
  have inv: "store_inv s" using assms by (simp add: queue_inv_def)
  have hu: "has_unfinished (UpdateEmailStatus i EmailStatusDropped s) = has_unfinished s"
    by (simp add: UpdateEmailStatus_def)
  have "email_inv (UpdateEmailStatus i EmailStatusDropped s)"
    unfolding email_inv_def hu
  proof
    fix e' assume "e' \<in> set (t_emails (UpdateEmailStatus i EmailStatusDropped s))"
    then obtain e where e: "e \<in> set (t_emails s)" and id: "em_id e' = em_id e"
      and b: "em_delivery_batch e' = em_delivery_batch e"
      and st: "em_status e' = em_status e \<or> em_status e' = EmailStatusDropped \<and>
        \<not> (\<exists>d\<in>set (t_deliveries s). dl_email_id d = em_id e \<and> unfinished_status (dl_status d))"
      by (auto simp: UpdateEmailStatus_def map_where_def list_ex_iff split: if_splits)
    show "(has_unfinished s (em_id e') \<longrightarrow> em_status e' = EmailStatusReceived)
        \<and> (em_status e' = EmailStatusReceived \<and> em_delivery_batch e' \<noteq> [] \<longrightarrow> has_unfinished s (em_id e'))"
      using assms e id b st has_unfinished_delivery [OF inv, of "em_id e"]
      by (auto simp: queue_inv_def email_inv_def)
  qed
  then show ?thesis
    using assms by (simp add: queue_inv_def store_inv_UpdateEmailStatus) (simp add: UpdateEmailStatus_def)
qed


lemma queue_inv_UpdateParsedEmail [inv_intros]:
  assumes "queue_inv s"
  shows "queue_inv (UpdateParsedEmail i pe s)"
proof -
  have "has_unfinished (UpdateParsedEmail i pe s) = has_unfinished s"
    by (simp add: UpdateParsedEmail_def)
  then have "email_inv (UpdateParsedEmail i pe s)"
    using assms by (auto simp: queue_inv_def email_inv_def UpdateParsedEmail_def map_where_def)
  then show ?thesis
    using assms by (simp add: queue_inv_def store_inv_UpdateParsedEmail) (simp add: UpdateParsedEmail_def)
qed

subsection \<open>Deletion\<close>

lemma delete_emails_rows:
  assumes "store_inv s"
  shows "set (t_emails (delete_emails p s)) = {e \<in> set (t_emails s). \<not> p e}"
    and "set (t_queue (delete_emails p s)) =
      {q \<in> set (t_queue s). \<exists>e\<in>set (t_emails s). em_id e = q_email_id q \<and> \<not> p e}"
    and "set (t_deliveries (delete_emails p s)) =
      {d \<in> set (t_deliveries s). \<exists>e\<in>set (t_emails s). em_id e = dl_email_id d \<and> \<not> p e}"
proof -
  define gone where "gone = em_id ` {e \<in> set (t_emails s). p e}"
  have uniq: "em_id e \<in> gone \<longleftrightarrow> p e" if "e \<in> set (t_emails s)" for e
    using assms that key_distinct_inj [of em_id "t_emails s"] by (auto simp: gone_def store_inv_def)
  have kept: "i \<notin> gone \<longleftrightarrow> (\<exists>e\<in>set (t_emails s). em_id e = i \<and> \<not> p e)" if "email_exists s i" for i
  proof -
    from that obtain x where x: "x \<in> set (t_emails s)" "em_id x = i" by (auto simp: email_exists_def)
    show ?thesis
    proof
      assume "i \<notin> gone"
      with x uniq show "\<exists>e\<in>set (t_emails s). em_id e = i \<and> \<not> p e" by metis
    next
      assume "\<exists>e\<in>set (t_emails s). em_id e = i \<and> \<not> p e"
      with uniq show "i \<notin> gone" by metis
    qed
  qed
  show "set (t_emails (delete_emails p s)) = {e \<in> set (t_emails s). \<not> p e}"
    by (simp add: delete_emails_def Let_def)
  have de: "email_exists s (dl_email_id d)" if "d \<in> set (t_deliveries s)" for d
    using assms that by (simp add: store_inv_def)
  then show "set (t_deliveries (delete_emails p s)) =
      {d \<in> set (t_deliveries s). \<exists>e\<in>set (t_emails s). em_id e = dl_email_id d \<and> \<not> p e}"
    using kept by (auto simp: delete_emails_def Let_def gone_def [symmetric])
  have "q_delivery_id q \<in> dl_id ` {d \<in> set (t_deliveries s). dl_email_id d \<in> gone} \<longleftrightarrow> q_email_id q \<in> gone"
    if q: "q \<in> set (t_queue s)" for q
  proof -
    from store_inv_join [OF assms q] obtain d where d: "d \<in> set (t_deliveries s)"
      "dl_id d = q_delivery_id q" "dl_email_id d = q_email_id q"
      and u: "\<And>d'. d' \<in> set (t_deliveries s) \<Longrightarrow> dl_id d' = q_delivery_id q \<Longrightarrow> d' = d"
      by metis
    show ?thesis
    proof
      assume "q_delivery_id q \<in> dl_id ` {d \<in> set (t_deliveries s). dl_email_id d \<in> gone}"
      then obtain d' where "d' \<in> set (t_deliveries s)" "dl_email_id d' \<in> gone" "dl_id d' = q_delivery_id q" by auto
      with u d show "q_email_id q \<in> gone" by metis
    next
      assume "q_email_id q \<in> gone"
      with d show "q_delivery_id q \<in> dl_id ` {d \<in> set (t_deliveries s). dl_email_id d \<in> gone}"
        by (metis (mono_tags, lifting) image_eqI mem_Collect_eq)
    qed
  qed
  then show "set (t_queue (delete_emails p s)) =
      {q \<in> set (t_queue s). \<exists>e\<in>set (t_emails s). em_id e = q_email_id q \<and> \<not> p e}"
    using kept store_inv_queue_email [OF assms]
    by (auto simp: delete_emails_def Let_def gone_def [symmetric])
qed

lemma qstat_delete_emails:
  assumes inv: "store_inv s"
  shows "qstat (delete_emails p s) i =
    (if i \<in> q_delivery_id ` set (t_queue (delete_emails p s)) then qstat s i else None)"
proof (cases "i \<in> q_delivery_id ` set (t_queue (delete_emails p s))")
  case True
  then have "qstat (delete_emails p s) i \<noteq> None"
    using qstat_dom [OF store_inv_delete_emails [OF inv]] by simp
  then obtain st where "qstat (delete_emails p s) i = Some st" by blast
  with True qstat_delete_emails_sub [OF inv] show ?thesis by fastforce
qed (simp add: qstat_def)

lemma has_unfinished_delete_emails:
  assumes inv: "store_inv s" and e: "e \<in> set (t_emails s)" "\<not> p e"
  shows "has_unfinished (delete_emails p s) (em_id e) = has_unfinished s (em_id e)"
proof -
  have q: "q \<in> set (t_queue (delete_emails p s)) \<longleftrightarrow> q \<in> set (t_queue s)" if "q_email_id q = em_id e" for q
    unfolding delete_emails_rows(2) [OF inv] using e that by auto
  then have "qstat (delete_emails p s) (q_delivery_id q) = qstat s (q_delivery_id q)"
    if "q_email_id q = em_id e" "q \<in> set (t_queue s)" for q
    using that by (simp add: qstat_delete_emails [OF inv])
  with q show ?thesis
    unfolding has_unfinished_qstat [OF inv] has_unfinished_qstat [OF store_inv_delete_emails [OF inv]]
    by metis
qed

lemma queue_inv_delete_emails [inv_intros]:
  assumes "queue_inv s"
  shows "queue_inv (delete_emails p s)"
proof -
  have inv: "store_inv s" using assms by (simp add: queue_inv_def)
  have "snapshot_inv (delete_emails p s)"
    using assms delete_emails_rows(2) [OF inv]
    by (auto simp: snapshot_inv_def queue_inv_def qstat_delete_emails [OF inv])
  moreover have "email_inv (delete_emails p s)"
    using assms has_unfinished_delete_emails [OF inv]
    by (auto simp: email_inv_def queue_inv_def delete_emails_rows(1) [OF inv])
  ultimately show ?thesis by (simp add: queue_inv_def store_inv_delete_emails [OF inv])
qed

subsection \<open>Enqueueing\<close>

lemma qstat_added:
  assumes "store_inv s" "store_inv (added b eid now ijs s)"
  shows "qstat (added b eid now ijs s) i =
    (if i \<in> fst ` set ijs then Some DPending else qstat s i)"
proof (cases "i \<in> fst ` set ijs")
  case True
  then obtain r sn where "(i, r, sn) \<in> set ijs" by auto
  then have "new_queue_row b eid now i sn \<in> set (t_queue (added b eid now ijs s))"
    and "new_delivery eid now i r \<in> set (t_deliveries (added b eid now ijs s))"
    by (force simp: added_def)+
  then have "qstat (added b eid now ijs s) i = Some DPending"
    unfolding qstat_Some_iff [OF assms(2)]
    by (intro bexI [of _ "new_queue_row b eid now i sn"] bexI [of _ "new_delivery eid now i r"])
      (auto simp: new_queue_row_def new_delivery_def)
  with True show ?thesis by simp
next
  case False
  have "qstat (added b eid now ijs s) i = Some st \<longleftrightarrow> qstat s i = Some st" for st
    unfolding qstat_Some_iff [OF assms(2)] qstat_Some_iff [OF assms(1)]
    using False by (auto simp: added_def new_queue_row_def new_delivery_def image_iff)
  with False show ?thesis by (metis not_None_eq)
qed

lemma queue_inv_EnqueueDeliveries [inv_intros]:
  assumes "queue_inv s" "jobs \<noteq> []" "EnqueueDeliveries uuid eid jobs now s = (r, s')"
  shows "queue_inv s'"
proof (cases "enqueue_jobs uuid 1 (uuid 0) eid now jobs s")
  case (Inl e)
  with assms show ?thesis by (simp add: EnqueueDeliveries_def)
next
  case (Inr s1)
  define ijs where "ijs = zip (job_ids uuid 1 jobs) jobs"
  have inv: "store_inv s" using assms(1) by (simp add: queue_inv_def)
  have s1: "s1 = added (uuid 0) eid now ijs s"
    using enqueue_jobs_result [OF inv Inr] by (simp add: ijs_def)
  have inv1: "store_inv s1" using store_inv_enqueue_jobs [OF inv Inr] .
  have fresh: "i \<notin> q_delivery_id ` set (t_queue s)" if "i \<in> fst ` set ijs" for i
    using that inv1 by (auto simp: s1 added_def store_inv_def key_distinct_def new_queue_row_def image_iff)
  have q1: "qstat s1 i = (if i \<in> fst ` set ijs then Some DPending else qstat s i)" for i
    using qstat_added [OF inv inv1 [unfolded s1]] by (simp add: s1)
  have ne: "ijs \<noteq> []" using assms(2) by (cases jobs) (auto simp: ijs_def job_ids_Cons)
  define s2 where "s2 = s1\<lparr>t_emails := map_where (\<lambda>e. em_id e = eid)
      (\<lambda>e. e\<lparr>em_status := EmailStatusReceived, em_delivery_batch := uuid 0\<rparr>) (t_emails s1)\<rparr>"
  have s': "s' = s2" using assms(3) Inr by (simp add: EnqueueDeliveries_def s2_def)
  have "snapshot_inv s1"
    unfolding snapshot_inv_def
  proof
    fix q assume "q \<in> set (t_queue s1)"
    then consider "q \<in> set (t_queue s)" | i sn where "q = new_queue_row (uuid 0) eid now i sn" "i \<in> fst ` set ijs"
      by (auto simp: s1 added_def)
    then show "(q_snapshot q \<noteq> None) = (\<exists>st. qstat s1 (q_delivery_id q) = Some st \<and> unfinished_status st)"
    proof cases
      case 1
      with fresh have "q_delivery_id q \<notin> fst ` set ijs" by blast
      with 1 assms(1) show ?thesis by (simp add: q1 queue_inv_def snapshot_inv_def)
    qed (simp add: q1 new_queue_row_def unfinished_status_def)
  qed
  then have snap: "snapshot_inv s2" by (simp add: s2_def)
  have "t_emails s1 = t_emails s" by (simp add: s1 added_def)
  have here: "has_unfinished s1 eid"
  proof -
    obtain i j js where c: "ijs = (i, j) # js" using ne by (cases ijs) auto
    have "new_queue_row (uuid 0) eid now i (snd j) \<in> set (t_queue s1)" by (simp add: s1 added_def c)
    with q1 [of i] c show ?thesis
      unfolding has_unfinished_qstat [OF inv1]
      by (intro bexI) (auto simp: new_queue_row_def unfinished_status_def)
  qed
  have other: "has_unfinished s1 i = has_unfinished s i" if "i \<noteq> eid" for i
  proof -
    have qs: "q \<in> set (t_queue s1) \<longleftrightarrow> q \<in> set (t_queue s)" if "q_email_id q = i" for q
      using that \<open>i \<noteq> eid\<close> by (auto simp: s1 added_def new_queue_row_def)
    have "qstat s1 (q_delivery_id q) = qstat s (q_delivery_id q)" if "q \<in> set (t_queue s)" for q
      using that fresh by (auto simp: q1)
    with qs show ?thesis unfolding has_unfinished_qstat [OF inv1] has_unfinished_qstat [OF inv] by metis
  qed
  have "email_inv s2"
    using assms(1) here other \<open>t_emails s1 = t_emails s\<close>
    by (auto simp: email_inv_def s2_def map_where_def queue_inv_def split: if_splits)
  with snap show ?thesis
    using inv1 by (simp add: s' queue_inv_def) (simp add: s2_def store_inv_map_emails)
qed

lemma EnqueueDeliveries_view:
  assumes inv: "store_inv s" and e: "EnqueueDeliveries uuid eid jobs now s = (r, s')"
  shows "(qstat s' i = qstat s i \<or>
      i \<in> set (job_ids uuid 1 jobs) \<and> qstat s i = None \<and> qstat s' i = Some DPending)
    \<and> (\<forall>q\<in>set (t_queue s'). q \<in> set (t_queue s) \<or> q_delivery_id q \<in> set (job_ids uuid 1 jobs))"
proof (cases "enqueue_jobs uuid 1 (uuid 0) eid now jobs s")
  case (Inl err)
  with e show ?thesis by (simp add: EnqueueDeliveries_def)
next
  case (Inr s1)
  define ijs where "ijs = zip (job_ids uuid 1 jobs) jobs"
  have s1: "s1 = added (uuid 0) eid now ijs s" using enqueue_jobs_result [OF inv Inr] by (simp add: ijs_def)
  have inv1: "store_inv s1" using store_inv_enqueue_jobs [OF inv Inr] .
  have ids: "fst ` set ijs = set (job_ids uuid 1 jobs)"
  proof -
    have "map fst ijs = job_ids uuid 1 jobs" by (simp add: ijs_def job_ids_def del: upt_Suc)
    then show ?thesis by (metis list.set_map)
  qed
  have fresh: "qstat s i = None" if "i \<in> fst ` set ijs"
    using that inv1 by (auto simp: qstat_dom [OF inv] s1 added_def store_inv_def key_distinct_def
        new_queue_row_def image_iff)
  have v: "qstat s' = qstat s1" and q: "t_queue s' = t_queue s1"
    using e Inr by (auto simp: EnqueueDeliveries_def Let_def)
  have "q \<in> set (t_queue s) \<or> q_delivery_id q \<in> fst ` set ijs" if "q \<in> set (t_queue s1)" for q
    using that by (force simp: s1 added_def new_queue_row_def)
  moreover have "qstat s1 i = (if i \<in> fst ` set ijs then Some DPending else qstat s i)"
    using qstat_added [OF inv inv1 [unfolded s1]] by (simp add: s1)
  ultimately show ?thesis using fresh by (auto simp: v q ids)
qed

subsection \<open>Finishing\<close>

definition finished_db :: "'s QueuedDelivery \<Rightarrow> DeliveryResult \<Rightarrow> int option \<Rightarrow> int \<Rightarrow> 's db \<Rightarrow> 's db" where
  "finished_db job r next now s = reschedule (qd_ID job) next (save_result (qd_ID job) r now s)"

lemma FinishDelivery_settle:
  "FinishDelivery job r next now s = settle_email (qd_EmailID job) (finished_db job r next now s)"
  by (simp add: FinishDelivery_def finished_db_def)

lemma finished_db_facts:
  "t_emails (finished_db job r next now s) = t_emails s"
  "store_inv (finished_db job r next now s) = store_inv s"
  "qstat (finished_db job r next now s) =
     (qstat s)(qd_ID job := map_option (\<lambda>_. dr_Status r) (qstat s (qd_ID job)))"
  "t_queue (finished_db job r next now s) = map_where (\<lambda>q. q_delivery_id q = qd_ID job)
     (case next of
        Some t \<Rightarrow> (\<lambda>q. q\<lparr>q_next_attempt_at := UnixNano t\<rparr>)
      | None \<Rightarrow> (\<lambda>q. q\<lparr>q_snapshot := None, q_next_attempt_at := max_int64\<rparr>)) (t_queue s)"
  using qstat_FinishDelivery [of job r "next" now s]
  by (simp_all add: FinishDelivery_settle settle_email_def finished_db_def store_inv_save_result
      store_inv_reschedule)
    (simp_all add: reschedule_def save_result_def)

lemma has_unfinished_finished_db:
  assumes "store_inv s"
  shows "has_unfinished (finished_db job r next now s) eid \<longleftrightarrow>
    (\<exists>q\<in>set (t_queue s). q_email_id q = eid \<and>
      (\<exists>st. qstat (finished_db job r next now s) (q_delivery_id q) = Some st \<and> unfinished_status st))"
  unfolding has_unfinished_qstat [OF assms [folded finished_db_facts(2) [of job r "next" now s]]]
    finished_db_facts(4)
  by (rule bex_map_where) (simp split: option.split)

lemma aggregate_status_settled: "aggregate_status sts \<noteq> EmailStatusReceived"
  by (simp add: aggregate_status_def Let_def)

lemma queue_inv_FinishDelivery [inv_intros]:
  assumes inv: "queue_inv s"
    and job: "\<And>q. q \<in> set (t_queue s) \<Longrightarrow> q_delivery_id q = qd_ID job \<Longrightarrow> q_email_id q = qd_EmailID job"
    and run: "qstat s (qd_ID job) \<in> {None, Some DInProgress}"
    and nx: "unfinished_status (dr_Status r) \<longleftrightarrow> next \<noteq> None"
  shows "queue_inv (FinishDelivery job r next now s)"
proof -
  define s2 where "s2 = finished_db job r next now s"
  note s2 = finished_db_facts [of job r "next" now s, folded s2_def]
  have si: "store_inv s" using inv by (simp add: queue_inv_def)
  have snap: "snapshot_inv s2"
    using inv nx run unfolding snapshot_inv_def queue_inv_def s2(4)
    by (auto simp: s2(3) map_where_def unfinished_status_def split: option.splits)
  have hu: "has_unfinished s2 i \<longleftrightarrow> (\<exists>q\<in>set (t_queue s). q_email_id q = i \<and>
      (\<exists>st. qstat s2 (q_delivery_id q) = Some st \<and> unfinished_status st))" for i
    unfolding s2_def using has_unfinished_finished_db [OF si] .
  have other: "has_unfinished s2 i = has_unfinished s i" if "i \<noteq> qd_EmailID job" for i
    unfolding hu has_unfinished_qstat [OF si] using that job
    by (metis s2(3) fun_upd_other)
  have same: "has_unfinished s2 i \<Longrightarrow> has_unfinished s i" for i
    unfolding hu has_unfinished_qstat [OF si] using run
    by (auto simp: s2(3) unfinished_status_def split: if_splits)
  have "email_inv (settle_email (qd_EmailID job) s2)"
    unfolding email_inv_def
  proof
    fix e' assume "e' \<in> set (t_emails (settle_email (qd_EmailID job) s2))"
    then have "e' \<in> set (map_where (\<lambda>e. em_id e = qd_EmailID job \<and> \<not> has_unfinished s2 (em_id e))
        (\<lambda>e. e\<lparr>em_status := aggregate_status (batch_statuses s2 e)\<rparr>) (t_emails s))"
      by (simp add: settle_email_def s2(1))
    then obtain e where e: "e \<in> set (t_emails s)" and e': "e' =
        (if em_id e = qd_EmailID job \<and> \<not> has_unfinished s2 (em_id e)
         then e\<lparr>em_status := aggregate_status (batch_statuses s2 e)\<rparr> else e)"
      unfolding in_map_where_iff by blast
    have "(has_unfinished s (em_id e) \<longrightarrow> em_status e = EmailStatusReceived)
        \<and> (em_status e = EmailStatusReceived \<and> em_delivery_batch e \<noteq> [] \<longrightarrow> has_unfinished s (em_id e))"
      using inv e by (simp add: email_inv_def queue_inv_def)
    then show "(has_unfinished (settle_email (qd_EmailID job) s2) (em_id e') \<longrightarrow> em_status e' = EmailStatusReceived)
        \<and> (em_status e' = EmailStatusReceived \<and> em_delivery_batch e' \<noteq> [] \<longrightarrow>
          has_unfinished (settle_email (qd_EmailID job) s2) (em_id e'))"
      using other [of "em_id e"] same [of "em_id e"]
      by (cases "em_id e = qd_EmailID job") (auto simp: e' settle_email_def aggregate_status_settled)
  qed
  moreover have "snapshot_inv (settle_email (qd_EmailID job) s2)" using snap by (simp add: settle_email_def)
  ultimately show ?thesis
    using si by (simp add: queue_inv_def FinishDelivery_settle s2_def store_inv_settle_email finished_db_facts)
qed

end
