(* ===== verification/StoreProps.thy ===== *)
theory StoreProps
  imports StoreInv
begin

section \<open>The store: what its transactions guarantee\<close>

text \<open>
  Contracts of the transactions of \<open>Store\<close>, over the abstract view \<open>qstat\<close>: which delivery a claim
  returns, that enqueueing is all or nothing, how a finished delivery settles its email, and what
  a retention sweep deletes. The witnesses run on the small database \<open>demo_db\<close>.
\<close>

subsection \<open>A database to run on\<close>

definition demo_email :: "string \<Rightarrow> int \<Rightarrow> email_row" where
  "demo_email i t =
     \<lparr>em_id = i, em_received_at = t, em_envelope_from = ''a@x.test'', em_envelope_to = [''b@y.test''],
      em_header_from = [], em_header_to = [], em_subject = [], em_status = EmailStatusReceived,
      em_rejection_reason = [], em_parsed_email = None, em_auth_result = None, em_delivery_batch = []\<rparr>"

definition demo_uuid :: "nat \<Rightarrow> string" where
  "demo_uuid k = replicate (Suc k) CHR ''u''"

text \<open>One email with two queued deliveries, and one without.\<close>

definition demo_db :: "nat db" where
  "demo_db = snd (EnqueueDeliveries demo_uuid ''m1'' [(''r1'', 1), (''r2'', 2)] 50
     (empty_db\<lparr>t_emails := [demo_email ''m1'' 10, demo_email ''m2'' 20]\<rparr>))"

lemma demo_db_eq:
  "t_queue demo_db =
     [new_queue_row ''u'' ''m1'' 50 ''uu'' 1, new_queue_row ''u'' ''m1'' 50 ''uuu'' 2]"
  "t_deliveries demo_db = [new_delivery ''m1'' 50 ''uu'' ''r1'', new_delivery ''m1'' 50 ''uuu'' ''r2'']"
  "t_emails demo_db = [(demo_email ''m1'' 10)\<lparr>em_delivery_batch := ''u''\<rparr>, demo_email ''m2'' 20]"
  by code_simp+

lemma store_inv_demo_db: "store_inv demo_db"
  unfolding demo_db_def
  by (rule store_inv_EnqueueDeliveries) (simp add: store_inv_def empty_db_def demo_email_def)

lemma queue_inv_demo_db: "queue_inv demo_db"
proof -
  let ?s = "empty_db\<lparr>t_emails := [demo_email ''m1'' 10, demo_email ''m2'' 20]\<rparr> :: nat db"
  have "queue_inv ?s"
    by (simp add: queue_inv_def store_inv_def snapshot_inv_def email_inv_def empty_db_def demo_email_def
        has_unfinished_def queued_rows_def)
  then show ?thesis
    unfolding demo_db_def
    by (rule queue_inv_EnqueueDeliveries [where jobs = "[(''r1'', 1), (''r2'', 2)]"])
      (simp_all add: prod_eq_iff)
qed

subsection \<open>Claiming\<close>

text \<open>
  C14: \<open>ClaimDelivery\<close> hands out a queued delivery that is pending and due, and among the due ones
  one whose next attempt is earliest; it marks exactly that one in progress and touches nothing
  else of the queue. It returns nothing, and changes nothing, exactly when no pending delivery is due.
\<close>

theorem ClaimDelivery_earliest:
  assumes "store_inv s"
  shows "case ClaimDelivery tie now s of
      (None, s') \<Rightarrow> s' = s \<and>
        \<not> (\<exists>q. q \<in> set (t_queue s) \<and> qstat s (q_delivery_id q) = Some DPending
             \<and> q_next_attempt_at q \<le> UnixNano now)
    | (Some job, s') \<Rightarrow> t_queue s' = t_queue s \<and> t_emails s' = t_emails s
        \<and> qstat s' = (qstat s)(qd_ID job \<mapsto> DInProgress)
        \<and> (\<exists>q. q \<in> set (t_queue s) \<and> qd_ID job = q_delivery_id q \<and> qd_EmailID job = q_email_id q
             \<and> qd_Snapshot job = q_snapshot q \<and> qstat s (q_delivery_id q) = Some DPending
             \<and> q_next_attempt_at q = Min {q_next_attempt_at q' | q'.
                 q' \<in> set (t_queue s) \<and> qstat s (q_delivery_id q') = Some DPending}
             \<and> q_next_attempt_at q \<le> UnixNano now)"
proof -
  have due: "(\<exists>d. (d, q) \<in> set (due_rows s t)) \<longleftrightarrow> q \<in> set (t_queue s)
      \<and> qstat s (q_delivery_id q) = Some DPending \<and> q_next_attempt_at q \<le> t" for q t
    using key_distinct_inj [of q_delivery_id "t_queue s"] assms store_inv_queue_email [OF assms]
    by (fastforce simp: due_rows_iff qstat_Some_iff [OF assms] store_inv_def)
  show ?thesis
  proof (cases "ClaimDelivery tie now s")
    case (Pair j s')
    define rows where "rows = first_due (due_rows s (UnixNano now))"
    show ?thesis
    proof (cases j)
      case None
      with Pair have e: "rows = []" and s': "s' = s"
        by (auto simp: ClaimDelivery_def Let_def rows_def [symmetric] split: if_splits prod.splits)
      have "due_rows s (UnixNano now) = []" using e by (simp add: rows_def first_due_Nil_iff)
      then show ?thesis using due [of _ "UnixNano now"] Pair None s' by auto
    next
      case (Some job)
      obtain d q where dq: "rows ! (tie mod length rows) = (d, q)" by force
      have ne: "rows \<noteq> []" and job: "qd_ID job = dl_id d" "qd_EmailID job = q_email_id q"
        "qd_Snapshot job = q_snapshot q" and s': "s' = set_in_progress (dl_id d) now s"
        using Pair Some dq by (auto simp: ClaimDelivery_def Let_def rows_def [symmetric] split: if_splits)
      have mem: "(d, q) \<in> set rows" using ne dq nth_mem [of "tie mod length rows" rows] by simp
      then have min: "\<And>d' q'. (d', q') \<in> set (due_rows s (UnixNano now)) \<Longrightarrow>
          q_next_attempt_at q \<le> q_next_attempt_at q'" and "(d, q) \<in> set (due_rows s (UnixNano now))"
        by (auto simp: rows_def first_due_iff)
      then have q: "q \<in> set (t_queue s)" "qstat s (q_delivery_id q) = Some DPending"
        "q_next_attempt_at q \<le> UnixNano now"
        using due [of q "UnixNano now"] by blast+
      have dl: "dl_id d = q_delivery_id q" using mem by (simp add: rows_def first_due_iff due_rows_iff)
      have "q_next_attempt_at q \<le> q_next_attempt_at q'"
        if "q' \<in> set (t_queue s)" "qstat s (q_delivery_id q') = Some DPending" for q'
      proof (cases "q_next_attempt_at q' \<le> UnixNano now")
        case True
        with that due [of q' "UnixNano now"] min show ?thesis by blast
      qed (use q in simp)
      then have "q_next_attempt_at q = Min {q_next_attempt_at q' | q'.
          q' \<in> set (t_queue s) \<and> qstat s (q_delivery_id q') = Some DPending}"
        using q by (intro Min_eqI [symmetric]) auto
      moreover have "qstat s' = (qstat s)(qd_ID job \<mapsto> DInProgress)"
        using qstat_ClaimDelivery [OF assms] Pair Some by blast
      ultimately show ?thesis
        using Pair Some q job dl by (auto simp: s' set_in_progress_def)
    qed
  qed
qed

theorem ClaimDelivery_earliest_witness:
  "fst (ClaimDelivery 0 60 demo_db) \<noteq> None \<and>
   qstat (snd (ClaimDelivery 0 60 demo_db)) ''uu'' = Some DInProgress \<and>
   qstat (snd (ClaimDelivery 0 60 demo_db)) ''uuu'' = Some DPending"
proof -
  have c: "fst (ClaimDelivery 0 60 demo_db) \<noteq> None"
    "map_option qd_ID (fst (ClaimDelivery 0 60 demo_db)) = Some ''uu''"
    "qstat demo_db ''uuu'' = Some DPending"
    by code_simp+
  then show ?thesis
    using ClaimDelivery_earliest [OF store_inv_demo_db, where tie = 0 and now = 60]
    by (cases "ClaimDelivery 0 60 demo_db") (auto split: option.splits)
qed

subsection \<open>Enqueueing\<close>

lemma map_zip_job_ids:
  "map f (zip (job_ids uuid (Suc 0) jobs) jobs) = map (\<lambda>k. f (uuid (Suc k), jobs ! k)) [0..<length jobs]"
  by (rule nth_equalityI) (simp_all add: job_ids_def del: upt_Suc)

text \<open>
  C19: \<open>EnqueueDeliveries\<close> is all or nothing. It succeeds exactly when there is no job or the email
  exists and the generated identifiers are new and distinct; then every job has its pending
  delivery, its snapshot is queued due now under the batch, and the email is back in \<open>received\<close>
  under that batch. Otherwise it reports an error and the tables are as they were.
\<close>

theorem EnqueueDeliveries_atomic:
  assumes "store_inv s"
  shows "case EnqueueDeliveries uuid eid jobs now s of (err, s') \<Rightarrow>
    (if jobs = [] \<or> email_exists s eid \<and> distinct (job_ids uuid 1 jobs)
          \<and> set (job_ids uuid 1 jobs) \<inter> dl_id ` set (t_deliveries s) = {}
     then err = None
       \<and> t_deliveries s' = t_deliveries s @
           map (\<lambda>k. new_delivery eid now (uuid (Suc k)) (fst (jobs ! k))) [0..<length jobs]
       \<and> t_queue s' = t_queue s @
           map (\<lambda>k. new_queue_row (uuid 0) eid now (uuid (Suc k)) (snd (jobs ! k))) [0..<length jobs]
       \<and> t_emails s' = map (\<lambda>e. if em_id e = eid then e\<lparr>em_status := EmailStatusReceived,
             em_delivery_batch := uuid 0\<rparr> else e) (t_emails s)
     else err \<noteq> None \<and> s' = s)"
proof -
  show ?thesis
  proof (cases "enqueue_jobs uuid 1 (uuid 0) eid now jobs s")
    case (Inl e)
    then have "\<not> (\<exists>s'. enqueue_jobs uuid 1 (uuid 0) eid now jobs s = Inr s')" by simp
    then have "\<not> (jobs = [] \<or> email_exists s eid \<and> distinct (job_ids uuid 1 jobs)
        \<and> list_all (\<lambda>i. \<not> delivery_exists s i) (job_ids uuid 1 jobs))"
      using enqueue_jobs_iff [OF assms] by metis
    with Inl show ?thesis
      by (auto simp: EnqueueDeliveries_def Let_def list_all_iff delivery_exists_def)
  next
    case (Inr s1)
    then have ok: "jobs = [] \<or> email_exists s eid \<and> distinct (job_ids uuid 1 jobs)
        \<and> list_all (\<lambda>i. \<not> delivery_exists s i) (job_ids uuid 1 jobs)"
      using enqueue_jobs_iff [OF assms] by metis
    have "s1 = added (uuid 0) eid now (zip (job_ids uuid 1 jobs) jobs) s"
      using enqueue_jobs_result [OF assms Inr] .
    with Inr ok show ?thesis
      by (auto simp: EnqueueDeliveries_def Let_def list_all_iff delivery_exists_def added_def map_zip_job_ids
          map_where_def)
  qed
qed

theorem EnqueueDeliveries_atomic_witness:
  "fst (EnqueueDeliveries (\<lambda>k. CHR ''v'' # demo_uuid k) ''m2'' [(''r1'', 7)] 60 demo_db) = None \<and>
   length (t_queue (snd (EnqueueDeliveries (\<lambda>k. CHR ''v'' # demo_uuid k) ''m2'' [(''r1'', 7)] 60 demo_db))) = 3"
proof -
  have "email_exists demo_db ''m2''" "distinct (job_ids (\<lambda>k. CHR ''v'' # demo_uuid k) 1 [(''r1'', 7 :: nat)])"
    "set (job_ids (\<lambda>k. CHR ''v'' # demo_uuid k) 1 [(''r1'', 7 :: nat)]) \<inter> dl_id ` set (t_deliveries demo_db) = {}"
    "length (t_queue demo_db) = 2"
    by code_simp+
  then show ?thesis
    using EnqueueDeliveries_atomic [OF store_inv_demo_db, where uuid = "\<lambda>k. CHR ''v'' # demo_uuid k"
        and eid = "''m2''" and jobs = "[(''r1'', 7)]" and now = 60]
    by (cases "EnqueueDeliveries (\<lambda>k. CHR ''v'' # demo_uuid k) ''m2'' [(''r1'', 7)] 60 demo_db") simp
qed

subsection \<open>Finishing\<close>

text \<open>The deliveries of an email's latest batch.\<close>

definition batch_deliveries :: "'s db \<Rightarrow> email_row \<Rightarrow> delivery_row set" where
  "batch_deliveries s e = {d \<in> set (t_deliveries s). \<exists>q\<in>set (t_queue s).
     q_delivery_id q = dl_id d \<and> q_email_id q = em_id e \<and> q_batch_id q = em_delivery_batch e}"

lemma batch_statuses_set: "set (batch_statuses s e) = dl_status ` batch_deliveries s e"
  by (force simp: batch_statuses_def batch_deliveries_def queued_rows_iff)

lemma length_filter_all: "length (filter P xs) = length xs \<longleftrightarrow> (\<forall>x\<in>set xs. P x)"
proof (induction xs)
  case (Cons x xs)
  then show ?case using length_filter_le [of P xs] by (auto simp: less_Suc_eq_le [symmetric])
qed simp

lemma aggregate_status_set:
  "aggregate_status sts =
    (if set sts = {DSuccess} then EmailStatusDelivered
     else if DSuccess \<in> set sts then EmailStatusPartialFailure else EmailStatusFailed)"
proof -
  have "sts \<noteq> [] \<and> length (filter (\<lambda>st. st = DSuccess) sts) = length sts \<longleftrightarrow> set sts = {DSuccess}"
    unfolding length_filter_all by (cases sts) auto
  moreover have "sts \<noteq> [] \<and> 0 < length (filter (\<lambda>st. st = DSuccess) sts) \<longleftrightarrow> DSuccess \<in> set sts"
    by (auto simp: filter_empty_conv)
  ultimately show ?thesis by (simp add: aggregate_status_def Let_def)
qed

text \<open>
  When a delivery finishes, its email keeps its status while other work for it is left, and
  otherwise gets the status of its latest batch: delivered when every delivery of the batch
  succeeded, partial failure when some did, failed when none did. Every other email is untouched.
\<close>

theorem FinishDelivery_settles_email:
  "t_emails (FinishDelivery job r next now s) =
     map (\<lambda>e.
       let s' = FinishDelivery job r next now s; sts = dl_status ` batch_deliveries s' e in
       if em_id e = qd_EmailID job \<and> \<not> has_unfinished s' (em_id e) then
         e\<lparr>em_status := (if sts = {DSuccess} then EmailStatusDelivered
              else if DSuccess \<in> sts then EmailStatusPartialFailure else EmailStatusFailed)\<rparr>
       else e) (t_emails s)"
proof -
  define s1 where "s1 = finished_db job r next now s"
  define s' where "s' = FinishDelivery job r next now s"
  have s': "s' = settle_email (qd_EmailID job) s1" by (simp add: s'_def s1_def FinishDelivery_settle)
  have "has_unfinished s' = has_unfinished s1" "batch_deliveries s' = batch_deliveries s1"
    by (simp_all add: s' settle_email_def batch_deliveries_def fun_eq_iff)
  moreover have "t_emails s' = map (\<lambda>e. if em_id e = qd_EmailID job \<and> \<not> has_unfinished s1 (em_id e)
      then e\<lparr>em_status := aggregate_status (batch_statuses s1 e)\<rparr> else e) (t_emails s)"
    by (simp add: s' settle_email_def map_where_def) (simp add: s1_def finished_db_facts(1))
  ultimately show ?thesis
    unfolding s'_def [symmetric] aggregate_status_set batch_statuses_set Let_def by (simp only:)
qed

subsection \<open>Retention\<close>

text \<open>
  C15: A retention sweep never loses work: it deletes exactly the emails received before the cutoff
  that have no unfinished delivery, with their deliveries, and returns their identifiers; every
  delivery still pending or in progress stays queued with its status.
\<close>

theorem CleanupExpired_exact:
  assumes "queue_inv s" "0 < days"
  shows "case CleanupExpired now days s of (ids, s') \<Rightarrow>
    t_emails s' = filter (\<lambda>e. em_id e \<notin> set ids) (t_emails s)
    \<and> set ids = {em_id e | e. e \<in> set (t_emails s) \<and> em_received_at e < cutoff now days
         \<and> \<not> has_unfinished s (em_id e)}
    \<and> t_deliveries s' = filter (\<lambda>d. dl_email_id d \<notin> set ids) (t_deliveries s)
    \<and> (\<forall>i st. qstat s i = Some st \<and> unfinished_status st \<longrightarrow> qstat s' i = Some st)"
proof -
  define p where "p = expired (cutoff now days) s"
  define gone where "gone = em_id ` {e \<in> set (t_emails s). p e}"
  have inv: "store_inv s" using assms by (simp add: queue_inv_def)
  have uniq: "em_id e \<in> gone \<longleftrightarrow> p e" if "e \<in> set (t_emails s)" for e
    using inv that key_distinct_inj [of em_id "t_emails s"] by (auto simp: gone_def store_inv_def)
  have unf: "qstat (delete_emails p s) i = Some st" if "qstat s i = Some st" "unfinished_status st" for i st
  proof -
    from that(1) obtain q where q: "q \<in> set (t_queue s)" "q_delivery_id q = i"
      using qstat_Some_iff [OF inv] by blast
    with that have "has_unfinished s (q_email_id q)"
      using has_unfinished_qstat [OF inv, of "q_email_id q"] by blast
    then have "q \<in> set (t_queue (delete_emails p s))"
      using q store_inv_queue_email [OF inv q(1)]
      by (auto simp: delete_emails_rows(2) [OF inv] p_def expired_def email_exists_def)
    with q that show ?thesis by (auto simp: qstat_delete_emails [OF inv])
  qed
  have "CleanupExpired now days s = (map em_id (filter p (t_emails s)), delete_emails p s)"
    using assms(2) by (simp add: CleanupExpired_def Let_def p_def)
  moreover have ids: "set (map em_id (filter p (t_emails s))) = gone" by (auto simp: gone_def)
  moreover have "t_emails (delete_emails p s) = filter (\<lambda>e. em_id e \<notin> gone) (t_emails s)"
    using uniq by (auto simp: delete_emails_def Let_def intro: filter_cong)
  moreover have "t_deliveries (delete_emails p s) = filter (\<lambda>d. dl_email_id d \<notin> gone) (t_deliveries s)"
    by (simp add: delete_emails_def Let_def gone_def)
  moreover have "gone = {em_id e | e. e \<in> set (t_emails s) \<and> em_received_at e < cutoff now days
      \<and> \<not> has_unfinished s (em_id e)}"
    by (auto simp: gone_def p_def expired_def)
  ultimately show ?thesis using unf by simp
qed

theorem CleanupExpired_exact_witness:
  "fst (CleanupExpired (Hour * 48) 1 demo_db) = [''m2''] \<and>
   qstat (snd (CleanupExpired (Hour * 48) 1 demo_db)) ''uu'' = Some DPending"
proof -
  have "fst (CleanupExpired (Hour * 48) 1 demo_db) = [''m2'']" "qstat demo_db ''uu'' = Some DPending"
    by code_simp+
  then show ?thesis
    using CleanupExpired_exact [OF queue_inv_demo_db, of 1 "Hour * 48"]
    by (cases "CleanupExpired (Hour * 48) 1 demo_db") (auto simp: unfinished_status_def)
qed

lemma cutoff_exact: "0 \<le> days \<Longrightarrow> days \<le> 106751 \<Longrightarrow> cutoff now days = now - days * (24 * Hour)"
proof -
  assume "0 \<le> days" "days \<le> 106751"
  then show ?thesis by (simp add: cutoff_def Hour_def Second_def int64_id)
qed

lemma cutoff_wrapped:
  assumes "106752 \<le> days" "days \<le> 213503"
  shows "now < cutoff now days"
proof -
  have "int64 (days * 24) = days * 24" using assms by (simp add: int64_id)
  moreover have "int64 (days * 24 * Hour) = days * 24 * Hour - 2 ^ 64"
    using assms by (intro int64_wrap) (simp_all add: Hour_def Second_def)
  moreover have "int64 (- (days * 24 * Hour - 2 ^ 64)) = 2 ^ 64 - days * 24 * Hour"
    using assms by (simp add: int64_id Hour_def Second_def)
  ultimately show ?thesis using assms by (simp add: cutoff_def Hour_def Second_def)
qed

text \<open>
  Up to 106751 retention days the cutoff is that many days back; from 106752 days to 213503
  the 64-bit product has wrapped, the cutoff lies in the future, and a sweep deletes every email
  without unfinished work that was received up to now.
\<close>

theorem CleanupExpired_bounds:
  assumes "0 < days" "days \<le> 213503" "0 \<le> now"
    and "\<And>e. e \<in> set (t_emails s) \<Longrightarrow> em_received_at e \<le> now"
  shows "set (fst (CleanupExpired now days s)) =
    {em_id e | e. e \<in> set (t_emails s) \<and> \<not> has_unfinished s (em_id e)
       \<and> (106752 \<le> days \<or> em_received_at e < now - days * 24 * 3600 * 1000000000)}"
proof (cases "days \<le> 106751")
  case True
  with assms(1) show ?thesis
    by (auto simp: CleanupExpired_def Let_def expired_def cutoff_exact Hour_def Second_def)
next
  case False
  then have "now < cutoff now days" using assms(2) by (intro cutoff_wrapped) auto
  with assms(1,4) False show ?thesis
    by (fastforce simp: CleanupExpired_def Let_def expired_def)
qed

theorem CleanupExpired_bounds_witness:
  "set (fst (CleanupExpired 100 106752 demo_db)) = {''m2''}"
proof -
  have "list_all (\<lambda>e. em_received_at e \<le> 100) (t_emails demo_db)"
    by code_simp
  then have "set (fst (CleanupExpired 100 106752 demo_db)) = {em_id e | e. e \<in> set (t_emails demo_db)
      \<and> \<not> has_unfinished demo_db (em_id e)}"
    using CleanupExpired_bounds [of 106752 100 demo_db] by (simp add: list_all_iff)
  also have "\<dots> = set (filter (\<lambda>i. \<not> has_unfinished demo_db i) (map em_id (t_emails demo_db)))" by auto
  also have "\<dots> = {''m2''}" by code_simp
  finally show ?thesis .
qed

end
