(* ===== verification/Json.thy ===== *)
theory Json
  imports Models "HOL-Library.List_Lexorder" "HOL-Library.Char_ord"
begin

section \<open>JSON values and the codecs of the model's structs\<close>

text \<open>
  The values \<open>encoding/json\<close> reads and writes, and what it does with the structs of
  \<open>internal/models\<close>: \<open>to_json\<close> functions follow the struct tags (\<open>omitempty\<close> drops a zero value),
  and \<open>dec_fields\<close> decodes an object into a struct, entry by entry, matching a key exactly or else
  ignoring case, with null a no-op and a value of the wrong kind an error. The text of a value is
  left to the library; strings are taken to be valid UTF-8. The locale \<open>struct_codec\<close> states what
  the rest of the development needs of a codec: decoding what was encoded gives the value back.
\<close>

datatype json =
  JNull | JBool bool | JNum int | JFrac string | JStr string | JArr "json list"
| JObj "(string \<times> json) list"

subsection \<open>Encoding\<close>

text \<open>An entry of an object, and one with \<open>omitempty\<close>, whose zero values are left out.\<close>

definition entry :: "string \<Rightarrow> json \<Rightarrow> (string \<times> json) list" where
  "entry k j = [(k, j)]"

definition is_zero_json :: "json \<Rightarrow> bool" where
  "is_zero_json j = (case j of JNull \<Rightarrow> True | JStr s \<Rightarrow> s = [] | JArr js \<Rightarrow> js = []
     | JObj kvs \<Rightarrow> kvs = [] | _ \<Rightarrow> False)"

definition omitempty :: "string \<Rightarrow> json \<Rightarrow> (string \<times> json) list" where
  "omitempty k j = (if is_zero_json j then [] else [(k, j)])"

text \<open>A pointer is null or the value it points to; with \<open>omitempty\<close> only nil is left out.\<close>

definition pointer :: "('a \<Rightarrow> json) \<Rightarrow> 'a option \<Rightarrow> json" where
  "pointer f p = (case p of None \<Rightarrow> JNull | Some x \<Rightarrow> f x)"

text \<open>A slice of strings; the empty one is always nil in this program, and nil is written as null.\<close>

definition strings :: "string list \<Rightarrow> json" where
  "strings xs = (if xs = [] then JNull else JArr (map JStr xs))"

definition condition_json :: "MatchCondition \<Rightarrow> json" where
  "condition_json c = JObj (entry ''field'' (JStr (mc_Field c)) @ entry ''pattern'' (JStr (mc_Pattern c))
     @ omitempty ''header'' (JStr (mc_Header c)))"

definition match_json :: "MatcherConfig \<Rightarrow> json" where
  "match_json m = JObj (omitempty ''mode'' (JStr (m_Mode m))
     @ omitempty ''conditions'' (JArr (map condition_json (m_Conditions m))))"

text \<open>A map is a list with distinct keys; it is written with its keys in byte order.\<close>

definition headers_json :: "(string \<times> string) list option \<Rightarrow> json" where
  "headers_json h = (case h of None \<Rightarrow> JNull | Some kvs \<Rightarrow> JObj (map (\<lambda>(k, v). (k, JStr v)) (sort_key fst kvs)))"

definition webhook_json :: "WebhookConfig \<Rightarrow> json" where
  "webhook_json w = JObj (omitempty ''signing_secret'' (JStr (wh_SigningSecret w))
     @ entry ''url'' (JStr (wh_URL w)) @ entry ''method'' (JStr (wh_Method w))
     @ omitempty ''headers'' (headers_json (wh_Headers w))
     @ omitempty ''payload_template'' (JStr (wh_PayloadTemplate w))
     @ omitempty ''timeout'' (pointer JNum (wh_Timeout w))
     @ omitempty ''max_retries'' (pointer JNum (wh_MaxRetries w))
     @ omitempty ''initial_wait'' (pointer JNum (wh_InitialWait w))
     @ omitempty ''max_wait'' (pointer JNum (wh_MaxWait w))
     @ omitempty ''retry_on_timeout'' (pointer JBool (wh_RetryOnTimeout w)))"

definition transfer_json :: "TransferRule \<Rightarrow> json" where
  "transfer_json r = JObj (entry ''name'' (JStr (tr_Name r)) @ entry ''enabled'' (JBool (tr_Enabled r))
     @ entry ''position'' (JNum (tr_Position r)) @ entry ''match'' (match_json (tr_Match r))
     @ entry ''webhook'' (webhook_json (tr_Webhook r)))"

definition attachment_json :: "Attachment \<Rightarrow> json" where
  "attachment_json a = JObj (entry ''filename'' (JStr (at_Filename a))
     @ entry ''content_type'' (JStr (at_ContentType a)) @ entry ''content'' (JStr (at_Content a)))"

definition auth_json :: "AuthResult \<Rightarrow> json" where
  "auth_json a = JObj (entry ''tls'' (JBool (ar_TLS a)) @ entry ''spf'' (JStr (ar_SPF a))
     @ entry ''dkim'' (JStr (ar_DKIM a)) @ entry ''dmarc'' (JStr (ar_DMARC a)) @ entry ''arc'' (JStr (ar_ARC a)))"

definition email_json :: "ParsedEmail \<Rightarrow> json" where
  "email_json e = JObj (entry ''from'' (JStr (pe_From e)) @ entry ''to'' (strings (pe_To e))
     @ omitempty ''cc'' (strings (pe_CC e)) @ entry ''subject'' (JStr (pe_Subject e))
     @ omitempty ''text_body'' (JStr (pe_TextBody e)) @ omitempty ''html_body'' (JStr (pe_HTMLBody e))
     @ omitempty ''headers'' (JObj (map (\<lambda>(k, vs). (k, strings vs)) (pe_Headers e)))
     @ omitempty ''attachments'' (JArr (map attachment_json (pe_Attachments e)))
     @ omitempty ''auth_result'' (pointer auth_json (pe_AuthResult e))
     @ entry ''envelope_from'' (JStr (pe_EnvelopeFrom e)) @ entry ''envelope_to'' (strings (pe_EnvelopeTo e)))"

subsection \<open>Decoding\<close>

type_synonym 'a field = "string \<times> (json \<Rightarrow> 'a \<Rightarrow> 'a option)"

text \<open>The struct field a key names: the one with that very name, else one equal to it but for case.\<close>

definition find_field :: "'z golib_scheme \<Rightarrow> 'a field list \<Rightarrow> string \<Rightarrow> 'a field option" where
  "find_field G fs k =
     (case find (\<lambda>f. fst f = k) fs of Some f \<Rightarrow> Some f | None \<Rightarrow> find (\<lambda>f. EqualFold G (fst f) k) fs)"

fun dec_fields :: "'z golib_scheme \<Rightarrow> bool \<Rightarrow> 'a field list \<Rightarrow> (string \<times> json) list \<Rightarrow> 'a \<Rightarrow> 'a option" where
  "dec_fields G strict fs [] x = Some x"
| "dec_fields G strict fs ((k, j) # kvs) x =
     (case find_field G fs k of
        None \<Rightarrow> if strict then None else dec_fields G strict fs kvs x
      | Some (_, d) \<Rightarrow> (case d j x of None \<Rightarrow> None | Some y \<Rightarrow> dec_fields G strict fs kvs y))"

definition dec_struct :: "'z golib_scheme \<Rightarrow> bool \<Rightarrow> 'a field list \<Rightarrow> json \<Rightarrow> 'a \<Rightarrow> 'a option" where
  "dec_struct G strict fs j x =
     (case j of JNull \<Rightarrow> Some x | JObj kvs \<Rightarrow> dec_fields G strict fs kvs x | _ \<Rightarrow> None)"

definition dec_string :: "(string \<Rightarrow> 'a \<Rightarrow> 'a) \<Rightarrow> json \<Rightarrow> 'a \<Rightarrow> 'a option" where
  "dec_string upd j x = (case j of JNull \<Rightarrow> Some x | JStr s \<Rightarrow> Some (upd s x) | _ \<Rightarrow> None)"

definition dec_bool :: "(bool \<Rightarrow> 'a \<Rightarrow> 'a) \<Rightarrow> json \<Rightarrow> 'a \<Rightarrow> 'a option" where
  "dec_bool upd j x = (case j of JNull \<Rightarrow> Some x | JBool b \<Rightarrow> Some (upd b x) | _ \<Rightarrow> None)"

definition fits_int :: "int \<Rightarrow> bool" where
  "fits_int n = (int64 n = n)"

definition dec_int :: "(int \<Rightarrow> 'a \<Rightarrow> 'a) \<Rightarrow> json \<Rightarrow> 'a \<Rightarrow> 'a option" where
  "dec_int upd j x =
     (case j of JNull \<Rightarrow> Some x | JNum n \<Rightarrow> if fits_int n then Some (upd n x) else None | _ \<Rightarrow> None)"

fun dec_all :: "(json \<Rightarrow> 'b option) \<Rightarrow> json list \<Rightarrow> 'b list option" where
  "dec_all d [] = Some []"
| "dec_all d (j # js) =
     (case d j of None \<Rightarrow> None | Some y \<Rightarrow> map_option (Cons y) (dec_all d js))"

definition dec_list :: "(json \<Rightarrow> 'b option) \<Rightarrow> ('b list \<Rightarrow> 'a \<Rightarrow> 'a) \<Rightarrow> json \<Rightarrow> 'a \<Rightarrow> 'a option" where
  "dec_list d upd j x =
     (case j of JNull \<Rightarrow> Some (upd [] x) | JArr js \<Rightarrow> map_option (\<lambda>ys. upd ys x) (dec_all d js) | _ \<Rightarrow> None)"

text \<open>A \<open>map[string]string\<close>: entries are added to the map there is; a null value is the empty string.\<close>

fun dec_entries :: "(string \<times> json) list \<Rightarrow> (string \<times> string) list \<Rightarrow> (string \<times> string) list option" where
  "dec_entries [] m = Some m"
| "dec_entries ((k, j) # kvs) m =
     (case j of
        JStr s \<Rightarrow> dec_entries kvs (filter (\<lambda>e. fst e \<noteq> k) m @ [(k, s)])
      | JNull \<Rightarrow> dec_entries kvs (filter (\<lambda>e. fst e \<noteq> k) m @ [(k, [])])
      | _ \<Rightarrow> None)"

definition zero_condition :: MatchCondition where
  "zero_condition = \<lparr>mc_Field = [], mc_Pattern = [], mc_Header = []\<rparr>"

definition zero_matcher :: MatcherConfig where
  "zero_matcher = \<lparr>m_Mode = [], m_Conditions = []\<rparr>"

definition zero_webhook :: WebhookConfig where
  "zero_webhook = \<lparr>wh_SigningSecret = [], wh_URL = [], wh_Method = [], wh_Headers = None,
     wh_PayloadTemplate = [], wh_Timeout = None, wh_MaxRetries = None, wh_InitialWait = None,
     wh_MaxWait = None, wh_RetryOnTimeout = None\<rparr>"

definition zero_transfer :: TransferRule where
  "zero_transfer = \<lparr>tr_Name = [], tr_Enabled = False, tr_Position = 0, tr_Match = zero_matcher,
     tr_Webhook = zero_webhook\<rparr>"

definition condition_fields :: "MatchCondition field list" where
  "condition_fields =
     [(''field'', dec_string (\<lambda>s c. c\<lparr>mc_Field := s\<rparr>)), (''pattern'', dec_string (\<lambda>s c. c\<lparr>mc_Pattern := s\<rparr>)),
      (''header'', dec_string (\<lambda>s c. c\<lparr>mc_Header := s\<rparr>))]"

definition condition_of_json :: "'z golib_scheme \<Rightarrow> bool \<Rightarrow> json \<Rightarrow> MatchCondition option" where
  "condition_of_json G strict j = dec_struct G strict condition_fields j zero_condition"

definition match_fields :: "'z golib_scheme \<Rightarrow> bool \<Rightarrow> MatcherConfig field list" where
  "match_fields G strict =
     [(''mode'', dec_string (\<lambda>s m. m\<lparr>m_Mode := s\<rparr>)),
      (''conditions'', dec_list (condition_of_json G strict) (\<lambda>cs m. m\<lparr>m_Conditions := cs\<rparr>))]"

definition match_of_json :: "'z golib_scheme \<Rightarrow> bool \<Rightarrow> json \<Rightarrow> MatcherConfig \<Rightarrow> MatcherConfig option" where
  "match_of_json G strict j m = dec_struct G strict (match_fields G strict) j m"

definition dec_headers :: "json \<Rightarrow> WebhookConfig \<Rightarrow> WebhookConfig option" where
  "dec_headers j w =
     (case j of
        JNull \<Rightarrow> Some (w\<lparr>wh_Headers := None\<rparr>)
      | JObj kvs \<Rightarrow> map_option (\<lambda>m. w\<lparr>wh_Headers := Some m\<rparr>)
          (dec_entries kvs (case wh_Headers w of None \<Rightarrow> [] | Some m \<Rightarrow> m))
      | _ \<Rightarrow> None)"

definition dec_int_ptr :: "(int option \<Rightarrow> 'a \<Rightarrow> 'a) \<Rightarrow> json \<Rightarrow> 'a \<Rightarrow> 'a option" where
  "dec_int_ptr upd j x =
     (case j of JNull \<Rightarrow> Some (upd None x) | _ \<Rightarrow> dec_int (\<lambda>n x. upd (Some n) x) j x)"

definition dec_bool_ptr :: "(bool option \<Rightarrow> 'a \<Rightarrow> 'a) \<Rightarrow> json \<Rightarrow> 'a \<Rightarrow> 'a option" where
  "dec_bool_ptr upd j x =
     (case j of JNull \<Rightarrow> Some (upd None x) | _ \<Rightarrow> dec_bool (\<lambda>b x. upd (Some b) x) j x)"

definition webhook_fields :: "WebhookConfig field list" where
  "webhook_fields =
     [(''signing_secret'', dec_string (\<lambda>s w. w\<lparr>wh_SigningSecret := s\<rparr>)),
      (''url'', dec_string (\<lambda>s w. w\<lparr>wh_URL := s\<rparr>)),
      (''method'', dec_string (\<lambda>s w. w\<lparr>wh_Method := s\<rparr>)),
      (''headers'', dec_headers),
      (''payload_template'', dec_string (\<lambda>s w. w\<lparr>wh_PayloadTemplate := s\<rparr>)),
      (''timeout'', dec_int_ptr (\<lambda>p w. w\<lparr>wh_Timeout := p\<rparr>)),
      (''max_retries'', dec_int_ptr (\<lambda>p w. w\<lparr>wh_MaxRetries := p\<rparr>)),
      (''initial_wait'', dec_int_ptr (\<lambda>p w. w\<lparr>wh_InitialWait := p\<rparr>)),
      (''max_wait'', dec_int_ptr (\<lambda>p w. w\<lparr>wh_MaxWait := p\<rparr>)),
      (''retry_on_timeout'', dec_bool_ptr (\<lambda>p w. w\<lparr>wh_RetryOnTimeout := p\<rparr>))]"

definition webhook_of_json :: "'z golib_scheme \<Rightarrow> bool \<Rightarrow> json \<Rightarrow> WebhookConfig \<Rightarrow> WebhookConfig option" where
  "webhook_of_json G strict j w = dec_struct G strict webhook_fields j w"

definition transfer_fields :: "'z golib_scheme \<Rightarrow> bool \<Rightarrow> TransferRule field list" where
  "transfer_fields G strict =
     [(''name'', dec_string (\<lambda>s r. r\<lparr>tr_Name := s\<rparr>)), (''enabled'', dec_bool (\<lambda>b r. r\<lparr>tr_Enabled := b\<rparr>)),
      (''position'', dec_int (\<lambda>n r. r\<lparr>tr_Position := n\<rparr>)),
      (''match'', \<lambda>j r. map_option (\<lambda>m. r\<lparr>tr_Match := m\<rparr>) (match_of_json G strict j (tr_Match r))),
      (''webhook'', \<lambda>j r. map_option (\<lambda>w. r\<lparr>tr_Webhook := w\<rparr>) (webhook_of_json G strict j (tr_Webhook r)))]"

definition transfer_of_json :: "'z golib_scheme \<Rightarrow> bool \<Rightarrow> json \<Rightarrow> TransferRule option" where
  "transfer_of_json G strict j = dec_struct G strict (transfer_fields G strict) j zero_transfer"

subsection \<open>Codecs\<close>

text \<open>
  A codec of a Go struct: a value \<open>zero\<close> to decode into, the values \<open>ok\<close> the code can hold, and what
  of them a file or a column keeps (\<open>norm\<close>: an empty map is read back as nil, another in key order). A list of values, as a
  rules file or a rules column holds it, then survives too.
\<close>

locale struct_codec =
  fixes enc :: "'a \<Rightarrow> json" and dec :: "json \<Rightarrow> 'a option" and ok :: "'a \<Rightarrow> bool" and norm :: "'a \<Rightarrow> 'a"
  assumes dec_enc: "ok x \<Longrightarrow> dec (enc x) = Some (norm x)"
    and norm_enc: "enc (norm x) = enc x"
begin

lemma dec_all_enc: "list_all ok xs \<Longrightarrow> dec_all dec (map enc xs) = Some (map norm xs)"
  by (induction xs) (simp_all add: dec_enc)

lemma enc_inj: "ok x \<Longrightarrow> ok y \<Longrightarrow> enc x = enc y \<longleftrightarrow> norm x = norm y"
  using dec_enc [of x] dec_enc [of y] norm_enc [of x] norm_enc [of y] by auto

lemma dec_enc_norm: "ok x \<Longrightarrow> enc (the (dec (enc x))) = enc x"
  by (simp add: dec_enc norm_enc)

end

lemma dec_fields_append:
  "dec_fields G st fs (xs @ ys) x = Option.bind (dec_fields G st fs xs x) (dec_fields G st fs ys)"
  by (induction xs arbitrary: x) (auto split: option.splits prod.splits)

lemma dec_fields_entry:
  "find_field G fs k = Some (k, d) \<Longrightarrow> dec_fields G st fs (entry k j) x = d j x"
  by (simp add: entry_def split: option.splits)

lemma dec_fields_omitempty:
  "find_field G fs k = Some (k, d) \<Longrightarrow> (is_zero_json j \<Longrightarrow> d j x = Some x) \<Longrightarrow>
   dec_fields G st fs (omitempty k j) x = d j x"
  by (simp add: omitempty_def split: option.splits)

lemma find_field_exact: "find (\<lambda>f. fst f = k) fs = Some f \<Longrightarrow> find_field G fs k = Some f"
  by (simp add: find_field_def)

text \<open>One entry of each kind, decoded into a struct that still has the zero value there.\<close>

lemma dec_omit_string:
  assumes "find (\<lambda>f. fst f = k) fs = Some (k, dec_string u)" "u [] x = x"
  shows "dec_fields G st fs (omitempty k (JStr s)) x = Some (u s x)"
  using assms(2-) by (subst dec_fields_omitempty [OF find_field_exact [OF assms(1)]]) (auto simp: is_zero_json_def dec_string_def)

lemma dec_omit_list:
  assumes "find (\<lambda>f. fst f = k) fs = Some (k, dec_list d u)" "u [] x = x"
    and "dec_all d js = Some ys"
  shows "dec_fields G st fs (omitempty k (JArr js)) x = Some (u ys x)"
  using assms(2-) by (subst dec_fields_omitempty [OF find_field_exact [OF assms(1)]]) (auto simp: is_zero_json_def dec_list_def)

lemma dec_omit_int:
  assumes "find (\<lambda>f. fst f = k) fs = Some (k, dec_int_ptr u)" "u None x = x"
    and "case p of None \<Rightarrow> True | Some n \<Rightarrow> fits_int n"
  shows "dec_fields G st fs (omitempty k (pointer JNum p)) x = Some (u p x)"
  using assms(2-) by (subst dec_fields_omitempty [OF find_field_exact [OF assms(1)]])
    (auto simp: is_zero_json_def pointer_def dec_int_ptr_def dec_int_def split: option.splits)

lemma dec_omit_bool:
  assumes "find (\<lambda>f. fst f = k) fs = Some (k, dec_bool_ptr u)" "u None x = x"
  shows "dec_fields G st fs (omitempty k (pointer JBool p)) x = Some (u p x)"
  using assms(2-) by (subst dec_fields_omitempty [OF find_field_exact [OF assms(1)]])
    (auto simp: is_zero_json_def pointer_def dec_bool_ptr_def dec_bool_def split: option.splits)

lemma dec_entry:
  assumes "find (\<lambda>f. fst f = k) fs = Some (k, d)"
  shows "dec_fields G st fs (entry k j) x = d j x"
  using assms by (intro dec_fields_entry find_field_exact)

lemmas dec_entries = dec_entry dec_omit_string dec_omit_list dec_omit_int dec_omit_bool

interpretation conditions: struct_codec condition_json "condition_of_json G st" "\<lambda>_. True" "\<lambda>c. c"
  for G :: "'z golib_scheme" and st
proof
  fix c :: MatchCondition
  show "condition_of_json G st (condition_json c) = Some c"
    by (simp add: condition_of_json_def condition_json_def dec_struct_def dec_fields_append dec_entries
        condition_fields_def zero_condition_def dec_string_def [of _ "JStr _"])
qed simp

interpretation matchers: struct_codec match_json "\<lambda>j. match_of_json G st j zero_matcher" "\<lambda>_. True" "\<lambda>m. m"
  for G :: "'z golib_scheme" and st
proof
  fix m :: MatcherConfig
  have "dec_all (condition_of_json G st) (map condition_json cs) = Some cs" for cs
    using conditions.dec_all_enc [of cs G st] by (simp add: list_all_iff)
  then show "match_of_json G st (match_json m) zero_matcher = Some m"
    by (simp add: match_of_json_def match_json_def dec_struct_def dec_fields_append dec_entries
        match_fields_def zero_matcher_def)
qed simp

definition norm_headers :: "(string \<times> string) list option \<Rightarrow> (string \<times> string) list option" where
  "norm_headers h = (case h of None \<Rightarrow> None | Some kvs \<Rightarrow> if kvs = [] then None else Some (sort_key fst kvs))"

definition norm_webhook :: "WebhookConfig \<Rightarrow> WebhookConfig" where
  "norm_webhook w = w\<lparr>wh_Headers := norm_headers (wh_Headers w)\<rparr>"

definition webhook_ok :: "WebhookConfig \<Rightarrow> bool" where
  "webhook_ok w =
     ((case wh_Headers w of None \<Rightarrow> True | Some h \<Rightarrow> distinct (map fst h))
      \<and> list_all (\<lambda>p. case p of None \<Rightarrow> True | Some n \<Rightarrow> fits_int n)
          [wh_Timeout w, wh_MaxRetries w, wh_InitialWait w, wh_MaxWait w])"

lemma distinct_map_sort_key: "distinct (map f (sort_key k xs)) = distinct (map f xs)"
  by (simp add: distinct_map)

lemma sort_key_sort_key [simp]: "sort_key k (sort_key k xs) = sort_key k xs"
  by (simp add: sort_key_id_if_sorted)

lemma dec_entries_strings:
  "distinct (map fst (m @ h)) \<Longrightarrow> dec_entries (map (\<lambda>(k, v). (k, JStr v)) h) m = Some (m @ h)"
proof (induction h arbitrary: m)
  case (Cons kv h)
  obtain k v where kv: "kv = (k, v)" by force
  have "filter (\<lambda>e. fst e \<noteq> k) m = m"
    using Cons.prems by (auto simp: kv filter_id_conv image_iff)
  with Cons.IH [of "m @ [(k, v)]"] Cons.prems show ?case by (simp add: kv)
qed simp

interpretation webhooks: struct_codec webhook_json "\<lambda>j. webhook_of_json G st j zero_webhook" webhook_ok norm_webhook
  for G :: "'z golib_scheme" and st
proof
  fix w :: WebhookConfig
  assume ok: "webhook_ok w"
  then have ints: "\<And>n. wh_Timeout w = Some n \<Longrightarrow> fits_int n" "\<And>n. wh_MaxRetries w = Some n \<Longrightarrow> fits_int n"
    "\<And>n. wh_InitialWait w = Some n \<Longrightarrow> fits_int n" "\<And>n. wh_MaxWait w = Some n \<Longrightarrow> fits_int n"
    by (auto simp: webhook_ok_def)
  have hd: "dec_fields G st webhook_fields (omitempty ''headers'' (headers_json (wh_Headers w))) x =
      Some (x\<lparr>wh_Headers := wh_Headers (norm_webhook w)\<rparr>)" if "wh_Headers x = None" for x
  proof -
    have f: "find (\<lambda>f. fst f = ''headers'') webhook_fields = Some (''headers'', dec_headers)"
      by (simp add: webhook_fields_def)
    have x: "x\<lparr>wh_Headers := None\<rparr> = x" using that by (cases x) simp
    show ?thesis
    proof (cases "wh_Headers w")
      case None
      then show ?thesis by (simp add: headers_json_def omitempty_def is_zero_json_def norm_webhook_def norm_headers_def x)
    next
      case (Some h)
      have "dec_entries (map (\<lambda>(k, v). (k, JStr v)) (sort_key fst h)) [] = Some (sort_key fst h)"
        using dec_entries_strings [of "[]" "sort_key fst h"] ok Some by (simp add: webhook_ok_def distinct_map_sort_key)
      moreover have "sort_key fst h = [] \<longleftrightarrow> h = []" by (metis length_0_conv length_sort)
      ultimately show ?thesis
        using Some that x dec_fields_entry [OF find_field_exact [OF f], unfolded entry_def, of G st "headers_json (wh_Headers w)" x]
        by (cases "h = []") (auto simp: headers_json_def omitempty_def is_zero_json_def norm_webhook_def norm_headers_def dec_headers_def
            simp del: dec_fields.simps(2) dec_entries.simps(2))
    qed
  qed
  show "webhook_of_json G st (webhook_json w) zero_webhook = Some (norm_webhook w)"
    using ok unfolding webhook_of_json_def webhook_json_def dec_struct_def
    by (simp add: dec_fields_append hd [unfolded webhook_fields_def] dec_entries webhook_fields_def zero_webhook_def webhook_ok_def
        norm_webhook_def dec_string_def [of _ "JStr _"])
next
  fix w
  show "webhook_json (norm_webhook w) = webhook_json w"
    by (simp add: webhook_json_def norm_webhook_def headers_json_def omitempty_def is_zero_json_def
        norm_headers_def split: option.split)
qed

definition norm_transfer :: "TransferRule \<Rightarrow> TransferRule" where
  "norm_transfer r = r\<lparr>tr_Webhook := norm_webhook (tr_Webhook r)\<rparr>"

definition transfer_ok :: "TransferRule \<Rightarrow> bool" where
  "transfer_ok r = (fits_int (tr_Position r) \<and> webhook_ok (tr_Webhook r))"

interpretation transfers: struct_codec transfer_json "transfer_of_json G st" transfer_ok norm_transfer
  for G :: "'z golib_scheme" and st
proof
  fix r :: TransferRule
  assume "transfer_ok r"
  then show "transfer_of_json G st (transfer_json r) = Some (norm_transfer r)"
    by (simp add: transfer_of_json_def transfer_json_def dec_struct_def dec_fields_append dec_entry
        transfer_fields_def zero_transfer_def transfer_ok_def norm_transfer_def dec_string_def dec_bool_def
        dec_int_def matchers.dec_enc webhooks.dec_enc)
next
  fix r
  show "transfer_json (norm_transfer r) = transfer_json r"
    by (simp add: transfer_json_def norm_transfer_def webhooks.norm_enc)
qed

end
