(* ===== verification/Payload.thy ===== *)
theory Payload
  imports Json
begin

section \<open>Webhook payloads (\<open>internal/webhook/dispatcher.go\<close>)\<close>

text \<open>
  What a webhook sends: the email as JSON, or a template over its JSON-encoded fields. The
  \<open>text/template\<close> engine, the JSON writer and the HTTP client's own checks are fields of \<open>weblib\<close>.
  A \<open>rawJSON\<close> value is the JSON value its bytes encode, which the helper functions keep.
\<close>

text \<open>An error value: its text, and what \<open>errors.Is\<close> and \<open>errors.As\<close> find in its chain.\<close>

record go_error =
  ge_text :: string
  ge_private :: bool
  ge_deadline :: bool
  ge_net_timeout :: bool

definition plain_error :: "string \<Rightarrow> go_error" where
  "plain_error s = \<lparr>ge_text = s, ge_private = False, ge_deadline = False, ge_net_timeout = False\<rparr>"

text \<open>\<open>fmt.Errorf(p + ": %w", err)\<close> keeps the chain.\<close>

definition wrap_error :: "string \<Rightarrow> go_error \<Rightarrow> go_error" where
  "wrap_error p e = e\<lparr>ge_text := p @ '': '' @ ge_text e\<rparr>"

type_synonym template_data = "string \<Rightarrow> json"

type_synonym template_fun = "json list \<Rightarrow> (string, json) result"

text \<open>
  \<open>url_parse\<close> is \<open>url.Parse\<close>, giving scheme and \<open>Hostname\<close>; \<open>new_request\<close> is the error of
  \<open>http.NewRequest\<close> for a method and a URL; \<open>tmpl_parse\<close> is parsing and then executing a template
  with the given function map; \<open>json_text\<close> is the text of a JSON value.
\<close>

record weblib = golib +
  url_parse :: "string \<Rightarrow> (string \<times> string) option"
  new_request :: "string \<Rightarrow> string \<Rightarrow> string option"
  tmpl_parse :: "(string \<times> template_fun) list \<Rightarrow> string \<Rightarrow> (string, template_data \<Rightarrow> (string, string) result) result"
  json_text :: "json \<Rightarrow> string"
  hmac_sha256 :: "string \<Rightarrow> string \<Rightarrow> string"

text \<open>A concrete library for examples; its HMAC is the concatenation of key and message.\<close>

definition demo_web :: weblib where
  "demo_web = \<lparr>uni_lower = uni_lower ascii_lib, uni_fold = uni_fold ascii_lib, re_compile = re_compile ascii_lib,
     go_quote = go_quote ascii_lib,
     url_parse = (\<lambda>u. if HasPrefix u ''https://'' then Some (''https'', drop 8 u) else None),
     new_request = (\<lambda>m u. if token_byte (hd (m @ '' '')) then None else Some ''net/http: invalid method''),
     tmpl_parse = (\<lambda>_ t. Inr (\<lambda>_. Inr t)),
     json_text = (\<lambda>j. case j of JStr s \<Rightarrow> CHR 0x22 # s @ [CHR 0x22] | _ \<Rightarrow> ''{}''),
     hmac_sha256 = (\<lambda>k m. k @ m)\<rparr>"

subsection \<open>Template data and functions\<close>

definition template_mapping :: "(string \<times> string) list" where
  "template_mapping =
     [(''From'', ''from''), (''To'', ''to''), (''CC'', ''cc''), (''Subject'', ''subject''),
      (''TextBody'', ''text_body''), (''HTMLBody'', ''html_body''), (''Headers'', ''headers''),
      (''Attachments'', ''attachments''), (''AuthResult'', ''auth_result''),
      (''EnvelopeFrom'', ''envelope_from''), (''EnvelopeTo'', ''envelope_to'')]"

text \<open>
  The map of template variables; a name outside the mapping is missing, which the template renders
  as the nil \<open>rawJSON\<close>, the text null.
\<close>

definition emailTemplateData :: "ParsedEmail \<Rightarrow> template_data" where
  "emailTemplateData email name =
     (case email_json email of
        JObj raw \<Rightarrow> (case map_of template_mapping name of
            None \<Rightarrow> JNull
          | Some key \<Rightarrow> (case map_of raw key of Some v \<Rightarrow> v | None \<Rightarrow> JNull))
      | _ \<Rightarrow> JNull)"

definition jsonArray :: "json \<Rightarrow> json list" where
  "jsonArray v = (case v of JArr arr \<Rightarrow> arr | _ \<Rightarrow> [])"

definition jsonFirst :: "json \<Rightarrow> json" where
  "jsonFirst v = (let arr = jsonArray v in if length arr > 0 then hd arr else JNull)"

definition jsonLast :: "json \<Rightarrow> json" where
  "jsonLast v = (let arr = jsonArray v in if length arr > 0 then arr ! (length arr - 1) else JNull)"

text \<open>Decoding null into a string leaves it empty, without an error.\<close>

definition join_part :: "(json \<Rightarrow> string) \<Rightarrow> json \<Rightarrow> string" where
  "join_part text el = (case el of JStr s \<Rightarrow> s | JNull \<Rightarrow> [] | _ \<Rightarrow> text el)"

definition jsonJoin :: "(json \<Rightarrow> string) \<Rightarrow> string \<Rightarrow> json \<Rightarrow> json" where
  "jsonJoin text sep v = JStr (Join (map (join_part text) (jsonArray v)) sep)"

definition jsonDefault :: "json \<Rightarrow> json \<Rightarrow> json" where
  "jsonDefault def v = (if v \<in> {JNull, JStr [], JArr [], JObj []} then def else v)"

definition TemplateFuncs :: "(json \<Rightarrow> string) \<Rightarrow> (string \<times> template_fun) list" where
  "TemplateFuncs text =
     [(''first'', \<lambda>args. case args of [v] \<Rightarrow> Inr (jsonFirst v) | _ \<Rightarrow> Inl ''wrong number of args''),
      (''last'', \<lambda>args. case args of [v] \<Rightarrow> Inr (jsonLast v) | _ \<Rightarrow> Inl ''wrong number of args''),
      (''join'', \<lambda>args. case args of
         [JStr sep, v] \<Rightarrow> Inr (jsonJoin text sep v) | _ \<Rightarrow> Inl ''wrong type or number of args''),
      (''default'', \<lambda>args. case args of
         [def, v] \<Rightarrow> Inr (jsonDefault def v) | _ \<Rightarrow> Inl ''wrong number of args'')]"

definition ParseTemplate :: "'z weblib_scheme \<Rightarrow> string \<Rightarrow> (string, template_data \<Rightarrow> (string, string) result) result" where
  "ParseTemplate W text = tmpl_parse W (TemplateFuncs (json_text W)) text"

definition buildPayload :: "'z weblib_scheme \<Rightarrow> ParsedEmail \<Rightarrow> WebhookConfig \<Rightarrow> (string, string) result" where
  "buildPayload W email wh =
     (if wh_PayloadTemplate wh \<noteq> [] then
        (case ParseTemplate W (wh_PayloadTemplate wh) of
           Inl err \<Rightarrow> Inl (''parsing template: '' @ err)
         | Inr tmpl \<Rightarrow> (case tmpl (emailTemplateData email) of
             Inl err \<Rightarrow> Inl (''executing template: '' @ err)
           | Inr buf \<Rightarrow> Inr buf))
      else Inr (json_text W (email_json email)))"

subsection \<open>Lemmas\<close>

text \<open>Every field of the email reaches the templates under its Go name, absent ones as null.\<close>

lemma emailTemplateData_fields:
  "emailTemplateData e ''From'' = JStr (pe_From e)"
  "emailTemplateData e ''To'' = strings (pe_To e)"
  "emailTemplateData e ''CC'' = strings (pe_CC e)"
  "emailTemplateData e ''Subject'' = JStr (pe_Subject e)"
  "emailTemplateData e ''TextBody'' = (if pe_TextBody e = [] then JNull else JStr (pe_TextBody e))"
  "emailTemplateData e ''AuthResult'' = (case pe_AuthResult e of None \<Rightarrow> JNull | Some a \<Rightarrow> auth_json a)"
  "emailTemplateData e ''EnvelopeFrom'' = JStr (pe_EnvelopeFrom e)"
  "emailTemplateData e ''EnvelopeTo'' = strings (pe_EnvelopeTo e)"
  by (simp_all add: emailTemplateData_def email_json_def template_mapping_def entry_def omitempty_def
      is_zero_json_def strings_def pointer_def auth_json_def map_add_def split: option.split)

lemma jsonDefault_idem: "jsonDefault d (jsonDefault d v) = jsonDefault d v"
  by (simp add: jsonDefault_def)

end
