(* ===== verification/Dispatch.thy ===== *)
theory Dispatch
  imports Payload Store
begin

section \<open>Sending webhooks (\<open>internal/webhook\<close>)\<close>

text \<open>
  One request (\<open>send\<close>, \<open>setSigningHeaders\<close>), the retry loop without a database (\<open>dispatchOne\<close>), and
  one attempt of a queued delivery (\<open>runQueued\<close>) with the wait before the next one (\<open>backoff\<close>). The
  HTTP client is an argument \<open>rt\<close>, the answer it gives to a request; the request that was put to it
  is part of the result. Metrics and logging are not modelled. A duration that a float64
  conversion cannot represent is \<open>oob\<close>, the value the platform's conversion instruction yields.
\<close>

subsection \<open>Backoff\<close>

text \<open>\<open>float64(n)\<close> of an integer: rounded to 53 significant bits, ties to even.\<close>

fun excess_bits :: "nat \<Rightarrow> nat" where
  "excess_bits n = (if n < 2 ^ 53 then 0 else Suc (excess_bits (n div 2)))"

declare excess_bits.simps [simp del]

definition round_even :: "nat \<Rightarrow> nat \<Rightarrow> nat" where
  "round_even n e =
     (let q = n div 2 ^ e; r = n mod 2 ^ e in
      if 2 ^ e < 2 * r \<or> (2 * r = 2 ^ e \<and> odd q) then Suc q * 2 ^ e else q * 2 ^ e)"

definition float64 :: "int \<Rightarrow> int" where
  "float64 x = sgn x * int (round_even (nat \<bar>x\<bar>) (excess_bits (nat \<bar>x\<bar>)))"

text \<open>
  \<open>time.Duration(float64(InitialWait) * math.Pow(2, float64(attempt-1)))\<close>: a product with a power of
  two is exact, \<open>math.Pow\<close> is infinite from 1024 on, and the conversion of a value outside int64
  (or of a NaN) is left to the platform.
\<close>

definition backoff :: "(int \<Rightarrow> int \<Rightarrow> int) \<Rightarrow> RetryConfig \<Rightarrow> int \<Rightarrow> int" where
  "backoff oob retry attempt =
     (let prod = float64 (rc_InitialWait retry) * 2 ^ nat (attempt - 1);
          wait = (if attempt - 1 \<le> 1023 \<and> - (2 ^ 63) \<le> prod \<and> prod < 2 ^ 63 then prod
                  else oob (rc_InitialWait retry) attempt)
      in min wait (rc_MaxWait retry))"

text \<open>What CVTTSD2SQ yields on amd64: the least int64.\<close>

definition amd64_oob :: "int \<Rightarrow> int \<Rightarrow> int" where
  "amd64_oob w n = - (2 ^ 63)"

subsection \<open>Requests and answers\<close>

type_synonym header = "string \<Rightarrow> string option"

record request =
  hq_method :: string
  hq_url :: string
  hq_header :: header
  hq_body :: string
  hq_timeout :: "int option"
  hq_no_redirect :: bool

text \<open>The body of an answer is what could be read of it before an end or a read error.\<close>

record response =
  hs_status :: int
  hs_content_type :: string
  hs_body :: string
  hs_read_error :: bool

type_synonym transport = "request \<Rightarrow> (go_error, response) result"

datatype send_error = SendFailed go_error | WebhookError int string

definition header_set :: "header \<Rightarrow> string \<Rightarrow> string \<Rightarrow> header" where
  "header_set h k v = h(CanonicalHeaderKey k \<mapsto> v)"

text \<open>Decimal digits of an integer, and hexadecimal of bytes.\<close>

fun nat_digits :: "nat \<Rightarrow> string" where
  "nat_digits n = (if n < 10 then [char_of (48 + n)] else nat_digits (n div 10) @ [char_of (48 + n mod 10)])"

declare nat_digits.simps [simp del]

definition FormatInt :: "int \<Rightarrow> string" where
  "FormatInt n = (if n < 0 then ''-'' @ nat_digits (nat (- n)) else nat_digits (nat n))"

definition hex_digit :: "nat \<Rightarrow> char" where
  "hex_digit n = (if n < 10 then char_of (48 + n) else char_of (87 + n))"

definition hex_encode :: "string \<Rightarrow> string" where
  "hex_encode s = concat (map (\<lambda>c. [hex_digit (byte_of c div 16), hex_digit (byte_of c mod 16)]) s)"

definition setSigningHeaders ::
    "'z weblib_scheme \<Rightarrow> int \<Rightarrow> string \<Rightarrow> string \<Rightarrow> string \<Rightarrow> header \<Rightarrow> header" where
  "setSigningHeaders W unix payload secret deliveryID h =
     (if secret = [] then h
      else
        (let timestamp = FormatInt unix;
             mac = hmac_sha256 W secret ((timestamp @ ''.'') @ payload)
         in header_set (header_set (header_set h
              ''X-Mailrelay-Timestamp'' timestamp)
              ''X-Mailrelay-Signature'' (''sha256='' @ hex_encode mac))
              ''X-Mailrelay-Delivery'' deliveryID))"

text \<open>
  The range over the configured headers, in the order \<open>range\<close> visits them; the flag says that one of
  them is a content type.
\<close>

fun custom_headers :: "(string \<times> string) list \<Rightarrow> header \<Rightarrow> bool \<Rightarrow> header \<times> bool" where
  "custom_headers [] h hasContentType = (h, hasContentType)"
| "custom_headers ((k, v) # kvs) h hasContentType =
     custom_headers kvs (header_set h k v)
       (hasContentType \<or> CanonicalHeaderKey k = ''Content-Type'')"

definition header_entries :: "WebhookConfig \<Rightarrow> (string \<times> string) list" where
  "header_entries w = (case wh_Headers w of None \<Rightarrow> [] | Some kvs \<Rightarrow> kvs)"

record sender =
  sd_userAgent :: string
  sd_range :: "(string \<times> string) list \<Rightarrow> (string \<times> string) list"
  sd_unix :: int

definition request_header ::
    "'z weblib_scheme \<Rightarrow> sender \<Rightarrow> WebhookConfig \<Rightarrow> string \<Rightarrow> string \<Rightarrow> header" where
  "request_header W sd w payload deliveryID =
     (let h = header_set Map.empty ''User-Agent'' (sd_userAgent sd);
          (h, hasContentType) = custom_headers (sd_range sd (header_entries w)) h False;
          h = (if hasContentType then h else header_set h ''Content-Type'' ''application/json'')
      in setSigningHeaders W (sd_unix sd) payload (wh_SigningSecret w) deliveryID h)"

definition build_request ::
    "'z weblib_scheme \<Rightarrow> sender \<Rightarrow> Rule \<Rightarrow> string \<Rightarrow> int \<Rightarrow> string \<Rightarrow> (go_error, request) result" where
  "build_request W sd rule payload timeout deliveryID =
     (let w = ru_Webhook rule;
          method = (if wh_Method w = [] then ''POST'' else wh_Method w)
      in case new_request W method (wh_URL w) of
           Some err \<Rightarrow> Inl (wrap_error ''creating request'' (plain_error err))
         | None \<Rightarrow> Inr \<lparr>hq_method = method, hq_url = wh_URL w,
             hq_header = request_header W sd w payload deliveryID, hq_body = payload,
             hq_timeout = (if timeout > 0 then Some timeout else None),
             hq_no_redirect = (wh_SigningSecret w \<noteq> [])\<rparr>)"

definition max_response_body :: nat where
  "max_response_body = 65536"

definition read_answer :: "(go_error, response) result \<Rightarrow> (send_error, string) result" where
  "read_answer ans =
     (case ans of
        Inl err \<Rightarrow> Inl (SendFailed (wrap_error ''sending request'' err))
      | Inr resp \<Rightarrow>
          (let body = take max_response_body (hs_body resp) in
           if 200 \<le> hs_status resp \<and> hs_status resp < 300 then Inr body
           else Inl (WebhookError (hs_status resp) body)))"

text \<open>The request put to the client, when one was, and what \<open>send\<close> returns.\<close>

definition send ::
    "'z weblib_scheme \<Rightarrow> sender \<Rightarrow> transport \<Rightarrow> Rule \<Rightarrow> string \<Rightarrow> int \<Rightarrow> string
      \<Rightarrow> request option \<times> (send_error, string) result" where
  "send W sd rt rule payload timeout deliveryID =
     (case build_request W sd rule payload timeout deliveryID of
        Inl err \<Rightarrow> (None, Inl (SendFailed err))
      | Inr req \<Rightarrow> (Some req, read_answer (rt req)))"

subsection \<open>Errors\<close>

definition error_text :: "send_error \<Rightarrow> string" where
  "error_text err =
     (case err of SendFailed e \<Rightarrow> ge_text e
      | WebhookError st _ \<Rightarrow> ''webhook returned status '' @ FormatInt st)"

definition is_private_error :: "send_error \<Rightarrow> bool" where
  "is_private_error err = (case err of SendFailed e \<Rightarrow> ge_private e | WebhookError _ _ \<Rightarrow> False)"

definition isTimeoutError :: "send_error \<Rightarrow> bool" where
  "isTimeoutError err =
     (case err of SendFailed e \<Rightarrow> if ge_deadline e then True else ge_net_timeout e
      | WebhookError _ _ \<Rightarrow> False)"

definition client_status :: "int \<Rightarrow> bool" where
  "client_status st = (400 \<le> st \<and> st < 500)"

subsection \<open>Dispatching without a queue\<close>

text \<open>
  The loop of \<open>dispatchOne\<close> from one attempt on. \<open>cancelled k\<close> is the context's error when it ends the
  wait before attempt \<open>k\<close>; \<open>send_at k\<close> is what \<open>send\<close> returns at attempt \<open>k\<close>. The last argument is
  \<open>lastErr\<close>, and the result carries the attempts that were sent.
\<close>

function dispatch_loop ::
    "(int \<Rightarrow> string option) \<Rightarrow> (int \<Rightarrow> (send_error, string) result) \<Rightarrow> RetryConfig \<Rightarrow> int \<Rightarrow> DeliveryResult
      \<Rightarrow> send_error option \<Rightarrow> DeliveryResult"
where
  "dispatch_loop cancelled send_at retry attempt result lastErr =
     (if attempt \<le> rc_MaxRetries retry then
        (let result = result\<lparr>dr_Attempts := attempt + 1\<rparr> in
         case (if attempt > 0 then cancelled attempt else None) of
           Some err \<Rightarrow> result\<lparr>dr_Status := DCancelled, dr_Error := err\<rparr>
         | None \<Rightarrow>
             (case send_at attempt of
                Inr respBody \<Rightarrow> result\<lparr>dr_Status := DSuccess, dr_ResponseBody := respBody\<rparr>
              | Inl err \<Rightarrow>
                  if is_private_error err then result\<lparr>dr_Status := DRejected, dr_Error := error_text err\<rparr>
                  else
                    (case err of
                       WebhookError st body \<Rightarrow>
                         if client_status st then
                           result\<lparr>dr_Status := DRejected, dr_StatusCode := st, dr_Error := error_text err,
                                  dr_ResponseBody := body\<rparr>
                         else dispatch_loop cancelled send_at retry (attempt + 1) result (Some err)
                     | SendFailed _ \<Rightarrow>
                         if isTimeoutError err \<and> \<not> rc_RetryOnTimeout retry then
                           result\<lparr>dr_Status := DFailed, dr_Error := error_text err\<rparr>
                         else dispatch_loop cancelled send_at retry (attempt + 1) result (Some err))))
      else
        (let result = result\<lparr>dr_Status := DFailed\<rparr> in
         case lastErr of
           None \<Rightarrow> result
         | Some err \<Rightarrow>
             (let result = result\<lparr>dr_Error := error_text err\<rparr> in
              case err of
                WebhookError st body \<Rightarrow> result\<lparr>dr_StatusCode := st, dr_ResponseBody := body\<rparr>
              | SendFailed _ \<Rightarrow> result)))"
  by pat_completeness auto
termination
  by (relation "measure (\<lambda>(_, _, retry, attempt, _, _). nat (rc_MaxRetries retry + 1 - attempt))") auto

declare dispatch_loop.simps [simp del]

definition empty_result :: "string \<Rightarrow> delivery_status \<Rightarrow> int \<Rightarrow> DeliveryResult" where
  "empty_result name st attempts =
     \<lparr>dr_RuleName = name, dr_Status = st, dr_StatusCode = 0, dr_Error = [], dr_ResponseBody = [],
      dr_Attempts = attempts\<rparr>"

definition dispatchOne ::
    "'z weblib_scheme \<Rightarrow> RetryConfig \<Rightarrow> (int \<Rightarrow> sender) \<Rightarrow> (int \<Rightarrow> transport) \<Rightarrow> (int \<Rightarrow> string option) \<Rightarrow> string
      \<Rightarrow> ParsedEmail \<Rightarrow> Rule \<Rightarrow> DeliveryResult" where
  "dispatchOne W globalRetry sd rt cancelled deliveryID email rule =
     (let result = empty_result (ru_Name rule) DPending 0;
          retry = effective_retry globalRetry (ru_Webhook rule)
      in case buildPayload W email (ru_Webhook rule) of
           Inl err \<Rightarrow> result\<lparr>dr_Status := DError, dr_Error := err\<rparr>
         | Inr payload \<Rightarrow>
             dispatch_loop cancelled
               (\<lambda>k. snd (send W (sd k) (rt k) rule payload (rc_Timeout retry) deliveryID)) retry 0 result None)"

text \<open>\<open>Dispatch\<close> runs one \<open>dispatchOne\<close> per rule, each writing its own slot of the results.\<close>

definition Dispatch ::
    "'z weblib_scheme \<Rightarrow> RetryConfig \<Rightarrow> (nat \<Rightarrow> int \<Rightarrow> sender) \<Rightarrow> (nat \<Rightarrow> int \<Rightarrow> transport)
      \<Rightarrow> (nat \<Rightarrow> int \<Rightarrow> string option) \<Rightarrow> (nat \<Rightarrow> string) \<Rightarrow> ParsedEmail \<Rightarrow> Rule list \<Rightarrow> DeliveryResult list" where
  "Dispatch W retry sd rt cancelled ids email rules =
     map (\<lambda>i. dispatchOne W retry (sd i) (rt i) (cancelled i) (ids i) email (rules ! i)) [0..<length rules]"

subsection \<open>Queued deliveries\<close>

record deliverySnapshot =
  sn_Rule :: Rule
  sn_Signed :: bool
  sn_Payload :: string
  sn_Retry :: RetryConfig
  sn_PayloadError :: string

definition strip_secret :: "Rule \<Rightarrow> Rule" where
  "strip_secret r = r\<lparr>ru_Webhook := (ru_Webhook r)\<lparr>wh_SigningSecret := []\<rparr>\<rparr>"

definition snapshot_of ::
    "'z weblib_scheme \<Rightarrow> RetryConfig \<Rightarrow> ParsedEmail \<Rightarrow> Rule \<Rightarrow> deliverySnapshot" where
  "snapshot_of W global email rule =
     (let wh = ru_Webhook rule; payload = buildPayload W email wh in
      \<lparr>sn_Rule = strip_secret rule, sn_Signed = (wh_SigningSecret wh \<noteq> []),
       sn_Payload = (case payload of Inl _ \<Rightarrow> [] | Inr p \<Rightarrow> p),
       sn_Retry = effective_retry global wh,
       sn_PayloadError = (case payload of Inl err \<Rightarrow> err | Inr _ \<Rightarrow> [])\<rparr>)"

definition Enqueue ::
    "'z weblib_scheme \<Rightarrow> RetryConfig \<Rightarrow> (nat \<Rightarrow> string) \<Rightarrow> int \<Rightarrow> string \<Rightarrow> ParsedEmail \<Rightarrow> Rule list
      \<Rightarrow> deliverySnapshot db \<Rightarrow> sql_error option \<times> deliverySnapshot db" where
  "Enqueue W global uuid now emailID email rules s =
     EnqueueDeliveries uuid emailID (map (\<lambda>r. (ru_Name r, snapshot_of W global email r)) rules) now s"

text \<open>\<open>lookup\<close> is the function of \<open>SetSecretLookup\<close>, \<open>None\<close> before it was set.\<close>

type_synonym secret_lookup = "(string \<Rightarrow> string \<times> bool) option"

definition secret_error :: "'z golib_scheme \<Rightarrow> string \<Rightarrow> string" where
  "secret_error G name = ''signing secret for rule '' @ go_quote G name @ '' is no longer available''"

definition resolveSecret :: "'z golib_scheme \<Rightarrow> secret_lookup \<Rightarrow> deliverySnapshot \<Rightarrow> (string, string) result" where
  "resolveSecret G lookup snap =
     (if \<not> sn_Signed snap then Inr []
      else
        (case lookup of
           Some fn \<Rightarrow>
             (case fn (ru_Name (sn_Rule snap)) of (secret, ok) \<Rightarrow>
                if ok \<and> secret \<noteq> [] then Inr secret
                else Inl (secret_error G (ru_Name (sn_Rule snap))))
         | None \<Rightarrow> Inl (secret_error G (ru_Name (sn_Rule snap)))))"

text \<open>
  The part of \<open>runQueued\<close> after the answer: the result to save, and the time of the next attempt.
  \<open>ctx_err\<close> says that the queue's context was cancelled meanwhile.
\<close>

definition classify ::
    "(int \<Rightarrow> int \<Rightarrow> int) \<Rightarrow> bool \<Rightarrow> int \<Rightarrow> RetryConfig \<Rightarrow> int \<Rightarrow> DeliveryResult \<Rightarrow> (send_error, string) result
      \<Rightarrow> DeliveryResult \<times> int option" where
  "classify oob ctx_err now retry job_attempts result0 ans =
     (case ans of
        Inr body \<Rightarrow> (result0\<lparr>dr_Status := DSuccess, dr_ResponseBody := body\<rparr>, None)
      | Inl err \<Rightarrow>
          (let result = result0\<lparr>dr_Status := DFailed, dr_Error := error_text err\<rparr>;
               retryable = True;
               (result, retryable) =
                 (case err of
                    WebhookError st body \<Rightarrow>
                      (let result = result\<lparr>dr_StatusCode := st, dr_ResponseBody := body\<rparr> in
                       if client_status st then (result\<lparr>dr_Status := DRejected\<rparr>, False)
                       else (result, retryable))
                  | SendFailed _ \<Rightarrow> (result, retryable));
               (result, retryable) =
                 (if is_private_error err then (result\<lparr>dr_Status := DRejected\<rparr>, False)
                  else (result, retryable));
               retryable = (if isTimeoutError err \<and> \<not> rc_RetryOnTimeout retry then False else retryable)
           in if ctx_err then
                (result\<lparr>dr_Status := DPending, dr_Attempts := job_attempts\<rparr>, Some now)
              else if retryable \<and> dr_Attempts result \<le> rc_MaxRetries retry then
                (result\<lparr>dr_Status := DPending\<rparr>, Some (now + backoff oob retry (dr_Attempts result)))
              else (result, None)))"

record run_env =
  env_sender :: sender
  env_transport :: transport
  env_lookup :: secret_lookup
  env_oob :: "int \<Rightarrow> int \<Rightarrow> int"
  env_ctx_err :: bool
  env_now :: int

text \<open>
  \<open>runQueued\<close> up to \<open>FinishDelivery\<close>: the request that was sent, the result and the next attempt. A
  released snapshot (the empty string) does not decode.
\<close>

definition runQueued ::
    "'z weblib_scheme \<Rightarrow> run_env \<Rightarrow> deliverySnapshot QueuedDelivery
      \<Rightarrow> request option \<times> DeliveryResult \<times> int option" where
  "runQueued W env job =
     (let result = empty_result (qd_RuleName job) DError (qd_Attempts job) in
      case qd_Snapshot job of
        None \<Rightarrow> (None, result\<lparr>dr_Error := ''unexpected end of JSON input''\<rparr>, None)
      | Some snap \<Rightarrow>
          if sn_PayloadError snap \<noteq> [] then (None, result\<lparr>dr_Error := sn_PayloadError snap\<rparr>, None)
          else
            (case resolveSecret W (env_lookup env) snap of
               Inl err \<Rightarrow> (None, result\<lparr>dr_Error := err\<rparr>, None)
             | Inr secret \<Rightarrow>
                 (let rule = (sn_Rule snap)\<lparr>ru_Webhook := (ru_Webhook (sn_Rule snap))\<lparr>wh_SigningSecret := secret\<rparr>\<rparr>;
                      result = result\<lparr>dr_Attempts := qd_Attempts job + 1\<rparr>;
                      (req, ans) = send W (env_sender env) (env_transport env) rule (sn_Payload snap)
                        (rc_Timeout (sn_Retry snap)) (qd_ID job)
                  in (req, classify (env_oob env) (env_ctx_err env) (env_now env) (sn_Retry snap)
                        (qd_Attempts job) result ans))))"

subsection \<open>The connectivity test of the web UI\<close>

record TestResult =
  ts_StatusCode :: int
  ts_ContentType :: string
  ts_Body :: string
  ts_Truncated :: bool

definition TestConnectivity ::
    "'z weblib_scheme \<Rightarrow> sender \<Rightarrow> transport \<Rightarrow> string \<Rightarrow> string \<Rightarrow> string \<Rightarrow> string option
      \<Rightarrow> (go_error, TestResult) result" where
  "TestConnectivity W sd rt deliveryID url method0 signingSecret =
     (let method = (if method0 = [] then ''POST'' else method0) in
      case new_request W method url of
        Some err \<Rightarrow> Inl (wrap_error ''creating request'' (plain_error err))
      | None \<Rightarrow>
          (let h = header_set (header_set Map.empty ''User-Agent'' (sd_userAgent sd))
                 ''Content-Type'' ''application/json'';
               h = (case signingSecret of None \<Rightarrow> h
                    | Some secret \<Rightarrow> setSigningHeaders W (sd_unix sd) ''{}'' secret deliveryID h);
               req = \<lparr>hq_method = method, hq_url = url, hq_header = h, hq_body = ''{}'',
                 hq_timeout = Some (5 * Second),
                 hq_no_redirect = (case signingSecret of None \<Rightarrow> False | Some secret \<Rightarrow> secret \<noteq> [])\<rparr>
           in case rt req of
                Inl err \<Rightarrow> Inl err
              | Inr resp \<Rightarrow>
                  (let body = take (max_response_body + 1) (hs_body resp) in
                   if hs_read_error resp \<and> length (hs_body resp) \<le> max_response_body then
                     Inl (wrap_error ''reading response'' (plain_error ''read error''))
                   else Inr \<lparr>ts_StatusCode = hs_status resp, ts_ContentType = hs_content_type resp,
                     ts_Body = take max_response_body body,
                     ts_Truncated = (length body > max_response_body)\<rparr>)))"

end
