(* ===== verification/GoPath.thy ===== *)
theory GoPath
  imports Prelude
begin

section \<open>Go's \<open>utf8.DecodeRuneInString\<close> and \<open>path.Match\<close>\<close>

text \<open>
  The glob matcher of the Go standard library, which the rule engine, the recipient allow-list
  and both validators call. It is written here as the library has it (\<open>scanChunk\<close>,
  \<open>matchChunk\<close>, \<open>getEsc\<close>, the star loop), over bytes, with \<open>None\<close> for \<open>ErrBadPattern\<close>. The lemmas
  show that whether a pattern is malformed does not depend on the name it is matched against, and
  what patterns without meta characters and with a leading star mean.
\<close>

subsection \<open>Decoding one rune\<close>

definition cont_byte :: "char \<Rightarrow> bool" where
  "cont_byte c = (128 \<le> byte_of c \<and> byte_of c < 192)"

definition rune_error :: nat where
  "rune_error = 0xFFFD"

text \<open>The rune and its size in bytes: size 1 with \<open>rune_error\<close> for an invalid encoding.\<close>

fun DecodeRune :: "string \<Rightarrow> nat \<times> nat" where
  "DecodeRune [] = (rune_error, 0)"
| "DecodeRune (a # s) =
    (let x = byte_of a in
     if x < 128 then (x, 1)
     else if 0xC2 \<le> x \<and> x \<le> 0xDF then
       (case s of b # _ \<Rightarrow>
          if cont_byte b then ((x - 0xC0) * 64 + (byte_of b - 128), 2) else (rune_error, 1)
        | [] \<Rightarrow> (rune_error, 1))
     else if 0xE0 \<le> x \<and> x \<le> 0xEF then
       (case s of b # c # _ \<Rightarrow>
          if cont_byte b \<and> cont_byte c \<and> (x = 0xE0 \<longrightarrow> 0xA0 \<le> byte_of b) \<and> (x = 0xED \<longrightarrow> byte_of b \<le> 0x9F)
          then ((x - 0xE0) * 4096 + (byte_of b - 128) * 64 + (byte_of c - 128), 3)
          else (rune_error, 1)
        | _ \<Rightarrow> (rune_error, 1))
     else if 0xF0 \<le> x \<and> x \<le> 0xF4 then
       (case s of b # c # d # _ \<Rightarrow>
          if cont_byte b \<and> cont_byte c \<and> cont_byte d \<and> (x = 0xF0 \<longrightarrow> 0x90 \<le> byte_of b)
            \<and> (x = 0xF4 \<longrightarrow> byte_of b \<le> 0x8F)
          then ((x - 0xF0) * 262144 + (byte_of b - 128) * 4096 + (byte_of c - 128) * 64
                 + (byte_of d - 128), 4)
          else (rune_error, 1)
        | _ \<Rightarrow> (rune_error, 1))
     else (rune_error, 1))"

lemma DecodeRune_size: "s \<noteq> [] \<Longrightarrow> 0 < snd (DecodeRune s)"
  by (cases s) (auto simp: Let_def split: list.splits)

lemma DecodeRune_ascii: "byte_of a < 128 \<Longrightarrow> DecodeRune (a # s) = (byte_of a, 1)"
  by simp

declare DecodeRune.simps(2) [simp del]

subsection \<open>Character classes\<close>

definition getEsc :: "string \<Rightarrow> (nat \<times> string) option" where
  "getEsc chunk =
     (if chunk = [] \<or> hd chunk = CHR ''-'' \<or> hd chunk = CHR '']'' then None
      else let chunk' = (if hd chunk = CHR 0x5C then tl chunk else chunk) in
        if chunk' = [] then None
        else let (r, n) = DecodeRune chunk'; nchunk = drop n chunk' in
          if r = rune_error \<and> n = 1 then None
          else if nchunk = [] then None
          else Some (r, nchunk))"

lemma getEsc_less: "getEsc c = Some (r, c') \<Longrightarrow> length c' < length c \<and> c' \<noteq> []"
  using DecodeRune_size [of c] DecodeRune_size [of "tl c"]
  by (cases c) (auto simp: getEsc_def Let_def split: if_splits prod.splits)

text \<open>One range \<open>lo-hi\<close> (or one rune, with \<open>hi = lo\<close>) of a class, and the rest of the chunk.\<close>

definition class_range :: "string \<Rightarrow> (nat \<times> nat \<times> string) option" where
  "class_range chunk =
     (case getEsc chunk of
        None \<Rightarrow> None
      | Some (lo, c1) \<Rightarrow>
          if hd c1 = CHR ''-''
          then (case getEsc (tl c1) of None \<Rightarrow> None | Some (hi, c2) \<Rightarrow> Some (lo, hi, c2))
          else Some (lo, lo, c1))"

lemma class_range_less:
  assumes "class_range c = Some (lo, hi, c')"
  shows "length c' < length c"
proof -
  from assms obtain c1 where g: "getEsc c = Some (lo, c1)"
    and r: "if hd c1 = CHR ''-'' then getEsc (tl c1) = Some (hi, c') else c' = c1"
    by (auto simp: class_range_def split: option.splits if_splits)
  from g have "length c1 < length c" using getEsc_less by blast
  moreover from r have "length c' \<le> length c1"
    using getEsc_less [of "tl c1" hi c'] by (auto split: if_splits)
  ultimately show ?thesis by simp
qed

text \<open>The loop over the ranges of a class: whether the rune is in one, and the rest after \<open>]\<close>.\<close>

function class_ranges :: "string \<Rightarrow> nat \<Rightarrow> bool \<Rightarrow> bool \<Rightarrow> (bool \<times> string) option" where
  "class_ranges chunk r seen matched =
     (if chunk \<noteq> [] \<and> hd chunk = CHR '']'' \<and> seen then Some (matched, tl chunk)
      else case class_range chunk of
        None \<Rightarrow> None
      | Some (lo, hi, c2) \<Rightarrow> class_ranges c2 r True (matched \<or> (lo \<le> r \<and> r \<le> hi)))"
  by pat_completeness auto
termination
  by (relation "measure (\<lambda>(chunk, _, _, _). length chunk)") (auto dest: class_range_less)

declare class_ranges.simps [simp del]

text \<open>Equations to evaluate with: the recursion waits for the head of the chunk.\<close>

lemma class_ranges_code [code]:
  "class_ranges [] r seen matched = None"
  "class_ranges (c # cs) r seen matched =
     (if c = CHR '']'' \<and> seen then Some (matched, cs)
      else case class_range (c # cs) of
        None \<Rightarrow> None
      | Some (lo, hi, c2) \<Rightarrow> class_ranges c2 r True (matched \<or> (lo \<le> r \<and> r \<le> hi)))"
  by (simp_all add: class_ranges.simps [of "[]"] class_ranges.simps [of "c # cs"] class_range_def getEsc_def)

lemma class_ranges_less:
  "class_ranges c r seen m = Some (m', c') \<Longrightarrow> length c' < length c"
proof (induction c r seen m rule: class_ranges.induct)
  case (1 chunk r seen m)
  note prem = "1.prems" [unfolded class_ranges.simps [of chunk r seen m]]
  show ?case
  proof (cases "chunk \<noteq> [] \<and> hd chunk = CHR '']'' \<and> seen")
    case True
    with prem show ?thesis by (cases chunk) auto
  next
    case stop: False
    with prem obtain lo hi c2 where r: "class_range chunk = Some (lo, hi, c2)"
      and rec: "class_ranges c2 r True (m \<or> (lo \<le> r \<and> r \<le> hi)) = Some (m', c')"
      by (auto split: option.splits)
    from "1.IH" [OF stop r refl refl rec] class_range_less [OF r] show ?thesis by simp
  qed
qed

subsection \<open>Chunks\<close>

text \<open>
  \<open>matchChunk\<close>: \<open>None\<close> for a malformed chunk, \<open>Some None\<close> for no match, \<open>Some (Some rest)\<close> for a
  match that leaves \<open>rest\<close> of the name. Once the match has failed the chunk is only checked.
\<close>

function matchChunk :: "string \<Rightarrow> string \<Rightarrow> bool \<Rightarrow> string option option" where
  "matchChunk chunk s failed =
     (if chunk = [] then Some (if failed then None else Some s)
      else let failed = (failed \<or> s = []); c = hd chunk in
        if c = CHR ''['' then
          let (r, s') = (if failed then (0, s) else (fst (DecodeRune s), drop (snd (DecodeRune s)) s));
              c1 = tl chunk;
              negated = (c1 \<noteq> [] \<and> hd c1 = CHR ''^'');
              c2 = (if negated then tl c1 else c1)
          in case class_ranges c2 r False False of
               None \<Rightarrow> None
             | Some (m, c3) \<Rightarrow> matchChunk c3 s' (failed \<or> m = negated)
        else if c = CHR ''?'' then
          matchChunk (tl chunk) (if failed then s else drop (snd (DecodeRune s)) s)
            (failed \<or> hd s = CHR ''/'')
        else
          let lit = (if c = CHR 0x5C then tl chunk else chunk) in
          if lit = [] then None
          else matchChunk (tl lit) (if failed then s else tl s) (failed \<or> hd lit \<noteq> hd s))"
  by pat_completeness auto
termination
proof (relation "measure (\<lambda>(chunk, _, _). length chunk)", goal_cases)
  case (2 chunk s failed f c rs r s' c1 neg c2 p m c3)
  then have "length c3 < length c2" by (auto dest: class_ranges_less)
  moreover from 2 have "length c2 \<le> length chunk" by auto
  ultimately show ?case by simp
qed auto

declare matchChunk.simps [simp del]

lemma matchChunk_code [code]:
  "matchChunk [] s failed = Some (if failed then None else Some s)"
  "matchChunk (c # cs) s failed =
     (let failed = (failed \<or> s = []) in
        if c = CHR ''['' then
          let (r, s') = (if failed then (0, s) else (fst (DecodeRune s), drop (snd (DecodeRune s)) s));
              negated = (cs \<noteq> [] \<and> hd cs = CHR ''^'');
              c2 = (if negated then tl cs else cs)
          in case class_ranges c2 r False False of
               None \<Rightarrow> None
             | Some (m, c3) \<Rightarrow> matchChunk c3 s' (failed \<or> m = negated)
        else if c = CHR ''?'' then
          matchChunk cs (if failed then s else drop (snd (DecodeRune s)) s) (failed \<or> hd s = CHR ''/'')
        else
          case (if c = CHR 0x5C then cs else c # cs) of
            [] \<Rightarrow> None
          | l # ls \<Rightarrow> matchChunk ls (if failed then s else tl s) (failed \<or> l \<noteq> hd s))"
proof -
  show "matchChunk [] s failed = Some (if failed then None else Some s)" by (simp add: matchChunk.simps)
  show "matchChunk (c # cs) s failed =
     (let failed = (failed \<or> s = []) in
        if c = CHR ''['' then
          let (r, s') = (if failed then (0, s) else (fst (DecodeRune s), drop (snd (DecodeRune s)) s));
              negated = (cs \<noteq> [] \<and> hd cs = CHR ''^'');
              c2 = (if negated then tl cs else cs)
          in case class_ranges c2 r False False of
               None \<Rightarrow> None
             | Some (m, c3) \<Rightarrow> matchChunk c3 s' (failed \<or> m = negated)
        else if c = CHR ''?'' then
          matchChunk cs (if failed then s else drop (snd (DecodeRune s)) s) (failed \<or> hd s = CHR ''/'')
        else
          case (if c = CHR 0x5C then cs else c # cs) of
            [] \<Rightarrow> None
          | l # ls \<Rightarrow> matchChunk ls (if failed then s else tl s) (failed \<or> l \<noteq> hd s))"
    by (subst matchChunk.simps) (simp add: Let_def split: list.split)
qed

text \<open>The equations of \<open>matchChunk\<close>, one per kind of chunk head.\<close>

definition class_body :: "string \<Rightarrow> string" where
  "class_body c1 = (if c1 \<noteq> [] \<and> hd c1 = CHR ''^'' then tl c1 else c1)"

lemma matchChunk_Nil: "matchChunk [] s failed = Some (if failed then None else Some s)"
  by (simp add: matchChunk.simps)

lemma matchChunk_class:
  "matchChunk (CHR ''['' # c1) s failed =
     (let failed = (failed \<or> s = []); neg = (c1 \<noteq> [] \<and> hd c1 = CHR ''^'');
          r = (if failed then 0 else fst (DecodeRune s));
          s' = (if failed then s else drop (snd (DecodeRune s)) s)
      in case class_ranges (class_body c1) r False False of
           None \<Rightarrow> None
         | Some (m, c3) \<Rightarrow> matchChunk c3 s' (failed \<or> m = neg))"
  by (subst matchChunk.simps) (simp add: Let_def class_body_def)

lemma matchChunk_any:
  "matchChunk (CHR ''?'' # c1) s failed =
     matchChunk c1 (if failed \<or> s = [] then s else drop (snd (DecodeRune s)) s)
       (failed \<or> s = [] \<or> hd s = CHR ''/'')"
  by (subst matchChunk.simps) (simp add: Let_def)

lemma matchChunk_esc:
  "matchChunk (CHR 0x5C # c1) s failed =
     (if c1 = [] then None
      else matchChunk (tl c1) (if failed \<or> s = [] then s else tl s)
        (failed \<or> s = [] \<or> hd c1 \<noteq> hd s))"
  by (subst matchChunk.simps) (simp add: Let_def)

lemma matchChunk_lit:
  "c \<notin> {CHR ''['', CHR ''?'', CHR 0x5C} \<Longrightarrow>
   matchChunk (c # c1) s failed =
     matchChunk c1 (if failed \<or> s = [] then s else tl s) (failed \<or> s = [] \<or> c \<noteq> hd s)"
  by (subst matchChunk.simps) (simp add: Let_def)

lemma chunk_cases [case_names nil cls qm esc lit]:
  obtains "c = []"
  | c1 where "c = CHR ''['' # c1"
  | c1 where "c = CHR ''?'' # c1"
  | c1 where "c = CHR 0x5C # c1"
  | a c1 where "c = a # c1" "a \<notin> {CHR ''['', CHR ''?'', CHR 0x5C}"
  by (cases c) blast+

lemmas matchChunk_eqs = matchChunk_Nil matchChunk_class matchChunk_any matchChunk_esc matchChunk_lit

text \<open>\<open>scanChunk\<close>: whether there is a leading star, the chunk up to the next star, and the rest.\<close>

fun scan_end :: "bool \<Rightarrow> string \<Rightarrow> string \<times> string" where
  "scan_end inrange [] = ([], [])"
| "scan_end inrange (c # s) =
     (if c = CHR 0x5C then
        (case s of [] \<Rightarrow> ([c], []) | d # s' \<Rightarrow> (let (a, b) = scan_end inrange s' in (c # d # a, b)))
      else if c = CHR ''*'' \<and> \<not> inrange then ([], c # s)
      else let (a, b) = scan_end (if c = CHR ''['' then True else if c = CHR '']'' then False else inrange) s
           in (c # a, b))"

definition scanChunk :: "string \<Rightarrow> bool \<times> string \<times> string" where
  "scanChunk pattern =
     (let p = dropWhile (\<lambda>c. c = CHR ''*'') pattern in
      (pattern \<noteq> [] \<and> hd pattern = CHR ''*'', scan_end False p))"

lemma scan_end_append: "scan_end r s = (a, b) \<Longrightarrow> s = a @ b"
proof (induction r s arbitrary: a b rule: scan_end.induct)
  case (2 r c s)
  then show ?case
    by (cases s) (auto simp: Let_def split: if_splits prod.splits)
qed simp

lemma scan_end_Nil: "scan_end False s = ([], b) \<Longrightarrow> s = [] \<or> hd s = CHR ''*''"
  by (cases s) (auto simp: Let_def split: if_splits prod.splits list.splits)

lemma scanChunk_less:
  assumes "pattern \<noteq> []" "scanChunk pattern = (star, chunk, rest)"
  shows "length rest < length pattern"
proof -
  let ?p = "dropWhile (\<lambda>c. c = CHR ''*'') pattern"
  have s: "scan_end False ?p = (chunk, rest)" and star: "star \<longleftrightarrow> hd pattern = CHR ''*''"
    using assms by (auto simp: scanChunk_def Let_def)
  have app: "?p = chunk @ rest" using s by (rule scan_end_append)
  show ?thesis
  proof (cases "hd pattern = CHR ''*''")
    case True
    with assms(1) have "length ?p < length pattern"
      by (cases pattern) (auto intro: le_imp_less_Suc length_dropWhile_le)
    with app show ?thesis by simp
  next
    case False
    with assms(1) have "?p = pattern" by (cases pattern) auto
    moreover from this False assms(1) s have "chunk \<noteq> []" using scan_end_Nil by fastforce
    ultimately show ?thesis using app by (simp add: neq_Nil_conv) (metis length_append less_add_same_cancel2 length_greater_0_conv app \<open>chunk \<noteq> []\<close> append_is_Nil_conv)
  qed
qed


lemma scanChunk_empty:
  assumes "pattern \<noteq> []" "scanChunk pattern = (star, [], rest)"
  shows "star \<and> rest = []"
proof -
  let ?p = "dropWhile (\<lambda>c. c = CHR ''*'') pattern"
  have s: "scan_end False ?p = ([], rest)" and star: "star \<longleftrightarrow> hd pattern = CHR ''*''"
    using assms by (auto simp: scanChunk_def Let_def)
  have "?p = rest" using scan_end_append [OF s] by simp
  moreover have "?p = []"
    using scan_end_Nil [OF s] hd_dropWhile [of "\<lambda>c. c = CHR ''*''" pattern] by blast
  ultimately have "rest = []" by simp
  moreover have "hd pattern = CHR ''*''" using \<open>?p = []\<close> assms(1) by (cases pattern) (auto split: if_splits)
  ultimately show ?thesis using star by simp
qed

subsection \<open>Match\<close>

text \<open>The loop that skips bytes after a star: \<open>lastc\<close> says that no pattern is left after the chunk.\<close>

fun star_search :: "string \<Rightarrow> bool \<Rightarrow> string \<Rightarrow> string option option" where
  "star_search chunk lastc [] = Some None"
| "star_search chunk lastc (c # name) =
     (if c = CHR ''/'' then Some None
      else case matchChunk chunk name False of
        None \<Rightarrow> None
      | Some (Some t) \<Rightarrow> if lastc \<and> t \<noteq> [] then star_search chunk lastc name else Some (Some t)
      | Some None \<Rightarrow> star_search chunk lastc name)"

text \<open>After a failed match the rest of the pattern is still checked.\<close>

function check_rest :: "string \<Rightarrow> bool option" where
  "check_rest pattern =
     (if pattern = [] then Some False
      else let (_, chunk, rest) = scanChunk pattern in
        case matchChunk chunk [] False of None \<Rightarrow> None | Some _ \<Rightarrow> check_rest rest)"
  by pat_completeness auto
termination
  by (relation "measure length") (auto dest: scanChunk_less [OF _ sym])

declare check_rest.simps [simp del]

lemma check_rest_code [code]:
  "check_rest [] = Some False"
  "check_rest (c # cs) =
     (let (_, chunk, rest) = scanChunk (c # cs) in
        case matchChunk chunk [] False of None \<Rightarrow> None | Some _ \<Rightarrow> check_rest rest)"
  by (simp_all add: check_rest.simps [of "[]"] check_rest.simps [of "c # cs"])

text \<open>\<open>path.Match(pattern, name)\<close>; \<open>None\<close> is \<open>ErrBadPattern\<close>.\<close>

function path_match :: "string \<Rightarrow> string \<Rightarrow> bool option" where
  "path_match pattern name =
     (if pattern = [] then Some (name = [])
      else let (star, chunk, rest) = scanChunk pattern in
        if star \<and> chunk = [] then Some (CHR ''/'' \<notin> set name)
        else case matchChunk chunk name False of
          None \<Rightarrow> None
        | Some res \<Rightarrow>
            (case (case res of Some t \<Rightarrow> if t = [] \<or> rest \<noteq> [] then Some t else None | None \<Rightarrow> None) of
               Some t \<Rightarrow> path_match rest t
             | None \<Rightarrow>
                 if star then
                   (case star_search chunk (rest = []) name of
                      None \<Rightarrow> None
                    | Some (Some t) \<Rightarrow> path_match rest t
                    | Some None \<Rightarrow> check_rest rest)
                 else check_rest rest))"
  by pat_completeness auto
termination
  by (relation "measure (\<lambda>(p, _). length p)") (auto dest: scanChunk_less [OF _ sym])

declare path_match.simps [simp del]

lemma path_match_code [code]:
  "path_match [] name = Some (name = [])"
  "path_match (c # cs) name =
     (let (star, chunk, rest) = scanChunk (c # cs) in
        if star \<and> chunk = [] then Some (CHR ''/'' \<notin> set name)
        else case matchChunk chunk name False of
          None \<Rightarrow> None
        | Some res \<Rightarrow>
            (case (case res of Some t \<Rightarrow> if t = [] \<or> rest \<noteq> [] then Some t else None | None \<Rightarrow> None) of
               Some t \<Rightarrow> path_match rest t
             | None \<Rightarrow>
                 if star then
                   (case star_search chunk (rest = []) name of
                      None \<Rightarrow> None
                    | Some (Some t) \<Rightarrow> path_match rest t
                    | Some None \<Rightarrow> check_rest rest)
                 else check_rest rest))"
  by (simp_all add: path_match.simps [of "[]"] path_match.simps [of "c # cs"])

subsection \<open>Being malformed does not depend on the name\<close>

lemma class_ranges_indep:
  "map_option snd (class_ranges c r seen m) = map_option snd (class_ranges c r' seen m')"
proof (induction c r seen m arbitrary: m' rule: class_ranges.induct)
  case (1 chunk r seen m)
  show ?case
  proof (cases "chunk \<noteq> [] \<and> hd chunk = CHR '']'' \<and> seen")
    case True
    then show ?thesis by (simp add: class_ranges.simps [of chunk])
  next
    case stop: False
    show ?thesis
    proof (cases "class_range chunk")
      case None
      with stop show ?thesis by (simp add: class_ranges.simps [of chunk])
    next
      case (Some a)
      obtain lo hi c2 where a: "a = (lo, hi, c2)" by (cases a)
      have "class_ranges chunk q seen k = class_ranges c2 q True (k \<or> (lo \<le> q \<and> q \<le> hi))" for q k
        using stop Some a by (subst class_ranges.simps) auto
      then show ?thesis
        using "1.IH" [OF stop Some [unfolded a] refl refl] by simp
    qed
  qed
qed

lemma class_ranges_None:
  assumes "class_ranges c r seen m = None"
  shows "class_ranges c r' seen m' = None"
proof -
  have "map_option snd (class_ranges c r' seen m') = map_option snd (class_ranges c r seen m)"
    by (rule class_ranges_indep)
  also have "\<dots> = None" using assms by simp
  finally show ?thesis by (cases "class_ranges c r' seen m'") simp_all
qed

lemma class_ranges_Some:
  assumes "class_ranges c r seen m = Some (x, c')"
  shows "\<exists>x'. class_ranges c r' seen m' = Some (x', c')"
proof -
  have "map_option snd (class_ranges c r' seen m') = map_option snd (class_ranges c r seen m)"
    by (rule class_ranges_indep)
  also have "\<dots> = Some c'" using assms by simp
  finally show ?thesis by (auto simp: map_option_eq_Some)
qed

lemma matchChunk_None_indep:
  "matchChunk c s f = None \<Longrightarrow> matchChunk c s' f' = None"
proof (induction c arbitrary: s f s' f' rule: length_induct)
  case (1 c)
  note bad = "1.prems"
  have IH: "matchChunk d t g = None \<Longrightarrow> matchChunk d t' g' = None" if "length d < length c" for d t g t' g'
    using "1.IH" that by blast
  show ?case
  proof (cases c rule: chunk_cases)
    case nil
    with bad show ?thesis by (simp add: matchChunk_Nil)
  next
    case (cls c1)
    show ?thesis
    proof (cases "class_ranges (class_body c1) 0 False False")
      case None
      then have "class_ranges (class_body c1) r False False = None" for r by (rule class_ranges_None)
      with cls show ?thesis by (simp add: matchChunk_class Let_def)
    next
      case (Some mc)
      obtain m c3 where mc: "mc = (m, c3)" by (cases mc)
      have ex: "\<exists>x. class_ranges (class_body c1) r False False = Some (x, c3)" for r
        using class_ranges_Some [OF Some [unfolded mc]] .
      have shorter: "length c3 < length c"
        using class_ranges_less [OF Some [unfolded mc]] cls by (auto simp: class_body_def split: if_splits)
      have unf: "\<exists>x t' g'. matchChunk c t g = matchChunk c3 t' g'" for t g
        using ex [of "if g \<or> t = [] then 0 else fst (DecodeRune t)"]
        unfolding cls matchChunk_class Let_def by (metis (no_types, lifting) option.simps(5) old.prod.case)
      with bad IH [OF shorter] show ?thesis by metis
    qed
  next
    case (qm c1)
    with bad IH [of c1] show ?thesis unfolding qm matchChunk_any by (metis length_Cons lessI)
  next
    case (esc c1)
    with bad IH [of "tl c1"] show ?thesis unfolding esc matchChunk_esc
      by (cases "c1 = []") auto
  next
    case (lit a c1)
    with bad IH [of c1] show ?thesis by (auto simp: matchChunk_lit)
  qed
qed

definition chunk_ok :: "string \<Rightarrow> bool" where
  "chunk_ok c = (matchChunk c [] False \<noteq> None)"

lemma matchChunk_None_iff: "matchChunk c s f = None \<longleftrightarrow> \<not> chunk_ok c"
  using matchChunk_None_indep [of c s f "[]" False] matchChunk_None_indep [of c "[]" False s f]
  by (auto simp: chunk_ok_def)

lemma chunk_okI: "matchChunk c s f = Some y \<Longrightarrow> chunk_ok c"
  using matchChunk_None_iff [of c s f] by simp

lemma star_search_None: "chunk_ok c \<Longrightarrow> star_search c l name \<noteq> None"
proof (induction c l name rule: star_search.induct)
  case (2 chunk lastc c name)
  then show ?case using matchChunk_None_iff [of chunk name False] by (auto split: option.splits)
qed simp

lemma check_rest_step:
  "pattern \<noteq> [] \<Longrightarrow> scanChunk pattern = (star, chunk, rest) \<Longrightarrow>
   check_rest pattern \<noteq> None \<longleftrightarrow> chunk_ok chunk \<and> check_rest rest \<noteq> None"
  by (subst check_rest.simps) (auto simp: chunk_ok_def split: option.splits)

lemma path_match_total: "check_rest pattern \<noteq> None \<Longrightarrow> path_match pattern name \<noteq> None"
proof (induction pattern arbitrary: name rule: length_induct)
  case (1 pattern)
  show ?case
  proof (cases "pattern = []")
    case True
    then show ?thesis by (simp add: path_match.simps)
  next
    case False
    obtain star chunk rest where sc: "scanChunk pattern = (star, chunk, rest)"
      by (cases "scanChunk pattern")
    have ok: "chunk_ok chunk" and rest: "check_rest rest \<noteq> None"
      using "1.prems" check_rest_step [OF False sc] by simp_all
    have less: "length rest < length pattern" using scanChunk_less [OF False sc] .
    have rec: "path_match rest t \<noteq> None" for t using "1.IH" less rest by blast
    have mc: "matchChunk chunk name False \<noteq> None" using ok by (simp add: matchChunk_None_iff)
    obtain res where res: "matchChunk chunk name False = Some res"
      using ok matchChunk_None_iff [of chunk name False] by blast
    obtain ss where ss: "star_search chunk (rest = []) name = Some ss"
      using star_search_None [OF ok] by blast
    have unf: "path_match pattern name =
       (if star \<and> chunk = [] then Some (CHR ''/'' \<notin> set name)
        else case (case res of Some t \<Rightarrow> if t = [] \<or> rest \<noteq> [] then Some t else None | None \<Rightarrow> None) of
               Some t \<Rightarrow> path_match rest t
             | None \<Rightarrow> if star then (case ss of Some t \<Rightarrow> path_match rest t | None \<Rightarrow> check_rest rest)
                 else check_rest rest)"
      using False by (subst path_match.simps) (simp add: sc res ss split: option.split)
    show ?thesis
      unfolding unf using rec rest by (cases res; cases ss) auto
  qed
qed

lemma matchChunk_failed: "matchChunk c s True = Some r \<Longrightarrow> r = None"
proof (induction c arbitrary: s rule: length_induct)
  case (1 c)
  note prem = "1.prems"
  have IH: "matchChunk d t True = Some r \<Longrightarrow> r = None" if "length d < length c" for d t
    using "1.IH" that by blast
  show ?case
  proof (cases c rule: chunk_cases)
    case (cls c1)
    with prem obtain m c3 where cr: "class_ranges (class_body c1) 0 False False = Some (m, c3)"
      and rec: "matchChunk c3 s True = Some r"
      by (auto simp: matchChunk_class split: option.splits)
    have "length c3 < length c"
      using class_ranges_less [OF cr] cls by (auto simp: class_body_def split: if_splits)
    from IH [OF this rec] show ?thesis .
  next
    case (esc c1)
    with prem IH [of "tl c1"] show ?thesis by (auto simp: matchChunk_esc split: if_splits)
  qed (use prem IH in \<open>auto simp: matchChunk_eqs\<close>)
qed

lemma matchChunk_empty_name: "c \<noteq> [] \<Longrightarrow> matchChunk c [] False = Some r \<Longrightarrow> r = None"
  by (cases c rule: chunk_cases)
    (auto simp: matchChunk_eqs split: option.splits if_splits dest: matchChunk_failed)

text \<open>\<open>path.Match\<close> finds a malformed pattern whatever the name: each chunk is matched, or checked after a failure.\<close>

lemma check_rest_if_match: "path_match pattern name \<noteq> None \<Longrightarrow> check_rest pattern \<noteq> None"
proof (induction pattern arbitrary: name rule: length_induct)
  case (1 pattern)
  show ?case
  proof (cases "pattern = []")
    case True
    then show ?thesis by (simp add: check_rest.simps)
  next
    case False
    obtain star chunk rest where sc: "scanChunk pattern = (star, chunk, rest)"
      by (cases "scanChunk pattern")
    have IH: "check_rest rest \<noteq> None" if "path_match rest t \<noteq> None" for t
      using "1.IH" scanChunk_less [OF False sc] that by blast
    have "chunk_ok chunk \<and> check_rest rest \<noteq> None"
    proof (cases "chunk = []")
      case True
      then have "rest = []" using scanChunk_empty [OF False] sc by blast
      with True show ?thesis by (simp add: chunk_ok_def matchChunk_Nil check_rest.simps)
    next
      case ne: False
      with "1.prems" False sc obtain res where res: "matchChunk chunk name False = Some res"
        by (subst (asm) path_match.simps) (auto split: option.splits if_splits)
      have "check_rest rest \<noteq> None"
        using "1.prems" False sc ne res IH
        by (subst (asm) path_match.simps) (auto split: option.splits if_splits)
      with chunk_okI [OF res] show ?thesis by simp
    qed
    then show ?thesis using check_rest_step [OF False sc] by simp
  qed
qed

text \<open>A pattern that \<open>path.Match(p, "")\<close> accepts never fails on a name.\<close>

lemma check_rest_if_match_empty: "path_match pattern [] \<noteq> None \<Longrightarrow> check_rest pattern \<noteq> None"
  by (rule check_rest_if_match)


subsection \<open>What simple globs mean\<close>

definition literal_glob :: "string \<Rightarrow> bool" where
  "literal_glob p = (\<forall>c\<in>set p. c \<notin> {CHR ''*'', CHR ''?'', CHR ''['', CHR 0x5C})"

lemma literal_glob_simps [simp]:
  "literal_glob []"
  "literal_glob (c # p) \<longleftrightarrow> c \<notin> {CHR ''*'', CHR ''?'', CHR ''['', CHR 0x5C} \<and> literal_glob p"
  by (auto simp: literal_glob_def)

lemma scan_end_literal: "literal_glob p \<Longrightarrow> scan_end False (p @ CHR ''*'' # q) = (p, CHR ''*'' # q)"
  by (induction p) auto

lemma scan_end_literal_end: "literal_glob p \<Longrightarrow> scan_end False p = (p, [])"
  by (induction p) auto

lemma scanChunk_star_literal: "literal_glob b \<Longrightarrow> scanChunk (CHR ''*'' # b) = (True, b, [])"
  by (cases b) (auto simp: scanChunk_def scan_end_literal_end Let_def)

lemma scanChunk_literal: "literal_glob a \<Longrightarrow> a \<noteq> [] \<Longrightarrow> scanChunk a = (False, a, [])"
  by (cases a) (auto simp: scanChunk_def scan_end_literal_end Let_def)

lemma scanChunk_literal_star:
  assumes "literal_glob a" "a \<noteq> []"
  shows "scanChunk (a @ CHR ''*'' # b) = (False, a, CHR ''*'' # b)"
proof -
  from assms obtain c a' where a: "a = c # a'" "c \<noteq> CHR ''*''" by (cases a) auto
  show ?thesis
    using scan_end_literal [OF assms(1), of b] a by (simp add: scanChunk_def Let_def)
qed

lemma matchChunk_literal_failed: "literal_glob p \<Longrightarrow> matchChunk p s True = Some None"
  by (induction p arbitrary: s) (simp_all add: matchChunk_Nil matchChunk_lit)

lemma matchChunk_literal:
  "literal_glob p \<Longrightarrow> matchChunk p s False = Some (if HasPrefix s p then Some (drop (length p) s) else None)"
proof (induction p arbitrary: s)
  case (Cons c p)
  then have IH: "matchChunk p t False = Some (if HasPrefix t p then Some (drop (length p) t) else None)"
    for t by simp
  show ?case
  proof (cases s)
    case Nil
    with Cons.prems show ?thesis by (simp add: matchChunk_lit matchChunk_literal_failed HasPrefix_def)
  next
    case (Cons d s')
    with \<open>literal_glob (c # p)\<close> IH show ?thesis
      by (cases "c = d") (simp_all add: matchChunk_lit matchChunk_literal_failed HasPrefix_def)
  qed
qed (simp add: matchChunk_Nil HasPrefix_def)

lemma star_search_literal:
  assumes "literal_glob q"
  shows "star_search q True n =
    Some (if \<exists>u. u \<noteq> [] \<and> n = u @ q \<and> CHR ''/'' \<notin> set u then Some [] else None)"
proof (induction n)
  case (Cons c n)
  have ex: "(\<exists>u. u \<noteq> [] \<and> c # n = u @ q \<and> CHR ''/'' \<notin> set u) \<longleftrightarrow>
      c \<noteq> CHR ''/'' \<and> (n = q \<or> (\<exists>u. u \<noteq> [] \<and> n = u @ q \<and> CHR ''/'' \<notin> set u))"
    (is "?l \<longleftrightarrow> ?r")
  proof
    assume ?l
    then obtain u where u: "u \<noteq> []" "c # n = u @ q" "CHR ''/'' \<notin> set u" by blast
    then obtain v where v: "u = c # v" by (cases u) auto
    with u show ?r by (cases v) auto
  next
    assume r: ?r
    then show ?l
    proof (elim conjE disjE exE)
      assume "n = q" "c \<noteq> CHR ''/''"
      then show ?l by (intro exI [of _ "[c]"]) auto
    next
      fix u assume "c \<noteq> CHR ''/''" "n = u @ q" "CHR ''/'' \<notin> set u"
      then show ?l by (intro exI [of _ "c # u"]) auto
    qed
  qed
  have m: "matchChunk q n False = Some (if HasPrefix n q then Some (drop (length q) n) else None)"
    using assms by (rule matchChunk_literal)
  have full: "HasPrefix n q \<and> length n \<le> length q \<longleftrightarrow> n = q"
    by (auto simp: HasPrefix_iff)
  show ?case unfolding ex using Cons m full by auto
qed (use assms in auto)

text \<open>
  A pattern \<open>a*b\<close> whose parts have no meta characters matches the names that start with \<open>a\<close>, end
  with \<open>b\<close> and have no slash between.
\<close>

lemma path_match_star_literal:
  assumes "literal_glob b"
  shows "path_match (CHR ''*'' # b) n = Some (\<exists>u. n = u @ b \<and> CHR ''/'' \<notin> set u)"
proof -
  have m: "matchChunk b n False = Some (if HasPrefix n b then Some (drop (length b) n) else None)"
    using assms by (rule matchChunk_literal)
  have full: "HasPrefix n b \<and> length n \<le> length b \<longleftrightarrow> n = b" by (auto simp: HasPrefix_iff)
  have ex: "(\<exists>u. n = u @ b \<and> CHR ''/'' \<notin> set u) \<longleftrightarrow>
      n = b \<or> (\<exists>u. u \<noteq> [] \<and> n = u @ b \<and> CHR ''/'' \<notin> set u)"
    by (metis append_Nil empty_iff empty_set)
  show ?thesis
  proof (cases "b = []")
    case True
    then show ?thesis by (subst path_match.simps) (simp add: scanChunk_star_literal)
  next
    case False
    then show ?thesis
      unfolding ex using assms m full star_search_literal [OF assms, of n]
      by (subst path_match.simps)
        (auto simp: scanChunk_star_literal path_match.simps [of "[]"] check_rest.simps [of "[]"])
  qed
qed

lemma path_match_literal:
  assumes "literal_glob a"
  shows "path_match a n = Some (n = a)"
proof (cases "a = []")
  case True
  then show ?thesis by (simp add: path_match.simps)
next
  case False
  have "HasPrefix n a \<and> length n \<le> length a \<longleftrightarrow> n = a" by (auto simp: HasPrefix_iff)
  with assms False show ?thesis
    by (subst path_match.simps)
      (auto simp: scanChunk_literal matchChunk_literal path_match.simps [of "[]"] check_rest.simps [of "[]"])
qed

lemma path_match_infix_star:
  assumes "literal_glob a" "literal_glob b"
  shows "path_match (a @ CHR ''*'' # b) n = Some (\<exists>u. n = a @ u @ b \<and> CHR ''/'' \<notin> set u)"
proof (cases "a = []")
  case True
  with assms show ?thesis by (simp add: path_match_star_literal)
next
  case False
  have cr: "check_rest (CHR ''*'' # b) = Some False"
    using assms(2) matchChunk_literal [OF assms(2), of "[]"]
    by (subst check_rest.simps) (simp add: scanChunk_star_literal check_rest.simps [of "[]"])
  show ?thesis
    using False assms cr
    by (subst path_match.simps)
      (auto simp: scanChunk_literal_star matchChunk_literal path_match_star_literal HasPrefix_iff)
qed


subsection \<open>Lowering a pattern keeps it well formed\<close>

text \<open>
  The rule validator checks a glob as written, the engine matches its lower-case form. For ASCII
  patterns the two are malformed together: lowering touches no meta character.
\<close>

abbreviation lower_all :: "string \<Rightarrow> string" where
  "lower_all \<equiv> map ascii_lower"

lemma meta_bytes [simp]:
  "ascii_lower c = CHR ''*'' \<longleftrightarrow> c = CHR ''*''" "ascii_lower c = CHR ''?'' \<longleftrightarrow> c = CHR ''?''"
  "ascii_lower c = CHR ''['' \<longleftrightarrow> c = CHR ''[''" "ascii_lower c = CHR '']'' \<longleftrightarrow> c = CHR '']''"
  "ascii_lower c = CHR ''-'' \<longleftrightarrow> c = CHR ''-''" "ascii_lower c = CHR ''^'' \<longleftrightarrow> c = CHR ''^''"
  "ascii_lower c = CHR 0x5C \<longleftrightarrow> c = CHR 0x5C" "ascii_lower c = CHR ''/'' \<longleftrightarrow> c = CHR ''/''"
  by (rule ascii_lower_eq_iff, simp)+

lemma getEsc_lower:
  "is_ascii c \<Longrightarrow> map_option snd (getEsc (lower_all c)) = map_option lower_all (map_option snd (getEsc c))"
proof -
  assume a: "is_ascii c"
  have dec: "DecodeRune (x # xs) = (byte_of x, 1)" if "byte_of x < 128" for x xs
    using that by (rule DecodeRune_ascii)
  have low: "byte_of (ascii_lower x) < 128" if "byte_of x < 128" for x
    using that by (simp add: byte_ascii_lower)
  have ne: "byte_of x \<noteq> rune_error" if "byte_of x < 128" for x
    using that by (simp add: rune_error_def)
  show ?thesis
  proof (cases c)
    case (Cons x xs)
    show ?thesis
    proof (cases "x = CHR 0x5C")
      case True
      with a Cons show ?thesis
        by (cases xs) (auto simp: getEsc_def Let_def dec low ne map_tl)
    next
      case False
      with a Cons show ?thesis by (auto simp: getEsc_def Let_def dec low ne)
    qed
  qed (simp add: getEsc_def)
qed


lemma getEsc_ascii_rest: "is_ascii c \<Longrightarrow> getEsc c = Some (r, c') \<Longrightarrow> is_ascii c'"
proof -
  have drop: "is_ascii (drop n s)" if "is_ascii s" for n s
    using that by (auto simp: is_ascii_def list_all_iff dest: in_set_dropD)
  show "is_ascii c \<Longrightarrow> getEsc c = Some (r, c') \<Longrightarrow> is_ascii c'"
    by (cases c) (auto simp: getEsc_def Let_def drop split: if_splits prod.splits)
qed

definition class_next :: "string \<Rightarrow> string option" where
  "class_next c = map_option (\<lambda>(_, _, c'). c') (class_range c)"

lemma class_next_eq:
  "class_next c = (case map_option snd (getEsc c) of None \<Rightarrow> None
     | Some c1 \<Rightarrow> if hd c1 = CHR ''-'' then map_option snd (getEsc (tl c1)) else Some c1)"
  by (auto simp: class_next_def class_range_def split: option.splits)

lemma class_next_lower:
  assumes "is_ascii c"
  shows "class_next (lower_all c) = map_option lower_all (class_next c)"
proof (cases "getEsc c")
  case None
  with getEsc_lower [OF assms] show ?thesis by (simp add: class_next_eq)
next
  case (Some rc)
  obtain r c1 where rc: "rc = (r, c1)" by (cases rc)
  have ne: "c1 \<noteq> []" and a1: "is_ascii c1"
    using Some rc getEsc_less [of c r c1] getEsc_ascii_rest [OF assms] by auto
  then have h: "hd (lower_all c1) = CHR ''-'' \<longleftrightarrow> hd c1 = CHR ''-''" by (simp add: hd_map)
  have a2: "is_ascii (tl c1)" using a1 by (cases c1) auto
  have g: "map_option snd (getEsc (lower_all c)) = Some (lower_all c1)"
    using getEsc_lower [OF assms] Some rc by simp
  show ?thesis
    unfolding class_next_eq [of "lower_all c"] g class_next_eq [of c]
    using Some rc h getEsc_lower [OF a2] by (simp add: map_tl)
qed

lemma class_next_ascii: "is_ascii c \<Longrightarrow> class_next c = Some c' \<Longrightarrow> is_ascii c'"
proof -
  assume a: "is_ascii c" and n: "class_next c = Some c'"
  then obtain r c1 where g: "getEsc c = Some (r, c1)"
    and r: "if hd c1 = CHR ''-'' then map_option snd (getEsc (tl c1)) = Some c' else c1 = c'"
    by (auto simp: class_next_eq split: option.splits if_splits)
  have a1: "is_ascii c1" using getEsc_ascii_rest [OF a g] .
  then have "is_ascii (tl c1)" by (cases c1) auto
  with r a1 show "is_ascii c'" by (auto split: if_splits dest: getEsc_ascii_rest)
qed

lemma class_ranges_rest:
  "map_option snd (class_ranges c r seen m) =
     (if c \<noteq> [] \<and> hd c = CHR '']'' \<and> seen then Some (tl c)
      else case class_next c of None \<Rightarrow> None
        | Some c2 \<Rightarrow> map_option snd (class_ranges c2 0 True False))"
proof -
  have "map_option snd (class_ranges c2 q True k) = map_option snd (class_ranges c2 0 True False)" for c2 q k
    by (rule class_ranges_indep)
  then show ?thesis
    by (subst class_ranges.simps) (simp add: class_next_def split: option.split)
qed

lemma class_ranges_lower:
  "is_ascii c \<Longrightarrow> map_option snd (class_ranges (lower_all c) 0 seen False) =
     map_option lower_all (map_option snd (class_ranges c 0 seen False))"
proof (induction c arbitrary: seen rule: length_induct)
  case (1 c)
  have h: "hd (lower_all c) = CHR '']'' \<longleftrightarrow> hd c = CHR '']''" if "c \<noteq> []"
    using that by (simp add: hd_map)
  show ?case
  proof (cases "c \<noteq> [] \<and> hd c = CHR '']'' \<and> seen")
    case True
    with h show ?thesis
      unfolding class_ranges_rest [of "lower_all c"] class_ranges_rest [of c] by (simp add: map_tl)
  next
    case stop: False
    then have stop': "\<not> (lower_all c \<noteq> [] \<and> hd (lower_all c) = CHR '']'' \<and> seen)" using h by auto
    show ?thesis
    proof (cases "class_next c")
      case None
      with stop stop' class_next_lower [OF "1.prems"] show ?thesis
        unfolding class_ranges_rest [of "lower_all c"] class_ranges_rest [of c] by auto
    next
      case (Some c2)
      then obtain lo hi where "class_range c = Some (lo, hi, c2)" by (auto simp: class_next_def)
      then have "length c2 < length c" by (rule class_range_less)
      then have "map_option snd (class_ranges (lower_all c2) 0 True False) =
          map_option lower_all (map_option snd (class_ranges c2 0 True False))"
        using "1.IH" class_next_ascii [OF "1.prems" Some] by blast
      with Some stop stop' class_next_lower [OF "1.prems"] show ?thesis
        unfolding class_ranges_rest [of "lower_all c"] class_ranges_rest [of c] by auto
    qed
  qed
qed

lemma class_ranges_ascii:
  "is_ascii c \<Longrightarrow> map_option snd (class_ranges c 0 seen False) = Some c' \<Longrightarrow> is_ascii c'"
proof (induction c arbitrary: seen rule: length_induct)
  case (1 c)
  show ?case
  proof (cases "c \<noteq> [] \<and> hd c = CHR '']'' \<and> seen")
    case True
    with "1.prems" show ?thesis
      unfolding class_ranges_rest [of c] by (cases c) auto
  next
    case False
    with "1.prems"(2) obtain c2 where n: "class_next c = Some c2"
      and r: "map_option snd (class_ranges c2 0 True False) = Some c'"
      unfolding class_ranges_rest [of c] by (auto split: option.splits)
    then obtain lo hi where "class_range c = Some (lo, hi, c2)" by (auto simp: class_next_def)
    then have "length c2 < length c" by (rule class_range_less)
    with "1.IH" class_next_ascii [OF "1.prems"(1) n] r show ?thesis by blast
  qed
qed

text \<open>The parts of a chunk as a parser of its own: \<open>None\<close> malformed, \<open>Some\<close> of the rest.\<close>

definition chunk_next :: "string \<Rightarrow> string option" where
  "chunk_next c =
     (if hd c = CHR ''['' then map_option snd (class_ranges (class_body (tl c)) 0 False False)
      else if hd c = CHR 0x5C then (if tl c = [] then None else Some (tl (tl c)))
      else Some (tl c))"

lemma chunk_ok_step:
  "c \<noteq> [] \<Longrightarrow> chunk_ok c \<longleftrightarrow> (\<exists>c'. chunk_next c = Some c' \<and> chunk_ok c')"
proof (cases c rule: chunk_cases)
  case (cls c1)
  then show ?thesis
    using matchChunk_None_iff
    by (auto simp: chunk_ok_def [of "CHR ''['' # c1"] chunk_next_def matchChunk_class
        split: option.splits dest: chunk_okI)
next
  case (lit a c1)
  then show ?thesis
    using matchChunk_None_iff [of c1] by (auto simp: chunk_ok_def [of "a # c1"] chunk_next_def matchChunk_lit)
next
  case (qm c1)
  then show ?thesis
    using matchChunk_None_iff [of c1] by (auto simp: chunk_ok_def [of "CHR ''?'' # c1"] chunk_next_def matchChunk_any)
next
  case (esc c1)
  then show ?thesis
    using matchChunk_None_iff [of "tl c1"] by (auto simp: chunk_ok_def [of "CHR 0x5C # c1"] chunk_next_def matchChunk_esc
        split: if_splits dest: chunk_okI)
qed simp


lemma class_body_lower: "class_body (lower_all c) = lower_all (class_body c)"
  by (cases c) (auto simp: class_body_def)

lemma chunk_next_lower:
  assumes "c \<noteq> []" "is_ascii c"
  shows "chunk_next (lower_all c) = map_option lower_all (chunk_next c)"
proof -
  obtain a c1 where c: "c = a # c1" using assms(1) by (cases c) auto
  have "is_ascii (class_body c1)" using assms(2) c by (cases c1) (auto simp: class_body_def)
  from class_ranges_lower [OF this] show ?thesis
    by (auto simp: c chunk_next_def class_body_lower map_tl)
qed

lemma chunk_next_ascii: "c \<noteq> [] \<Longrightarrow> is_ascii c \<Longrightarrow> chunk_next c = Some c' \<Longrightarrow> is_ascii c'"
proof -
  assume ne: "c \<noteq> []" and a: "is_ascii c" and n: "chunk_next c = Some c'"
  obtain x c1 where c: "c = x # c1" using ne by (cases c) auto
  have "is_ascii (class_body c1)" using a c by (cases c1) (auto simp: class_body_def)
  note cls = class_ranges_ascii [OF this, of False c']
  from a c have "is_ascii (tl c1)" by (cases c1) auto
  with n a c cls show ?thesis by (auto simp: chunk_next_def split: if_splits)
qed

lemma chunk_next_less: "c \<noteq> [] \<Longrightarrow> chunk_next c = Some c' \<Longrightarrow> length c' < length c"
proof -
  assume ne: "c \<noteq> []" and n: "chunk_next c = Some c'"
  obtain x c1 where c: "c = x # c1" using ne by (cases c) auto
  have "length (class_body c1) \<le> length c1" by (auto simp: class_body_def)
  with n c show ?thesis
    by (auto simp: chunk_next_def split: if_splits dest!: class_ranges_less)
qed

lemma chunk_ok_lower: "is_ascii c \<Longrightarrow> chunk_ok (lower_all c) \<longleftrightarrow> chunk_ok c"
proof (induction c rule: length_induct)
  case (1 c)
  show ?case
  proof (cases "c = []")
    case False
    have IH: "chunk_ok (lower_all c') \<longleftrightarrow> chunk_ok c'" if "chunk_next c = Some c'" for c'
      using "1.IH" chunk_next_less [OF False that] chunk_next_ascii [OF False "1.prems" that] by blast
    have "chunk_ok (lower_all c) \<longleftrightarrow> (\<exists>c'. chunk_next (lower_all c) = Some c' \<and> chunk_ok c')"
      using False by (intro chunk_ok_step) simp
    also have "\<dots> \<longleftrightarrow> (\<exists>c'. chunk_next c = Some c' \<and> chunk_ok c')"
      using IH chunk_next_lower [OF False "1.prems"] by auto
    also have "\<dots> \<longleftrightarrow> chunk_ok c" using chunk_ok_step [OF False] by simp
    finally show ?thesis .
  qed simp
qed

lemma scan_end_lower:
  "scan_end r (lower_all s) = (lower_all (fst (scan_end r s)), lower_all (snd (scan_end r s)))"
proof (induction r s rule: scan_end.induct)
  case (2 r c s)
  show ?case
  proof (cases "c = CHR 0x5C")
    case True
    with "2.IH" show ?thesis by (cases s) (simp_all add: Let_def case_prod_beta)
  next
    case False
    with "2.IH"(2) show ?thesis
      by (cases "c = CHR '']''"; cases "c = CHR ''[''") (simp_all add: Let_def case_prod_beta)
  qed
qed simp

lemma scanChunk_lower:
  assumes "scanChunk p = (star, chunk, rest)"
  shows "scanChunk (lower_all p) = (star, lower_all chunk, lower_all rest)"
proof -
  have "dropWhile (\<lambda>c. c = CHR ''*'') (lower_all p) = lower_all (dropWhile (\<lambda>c. c = CHR ''*'') p)"
    by (simp add: dropWhile_map comp_def)
  with assms show ?thesis
    by (cases p) (auto simp: scanChunk_def Let_def scan_end_lower)
qed

lemma scanChunk_ascii:
  assumes "scanChunk p = (star, chunk, rest)" "is_ascii p"
  shows "is_ascii chunk \<and> is_ascii rest"
proof -
  let ?p = "dropWhile (\<lambda>c. c = CHR ''*'') p"
  have "is_ascii ?p"
    using assms(2) by (auto simp: is_ascii_def list_all_iff dest: set_dropWhileD)
  moreover have "?p = chunk @ rest"
    using assms(1) by (intro scan_end_append [of False]) (simp add: scanChunk_def Let_def)
  ultimately show ?thesis by simp
qed

lemma check_rest_lower: "is_ascii p \<Longrightarrow> check_rest (lower_all p) \<noteq> None \<longleftrightarrow> check_rest p \<noteq> None"
proof (induction p rule: length_induct)
  case (1 p)
  show ?case
  proof (cases "p = []")
    case False
    obtain star chunk rest where sc: "scanChunk p = (star, chunk, rest)" by (cases "scanChunk p")
    have a: "is_ascii chunk" "is_ascii rest" using scanChunk_ascii [OF sc "1.prems"] by simp_all
    have "check_rest (lower_all rest) \<noteq> None \<longleftrightarrow> check_rest rest \<noteq> None"
      using "1.IH" scanChunk_less [OF False sc] a(2) by blast
    then show ?thesis
      using check_rest_step [OF False sc] check_rest_step [OF _ scanChunk_lower [OF sc]] False
        chunk_ok_lower [OF a(1)] by auto
  qed simp
qed

lemma path_match_lower_total:
  assumes "is_ascii p" "path_match p [] \<noteq> None"
  shows "path_match (lower_all p) n \<noteq> None"
  using check_rest_if_match_empty [OF assms(2)] check_rest_lower [OF assms(1)] path_match_total by blast

end
