(* ===== verification/Engine.thy ===== *)
theory Engine
  imports Models GoPath
begin

section \<open>The rule engine (\<open>internal/rules/engine.go\<close>)\<close>

text \<open>
  \<open>Engine\<close> holds the enabled rules in evaluation order. \<open>Match\<close> evaluates a snapshot of them against
  an email; the metric counters it bumps are not modelled, and neither is the mutex, which makes
  \<open>SetRules\<close> and the snapshot single steps. A pattern between slashes is a regular expression
  (\<open>re_compile\<close> of the library parameter), any other pattern a lower-cased glob.
\<close>

subsection \<open>Patterns\<close>

definition is_regex :: "string \<Rightarrow> bool" where
  "is_regex p = (2 \<le> length p \<and> hd p = CHR ''/'' \<and> last p = CHR ''/'')"

definition regex_body :: "string \<Rightarrow> string" where
  "regex_body p = butlast (tl p)"

definition matchPattern :: "'z golib_scheme \<Rightarrow> string \<Rightarrow> string \<Rightarrow> bool" where
  "matchPattern G pattern0 value0 =
     (let pattern = TrimSpace pattern0; value = TrimSpace value0 in
      if is_regex pattern then
        (case re_compile G (regex_body pattern) of None \<Rightarrow> False | Some re \<Rightarrow> re value)
      else
        (case path_match (ToLower G pattern) (ToLower G value) of None \<Rightarrow> False | Some matched \<Rightarrow> matched))"

fun matchAny :: "'z golib_scheme \<Rightarrow> string \<Rightarrow> string list \<Rightarrow> bool" where
  "matchAny G pattern [] = False"
| "matchAny G pattern (v # vs) = (if matchPattern G pattern v then True else matchAny G pattern vs)"

lemma matchAny_iff: "matchAny G p vs \<longleftrightarrow> (\<exists>v\<in>set vs. matchPattern G p v)"
  by (induction vs) auto

subsection \<open>Conditions and rules\<close>

definition matchCondition :: "'z golib_scheme \<Rightarrow> MatchCondition \<Rightarrow> ParsedEmail \<Rightarrow> bool" where
  "matchCondition G c email =
     (let f = mc_Field c; p = mc_Pattern c in
      if f = ''from'' then matchPattern G p (pe_From email)
      else if f = ''to'' then matchAny G p (pe_To email)
      else if f = ''cc'' then matchAny G p (pe_CC email)
      else if f = ''mail_from'' then matchPattern G p (pe_EnvelopeFrom email)
      else if f = ''rcpt_to'' then matchAny G p (pe_EnvelopeTo email)
      else if f = ''subject'' then matchPattern G p (pe_Subject email)
      else if f = ''from_domain'' then matchPattern G p (HeaderFromDomain G email)
      else if f = ''to_domain'' then matchAny G p (HeaderToDomains G email)
      else if f = ''mail_from_domain'' then matchPattern G p (FromDomain G email)
      else if f = ''rcpt_to_domain'' then matchAny G p (ToDomains G email)
      else if f = ''header'' then
        (if mc_Header c = [] then False
         else matchAny G p (header_values (pe_Headers email) (CanonicalHeaderKey (mc_Header c))))
      else if f = ''body'' then matchPattern G p (pe_TextBody email) \<or> matchPattern G p (pe_HTMLBody email)
      else False)"

text \<open>The loop over the conditions, with its early returns.\<close>

fun match_loop :: "'z golib_scheme \<Rightarrow> string \<Rightarrow> MatchCondition list \<Rightarrow> ParsedEmail \<Rightarrow> bool" where
  "match_loop G mode [] email = (mode = ''all'')"
| "match_loop G mode (cond # conds) email =
     (let hit = matchCondition G cond email in
      if mode = ''any'' \<and> hit then True
      else if mode = ''all'' \<and> \<not> hit then False
      else match_loop G mode conds email)"

definition matchRule :: "'z golib_scheme \<Rightarrow> MatcherConfig \<Rightarrow> ParsedEmail \<Rightarrow> bool" where
  "matchRule G m email =
     (let conds = m_Conditions m in
      if length conds = 0 then True else match_loop G (EffectiveMode m) conds email)"

subsection \<open>The engine\<close>

record Engine =
  eng_rules :: "Rule list"

definition NewEngine :: Engine where
  "NewEngine = \<lparr>eng_rules = []\<rparr>"

definition SetRules :: "Engine \<Rightarrow> Rule list \<Rightarrow> Engine" where
  "SetRules e rules = e\<lparr>eng_rules := rules\<rparr>"

fun find_secret :: "Rule list \<Rightarrow> string \<Rightarrow> string \<times> bool" where
  "find_secret [] name = ([], False)"
| "find_secret (r # rs) name =
     (if ru_Name r = name then (wh_SigningSecret (ru_Webhook r), True) else find_secret rs name)"

definition SigningSecret :: "Engine \<Rightarrow> string \<Rightarrow> string \<times> bool" where
  "SigningSecret e name = find_secret (eng_rules e) name"

fun match_rules :: "'z golib_scheme \<Rightarrow> Rule list \<Rightarrow> ParsedEmail \<Rightarrow> Rule list" where
  "match_rules G [] email = []"
| "match_rules G (rule # rules) email =
     (if matchRule G (ru_Match rule) email then rule # match_rules G rules email
      else match_rules G rules email)"

definition Match :: "'z golib_scheme \<Rightarrow> Engine \<Rightarrow> ParsedEmail \<Rightarrow> Rule list" where
  "Match G e email = match_rules G (eng_rules e) email"

subsection \<open>Lemmas\<close>

lemma match_loop_all: "match_loop G ''all'' cs e \<longleftrightarrow> (\<forall>c\<in>set cs. matchCondition G c e)"
  by (induction cs) (auto simp: Let_def)

lemma match_loop_any: "match_loop G ''any'' cs e \<longleftrightarrow> (\<exists>c\<in>set cs. matchCondition G c e)"
  by (induction cs) (auto simp: Let_def)

lemma match_rules_filter: "match_rules G rs e = filter (\<lambda>r. matchRule G (ru_Match r) e) rs"
  by (induction rs) auto

lemma find_secret_found:
  "distinct (map ru_Name rs) \<Longrightarrow> r \<in> set rs \<Longrightarrow>
   find_secret rs (ru_Name r) = (wh_SigningSecret (ru_Webhook r), True)"
  by (induction rs) (auto simp: image_iff)

lemma find_secret_missing: "name \<notin> ru_Name ` set rs \<longleftrightarrow> \<not> snd (find_secret rs name)"
  by (induction rs) auto

lemma matchPattern_glob:
  "\<not> is_regex (TrimSpace p) \<Longrightarrow> matchPattern G p v \<longleftrightarrow>
   path_match (ToLower G (TrimSpace p)) (ToLower G (TrimSpace v)) = Some True"
  by (auto simp: matchPattern_def Let_def split: option.splits)

lemma literal_glob_lower: "literal_glob (lower_all p) = literal_glob p"
  by (induction p) auto

subsection \<open>Properties\<close>

text \<open>
  C17: A rule matches exactly when it has no conditions (a catch-all), or its mode is \<open>any\<close> and one
  of its conditions holds, or its mode is anything else and all of them hold; \<open>Match\<close> returns all
  the rules that match, none else, in the order the engine holds them.
\<close>

theorem Match_spec:
  "Match G e email = filter (\<lambda>r.
      let m = ru_Match r; cs = set (m_Conditions m) in
        cs = {} \<or> (if m_Mode m = ''any'' then \<exists>c. c \<in> cs \<and> matchCondition G c email
                   else cs = {c. c \<in> cs \<and> matchCondition G c email})) (eng_rules e)"
proof -
  have "matchRule G m email \<longleftrightarrow> (set (m_Conditions m) = {} \<or>
      (if m_Mode m = ''any'' then \<exists>c. c \<in> set (m_Conditions m) \<and> matchCondition G c email
       else set (m_Conditions m) = {c. c \<in> set (m_Conditions m) \<and> matchCondition G c email}))" for m
    by (auto simp: matchRule_def EffectiveMode_def match_loop_all match_loop_any Let_def)
  then show ?thesis by (simp add: Match_def match_rules_filter Let_def)
qed

text \<open>
  A glob \<open>a*b\<close> without other meta characters matches a header or address value, both ASCII,
  exactly when the trimmed value, ignoring case, starts with \<open>a\<close> and ends with \<open>b\<close> around a part
  without a slash: the case of pattern and value never matters.
\<close>

theorem matchPattern_infix_star:
  assumes "literal_glob a" "literal_glob b" "is_ascii (a @ b)" "is_ascii (TrimSpace v)"
    and "TrimSpace (a @ CHR ''*'' # b) = a @ CHR ''*'' # b" "\<not> is_regex (a @ CHR ''*'' # b)"
  shows "matchPattern G (a @ CHR ''*'' # b) v \<longleftrightarrow>
    (\<exists>u. lower_all (TrimSpace v) = lower_all a @ u @ lower_all b \<and> CHR ''/'' \<notin> set u)"
proof -
  have star: "ascii_lower CHR ''*'' = CHR ''*''" by simp
  show ?thesis
    using assms
    by (simp add: matchPattern_glob ToLower_ascii star path_match_infix_star literal_glob_lower)
qed

theorem matchPattern_infix_star_witness:
  "matchPattern ascii_lib ''Alerts@*.Example.com'' '' alerts@mail.EXAMPLE.com ''"
proof -
  have t: "TrimSpace '' alerts@mail.EXAMPLE.com '' = ''alerts@mail.EXAMPLE.com''"
    "TrimSpace (''Alerts@'' @ CHR ''*'' # ''.Example.com'') = ''Alerts@'' @ CHR ''*'' # ''.Example.com''"
    by code_simp+
  have l: "lower_all ''alerts@mail.EXAMPLE.com'' = lower_all ''Alerts@'' @ ''mail'' @ lower_all ''.Example.com''"
    by code_simp
  have "matchPattern ascii_lib (''Alerts@'' @ CHR ''*'' # ''.Example.com'') '' alerts@mail.EXAMPLE.com '' \<longleftrightarrow>
    (\<exists>u. lower_all ''alerts@mail.EXAMPLE.com'' = lower_all ''Alerts@'' @ u @ lower_all ''.Example.com''
       \<and> CHR ''/'' \<notin> set u)"
    by (rule matchPattern_infix_star [of "''Alerts@''" "''.Example.com''" "'' alerts@mail.EXAMPLE.com ''" ascii_lib,
          unfolded t(1)]) (simp_all add: t(2) [simplified] is_regex_def)
  moreover have "CHR ''/'' \<notin> set ''mail''" by simp
  ultimately have "matchPattern ascii_lib (''Alerts@'' @ CHR ''*'' # ''.Example.com'') '' alerts@mail.EXAMPLE.com ''"
    using l by blast
  then show ?thesis by simp
qed

end
