(* ===== verification/DispatchProps.thy ===== *)
theory DispatchProps
  imports Dispatch Engine
begin

section \<open>Sending webhooks: what it guarantees\<close>

text \<open>
  Bounds on the wait between attempts, what a request carries, that a signed delivery is never sent
  unsigned and its secret never stored, what an answer means, and that the queue and the loop
  without a queue agree. The witnesses use the library \<open>demo_web\<close>.
\<close>

subsection \<open>Backoff\<close>

lemma excess_bits_small: "n < 2 ^ 53 \<Longrightarrow> excess_bits n = 0"
  by (simp add: excess_bits.simps)

lemma float64_exact: "\<bar>x\<bar> < 2 ^ 53 \<Longrightarrow> float64 x = x"
proof -
  assume "\<bar>x\<bar> < 2 ^ 53"
  then have "nat \<bar>x\<bar> < 2 ^ 53" by (simp add: nat_less_iff)
  then have "float64 x = sgn x * \<bar>x\<bar>"
    unfolding float64_def excess_bits_small [OF \<open>nat \<bar>x\<bar> < 2 ^ 53\<close>] by (simp add: round_even_def)
  then show ?thesis by (simp add: sgn_mult_abs)
qed

lemma backoff_le_max: "backoff oob r n \<le> rc_MaxWait r"
  by (simp add: backoff_def Let_def)

text \<open>
  With a wait below 104 days, and as long as the doubled wait fits in 64 bits, the wait before
  attempt \<open>n + 1\<close> is the initial wait doubled \<open>n - 1\<close> times, cut off at the maximum.
\<close>

theorem backoff_doubles:
  assumes "0 \<le> rc_InitialWait r" "rc_InitialWait r < 2 ^ 53"
    and "1 \<le> n" "rc_InitialWait r * 2 ^ nat (n - 1) < 2 ^ 63" "n \<le> 1024"
  shows "backoff oob r n = min (rc_InitialWait r * 2 ^ nat (n - 1)) (rc_MaxWait r)"
proof -
  have "0 \<le> rc_InitialWait r * 2 ^ nat (n - 1)" using assms(1) by simp
  then have "- (2 ^ 63) \<le> rc_InitialWait r * 2 ^ nat (n - 1)" by (rule order_trans [rotated]) simp
  with assms show ?thesis by (simp add: backoff_def Let_def float64_exact)
qed

theorem backoff_doubles_witness:
  "backoff amd64_oob \<lparr>rc_MaxRetries = 5, rc_InitialWait = 1000000000, rc_MaxWait = 30000000000,
     rc_Timeout = 0, rc_RetryOnTimeout = True\<rparr> 4 = 8000000000"
  using backoff_doubles [of "\<lparr>rc_MaxRetries = 5, rc_InitialWait = 1000000000, rc_MaxWait = 30000000000,
     rc_Timeout = 0, rc_RetryOnTimeout = True\<rparr>" 4 amd64_oob] by simp



subsection \<open>Requests\<close>

text \<open>The names \<open>setSigningHeaders\<close> sets are canonical.\<close>

lemma canonical_names:
  "CanonicalHeaderKey ''X-Mailrelay-Timestamp'' = ''X-Mailrelay-Timestamp''"
  "CanonicalHeaderKey ''X-Mailrelay-Signature'' = ''X-Mailrelay-Signature''"
  "CanonicalHeaderKey ''X-Mailrelay-Delivery'' = ''X-Mailrelay-Delivery''"
  "CanonicalHeaderKey ''Content-Type'' = ''Content-Type''"
  "CanonicalHeaderKey ''User-Agent'' = ''User-Agent''"
  by code_simp+

lemma setSigningHeaders_eq:
  "secret \<noteq> [] \<Longrightarrow> setSigningHeaders W unix payload secret i h = h
     (''X-Mailrelay-Timestamp'' \<mapsto> FormatInt unix,
      ''X-Mailrelay-Signature'' \<mapsto> ''sha256='' @ hex_encode (hmac_sha256 W secret (FormatInt unix @ ''.'' @ payload)),
      ''X-Mailrelay-Delivery'' \<mapsto> i)"
  by (simp add: setSigningHeaders_def Let_def header_set_def canonical_names)

lemma send_request:
  "send W sd rt rule payload timeout i = (req, ans) \<Longrightarrow>
   req = (case build_request W sd rule payload timeout i of Inl _ \<Rightarrow> None | Inr r \<Rightarrow> Some r)"
  by (auto simp: send_def split: sum.splits)

text \<open>
  C21: A signed request carries the timestamp, the HMAC over timestamp and payload, and the delivery
  identifier, whatever headers the webhook configures and in whatever order they are set: custom
  headers cannot override or forge the signature. Its body is the payload, and redirects are off.
\<close>

theorem signature_not_overridable:
  assumes "build_request W sd rule payload timeout i = Inr req" "wh_SigningSecret (ru_Webhook rule) \<noteq> []"
  shows "hq_header req ''X-Mailrelay-Signature'' = Some (''sha256='' @ hex_encode
           (hmac_sha256 W (wh_SigningSecret (ru_Webhook rule)) (FormatInt (sd_unix sd) @ ''.'' @ payload)))
    \<and> hq_header req ''X-Mailrelay-Timestamp'' = Some (FormatInt (sd_unix sd))
    \<and> hq_header req ''X-Mailrelay-Delivery'' = Some i
    \<and> hq_body req = payload \<and> hq_no_redirect req"
proof -
  have "hq_header req = request_header W sd (ru_Webhook rule) payload i" "hq_body req = payload"
    "hq_no_redirect req"
    using assms by (auto simp: build_request_def Let_def split: option.splits)
  then show ?thesis
    using assms(2) by (auto simp: request_header_def Let_def setSigningHeaders_eq split: prod.split)
qed

definition demo_sender :: sender where
  "demo_sender = \<lparr>sd_userAgent = ''mailrelay/dev'', sd_range = (\<lambda>h. h), sd_unix = 1700000000\<rparr>"

definition demo_rule :: Rule where
  "demo_rule = \<lparr>ru_Name = ''alerts'', ru_Match = zero_matcher,
     ru_Webhook = zero_webhook\<lparr>wh_SigningSecret := ''k'', wh_URL := ''https://hook.test'',
       wh_Headers := Some [(''x-mailrelay-signature'', ''sha256=00''), (''content-type'', ''text/plain'')],
       wh_MaxRetries := Some 3\<rparr>\<rparr>"

theorem signature_not_overridable_witness:
  "case build_request demo_web demo_sender demo_rule ''{}'' 0 ''d1'' of
     Inl _ \<Rightarrow> False
   | Inr req \<Rightarrow> hq_header req ''X-Mailrelay-Signature'' = Some (''sha256='' @ hex_encode ''k1700000000.{}'')
       \<and> hq_header req ''X-Mailrelay-Delivery'' = Some ''d1''"
proof -
  have n: "new_request demo_web ''POST'' ''https://hook.test'' = None" "FormatInt 1700000000 = ''1700000000''"
    by (code_simp, simp add: FormatInt_def nat_digits.simps char_of_def bit_0 bit_Suc)
  obtain req where b: "build_request demo_web demo_sender demo_rule ''{}'' 0 ''d1'' = Inr req"
    using n(1) by (simp add: build_request_def demo_rule_def zero_webhook_def)
  have "wh_SigningSecret (ru_Webhook demo_rule) = ''k''" "sd_unix demo_sender = 1700000000"
    by (simp_all add: demo_rule_def demo_sender_def)
  then show ?thesis
    using signature_not_overridable [OF b] by (simp add: b n(2)) (simp add: demo_web_def)
qed

subsection \<open>Secrets\<close>

text \<open>
  C20: The queue never stores a signing secret: in every row that \<open>Enqueue\<close> adds, the snapshot's rule
  has an empty secret and the \<open>Signed\<close> flag records whether the rule had one; the request is otherwise
  the rule's own, with its payload and effective retry settings.
\<close>

theorem Enqueue_stores_no_secret:
  assumes "Enqueue W global uuid now emailID email rules s = (err, s')"
    and "q \<in> set (t_queue s')" "q \<notin> set (t_queue s)"
  shows "\<exists>r snap. r \<in> set rules \<and> q_snapshot q = Some snap
    \<and> wh_SigningSecret (ru_Webhook (sn_Rule snap)) = []
    \<and> (sn_Signed snap \<longleftrightarrow> wh_SigningSecret (ru_Webhook r) \<noteq> [])
    \<and> (sn_Rule snap)\<lparr>ru_Webhook := (ru_Webhook (sn_Rule snap))\<lparr>wh_SigningSecret := wh_SigningSecret (ru_Webhook r)\<rparr>\<rparr> = r
    \<and> sn_Retry snap = effective_retry global (ru_Webhook r)
    \<and> (case buildPayload W email (ru_Webhook r) of
         Inr p \<Rightarrow> sn_Payload snap = p \<and> sn_PayloadError snap = []
       | Inl e \<Rightarrow> sn_PayloadError snap = e)"
proof -
  have new: "\<exists>j. j \<in> set jobs \<and> q_snapshot q = Some (snd j)"
    if "enqueue_jobs uuid k b eid now jobs s1 = Inr s2" "q \<in> set (t_queue s2)" "q \<notin> set (t_queue s1)"
    for k b eid jobs s1 s2 and q :: "deliverySnapshot queue_row"
    using that
  proof (induction jobs arbitrary: k s1)
    case (Cons j js)
    from Cons.prems(1) obtain s3 where s3: "enqueue_job b eid now (uuid k) j s1 = Inr s3"
      "enqueue_jobs uuid (Suc k) b eid now js s3 = Inr s2"
      by (auto split: sum.splits)
    show ?case
    proof (cases "q \<in> set (t_queue s3)")
      case True
      with s3(1) Cons.prems(3) have "q = new_queue_row b eid now (uuid k) (snd j)"
        by (auto simp: enqueue_job_def insert_delivery_def insert_queue_def split: if_splits)
      then show ?thesis by (intro exI [of _ j]) (simp add: new_queue_row_def)
    next
      case False
      with Cons.IH [OF s3(2) Cons.prems(2)] show ?thesis by auto
    qed
  qed simp
  let ?jobs = "map (\<lambda>r. (ru_Name r, snapshot_of W global email r)) rules"
  from assms obtain s2 where "enqueue_jobs uuid 1 (uuid 0) emailID now ?jobs s = Inr s2"
    and "t_queue s' = t_queue s2"
    by (auto simp: Enqueue_def EnqueueDeliveries_def Let_def split: sum.splits)
  with new [of 1 "uuid 0" emailID ?jobs s s2 q] assms(2,3) obtain r where
    r: "r \<in> set rules" "q_snapshot q = Some (snapshot_of W global email r)"
    by auto
  show ?thesis
    by (rule exI [of _ r], rule exI [of _ "snapshot_of W global email r"])
      (use r in \<open>simp add: snapshot_of_def strip_secret_def Let_def split: sum.split\<close>)
qed

definition demo_parsed :: ParsedEmail where
  "demo_parsed = \<lparr>pe_From = ''a@x.test'', pe_To = [''b@y.test''], pe_CC = [], pe_Subject = ''Hi'',
     pe_TextBody = ''text'', pe_HTMLBody = [], pe_Headers = [(''Subject'', [''Hi''])], pe_Attachments = [],
     pe_AuthResult = None, pe_EnvelopeFrom = ''a@x.test'', pe_EnvelopeTo = [''b@y.test'']\<rparr>"

definition demo_retry :: RetryConfig where
  "demo_retry = \<lparr>rc_MaxRetries = 5, rc_InitialWait = 1000000000, rc_MaxWait = 60000000000,
     rc_Timeout = 10000000000, rc_RetryOnTimeout = True\<rparr>"

definition demo_queue :: "deliverySnapshot db" where
  "demo_queue = empty_db\<lparr>t_emails := [\<lparr>em_id = ''m1'', em_received_at = 10, em_envelope_from = ''a@x.test'',
     em_envelope_to = [''b@y.test''], em_header_from = [], em_header_to = [], em_subject = [],
     em_status = EmailStatusReceived, em_rejection_reason = [], em_parsed_email = None,
     em_auth_result = None, em_delivery_batch = []\<rparr>]\<rparr>"

definition demo_ids :: "nat \<Rightarrow> string" where
  "demo_ids k = replicate (Suc k) CHR ''i''"

theorem Enqueue_stores_no_secret_witness:
  "let s' = snd (Enqueue demo_web demo_retry demo_ids 60 ''m1'' demo_parsed [demo_rule] demo_queue);
       q = hd (t_queue s') in
   \<exists>snap. q_snapshot q = Some snap \<and> sn_Signed snap \<and> wh_SigningSecret (ru_Webhook (sn_Rule snap)) = []"
proof -
  define s' where "s' = snd (Enqueue demo_web demo_retry demo_ids 60 ''m1'' demo_parsed [demo_rule] demo_queue)"
  have q: "length (t_queue s') = 1"
    by (simp add: s'_def Enqueue_def EnqueueDeliveries_def enqueue_job_def insert_delivery_def insert_queue_def
        demo_queue_def empty_db_def email_exists_def delivery_exists_def new_delivery_def new_queue_row_def Let_def)
  have "t_queue demo_queue = []" by (simp add: demo_queue_def empty_db_def)
  moreover have "hd (t_queue s') \<in> set (t_queue s')" using q by (cases "t_queue s'") auto
  moreover have "Enqueue demo_web demo_retry demo_ids 60 ''m1'' demo_parsed [demo_rule] demo_queue
      = (fst (Enqueue demo_web demo_retry demo_ids 60 ''m1'' demo_parsed [demo_rule] demo_queue), s')"
    by (simp add: s'_def)
  ultimately obtain snap where "q_snapshot (hd (t_queue s')) = Some snap"
    "wh_SigningSecret (ru_Webhook (sn_Rule snap)) = []"
    "sn_Signed snap \<longleftrightarrow> wh_SigningSecret (ru_Webhook demo_rule) \<noteq> []"
    using Enqueue_stores_no_secret [of demo_web demo_retry demo_ids 60 "''m1''" demo_parsed "[demo_rule]" demo_queue _ s'
        "hd (t_queue s')"] by auto
  then show ?thesis by (simp add: Let_def s'_def demo_rule_def)
qed

text \<open>
  C10: Signing fails closed: a delivery that was to be signed when it was enqueued is sent only with
  the non-empty secret its rule has now; without one no request goes out and it ends in error. The
  request that goes out is signed with that secret.
\<close>

theorem runQueued_fails_closed:
  assumes "qd_Snapshot job = Some snap" "sn_Signed snap" "sn_PayloadError snap = []"
  shows "case (env_lookup env, runQueued W env job) of
      (Some fn, req, result, next) \<Rightarrow>
        (case fn (ru_Name (sn_Rule snap)) of (secret, ok) \<Rightarrow>
           if ok \<and> secret \<noteq> [] then
             (case req of None \<Rightarrow> True
              | Some r \<Rightarrow> hq_no_redirect r \<and> hq_header r ''X-Mailrelay-Signature'' = Some (''sha256='' @ hex_encode
                  (hmac_sha256 W secret (FormatInt (sd_unix (env_sender env)) @ ''.'' @ sn_Payload snap))))
           else req = None \<and> dr_Status result = DError \<and> dr_Attempts result = qd_Attempts job \<and> next = None)
    | (None, req, result, next) \<Rightarrow> req = None \<and> dr_Status result = DError \<and> next = None"
proof (cases "env_lookup env")
  case None
  with assms show ?thesis
    by (simp add: runQueued_def resolveSecret_def Let_def empty_result_def)
next
  case (Some fn)
  obtain secret ok where fn: "fn (ru_Name (sn_Rule snap)) = (secret, ok)" by force
  show ?thesis
  proof (cases "ok \<and> secret \<noteq> []")
    case False
    with assms Some fn show ?thesis
      by (auto simp: runQueued_def resolveSecret_def Let_def empty_result_def)
  next
    case True
    define rule where "rule = (sn_Rule snap)\<lparr>ru_Webhook := (ru_Webhook (sn_Rule snap))\<lparr>wh_SigningSecret := secret\<rparr>\<rparr>"
    obtain req ans where sd: "send W (env_sender env) (env_transport env) rule (sn_Payload snap)
        (rc_Timeout (sn_Retry snap)) (qd_ID job) = (req, ans)" by force
    have "fst (runQueued W env job) = req"
      using assms Some fn True sd by (simp add: runQueued_def resolveSecret_def Let_def rule_def)
    moreover have "hq_no_redirect r \<and> hq_header r ''X-Mailrelay-Signature'' = Some (''sha256='' @ hex_encode
        (hmac_sha256 W secret (FormatInt (sd_unix (env_sender env)) @ ''.'' @ sn_Payload snap)))"
      if "req = Some r" for r
    proof -
      have b: "build_request W (env_sender env) rule (sn_Payload snap) (rc_Timeout (sn_Retry snap)) (qd_ID job) = Inr r"
        using send_request [OF sd] that by (simp split: sum.splits)
      then have "hq_header r = request_header W (env_sender env) (ru_Webhook rule) (sn_Payload snap) (qd_ID job)"
        "hq_no_redirect r"
        using True by (auto simp: build_request_def Let_def rule_def split: option.splits)
      then show ?thesis
        using True by (auto simp: request_header_def Let_def setSigningHeaders_eq rule_def split: prod.split)
    qed
    ultimately show ?thesis
      using Some fn True by (cases "runQueued W env job") (auto split: option.split)
  qed
qed

definition demo_env :: "secret_lookup \<Rightarrow> int \<Rightarrow> run_env" where
  "demo_env lk st = \<lparr>env_sender = demo_sender,
     env_transport = (\<lambda>_. Inr \<lparr>hs_status = st, hs_content_type = [], hs_body = ''ok'', hs_read_error = False\<rparr>),
     env_lookup = lk, env_oob = amd64_oob, env_ctx_err = False, env_now = 100\<rparr>"

definition demo_job :: "deliverySnapshot QueuedDelivery" where
  "demo_job = \<lparr>qd_ID = ''d1'', qd_EmailID = ''m1'', qd_RuleName = ''alerts'',
     qd_Snapshot = Some (snapshot_of demo_web demo_retry demo_parsed demo_rule), qd_Attempts = 0,
     qd_NextAttemptAt = 60\<rparr>"

lemma demo_snapshot:
  "qd_Snapshot demo_job = Some (snapshot_of demo_web demo_retry demo_parsed demo_rule)"
  "sn_Signed (snapshot_of demo_web demo_retry demo_parsed demo_rule)"
  "sn_PayloadError (snapshot_of demo_web demo_retry demo_parsed demo_rule) = []"
  by (simp_all add: demo_job_def snapshot_of_def Let_def buildPayload_def demo_rule_def zero_webhook_def)

theorem runQueued_fails_closed_witness:
  "fst (runQueued demo_web (demo_env (Some (SigningSecret NewEngine)) 200) demo_job) = None"
proof -
  have "SigningSecret NewEngine n = ([], False)" for n by (simp add: SigningSecret_def NewEngine_def)
  then show ?thesis
    using runQueued_fails_closed [OF demo_snapshot, where env = "demo_env (Some (SigningSecret NewEngine)) 200" and W = demo_web]
    by (cases "runQueued demo_web (demo_env (Some (SigningSecret NewEngine)) 200) demo_job")
      (simp add: demo_env_def)
qed

subsection \<open>What an answer means\<close>

text \<open>
  The outcome of one attempt that was sent: an answer in 200..299 succeeds for good; an answer in
  400..499 and a blocked private address are rejected for good; a timeout without
  \<open>retry_on_timeout\<close> fails for good; every other failure is retried while the attempts made do not
  exceed the retries allowed, and then fails for good. When the queue is being cancelled the attempt
  does not count and any failure is pending again at once.
\<close>

theorem classify_outcome:
  "classify oob ctx now retry n r0 (read_answer ans) =
    (case ans of
       Inr resp \<Rightarrow>
         (let st = hs_status resp; body = take 65536 (hs_body resp);
              msg = ''webhook returned status '' @ FormatInt st;
              r = r0\<lparr>dr_Error := msg, dr_StatusCode := st, dr_ResponseBody := body\<rparr> in
          if st \<in> {200..299} then (r0\<lparr>dr_Status := DSuccess, dr_ResponseBody := body\<rparr>, None)
          else if ctx then (r\<lparr>dr_Status := DPending, dr_Attempts := n\<rparr>, Some now)
          else if st \<in> {400..499} then (r\<lparr>dr_Status := DRejected\<rparr>, None)
          else if dr_Attempts r0 \<le> rc_MaxRetries retry
          then (r\<lparr>dr_Status := DPending\<rparr>, Some (now + backoff oob retry (dr_Attempts r0)))
          else (r\<lparr>dr_Status := DFailed\<rparr>, None))
     | Inl e \<Rightarrow>
         (let r = r0\<lparr>dr_Error := ''sending request: '' @ ge_text e\<rparr> in
          if ctx then (r\<lparr>dr_Status := DPending, dr_Attempts := n\<rparr>, Some now)
          else if ge_private e then (r\<lparr>dr_Status := DRejected\<rparr>, None)
          else if (ge_deadline e \<or> ge_net_timeout e) \<and> rc_RetryOnTimeout retry = False
          then (r\<lparr>dr_Status := DFailed\<rparr>, None)
          else if dr_Attempts r0 \<le> rc_MaxRetries retry
          then (r\<lparr>dr_Status := DPending\<rparr>, Some (now + backoff oob retry (dr_Attempts r0)))
          else (r\<lparr>dr_Status := DFailed\<rparr>, None)))"
proof (cases ans)
  case (Inl e)
  then show ?thesis
    by (simp add: classify_def read_answer_def Let_def wrap_error_def error_text_def is_private_error_def
        isTimeoutError_def)
next
  case (Inr resp)
  then show ?thesis
    by (simp add: classify_def read_answer_def Let_def error_text_def is_private_error_def isTimeoutError_def
        client_status_def max_response_body_def)
qed

subsection \<open>The queue and the loop without a queue\<close>

text \<open>
  The attempts of one queued delivery, each starting from the attempt count the last one saved, until
  one is final; \<open>env k\<close> is the environment of the attempt that starts with count \<open>k\<close>.
\<close>

fun queue_loop ::
    "nat \<Rightarrow> 'z weblib_scheme \<Rightarrow> (int \<Rightarrow> run_env) \<Rightarrow> deliverySnapshot QueuedDelivery \<Rightarrow> DeliveryResult option"
where
  "queue_loop 0 W env job = None"
| "queue_loop (Suc fuel) W env job =
     (case runQueued W (env (qd_Attempts job)) job of
        (_, result, None) \<Rightarrow> Some result
      | (_, result, Some _) \<Rightarrow> queue_loop fuel W env (job\<lparr>qd_Attempts := dr_Attempts result\<rparr>))"

definition secret_known :: "secret_lookup \<Rightarrow> Rule \<Rightarrow> bool" where
  "secret_known lk r =
     (wh_SigningSecret (ru_Webhook r) = [] \<or>
      (case lk of None \<Rightarrow> False | Some fn \<Rightarrow> fn (ru_Name r) = (wh_SigningSecret (ru_Webhook r), True)))"

lemma resolveSecret_known:
  "secret_known lk r \<Longrightarrow> resolveSecret G lk (snapshot_of W g email r) = Inr (wh_SigningSecret (ru_Webhook r))"
  by (auto simp: secret_known_def resolveSecret_def snapshot_of_def strip_secret_def Let_def split: option.splits)

lemma runQueued_snapshot:
  assumes "secret_known (env_lookup e) rule" "buildPayload W email (ru_Webhook rule) = Inr p"
    and "qd_Snapshot job = Some (snapshot_of W g email rule)" "\<not> env_ctx_err e"
  shows "\<exists>req. runQueued W e job = (req, classify (env_oob e) False (env_now e)
      (effective_retry g (ru_Webhook rule)) (qd_Attempts job)
      (empty_result (qd_RuleName job) DError (qd_Attempts job + 1))
      (snd (send W (env_sender e) (env_transport e) rule p
        (rc_Timeout (effective_retry g (ru_Webhook rule))) (qd_ID job))))"
proof -
  have s: "sn_PayloadError (snapshot_of W g email rule) = []" "sn_Payload (snapshot_of W g email rule) = p"
    "sn_Retry (snapshot_of W g email rule) = effective_retry g (ru_Webhook rule)"
    "(sn_Rule (snapshot_of W g email rule))\<lparr>ru_Webhook := (ru_Webhook (sn_Rule (snapshot_of W g email rule)))
       \<lparr>wh_SigningSecret := wh_SigningSecret (ru_Webhook rule)\<rparr>\<rparr> = rule"
    using assms(2) by (simp_all add: snapshot_of_def strip_secret_def Let_def)
  show ?thesis
    using assms(3,4) by (simp add: runQueued_def resolveSecret_known [OF assms(1)] s Let_def empty_result_def
        split: prod.split)
qed

lemma queue_loop_dispatch_loop:
  assumes "qd_Snapshot job = Some (snapshot_of W g email rule)" "buildPayload W email (ru_Webhook rule) = Inr p"
    and "\<And>k. secret_known (env_lookup (env k)) rule" "\<And>k. \<not> env_ctx_err (env k)"
    and "retry = effective_retry g (ru_Webhook rule)" "a \<le> rc_MaxRetries retry"
    and "send_at = (\<lambda>k. snd (send W (env_sender (env k)) (env_transport (env k)) rule p (rc_Timeout retry) (qd_ID job)))"
  shows "queue_loop (Suc (nat (rc_MaxRetries retry - a))) W env (job\<lparr>qd_Attempts := a\<rparr>) =
    Some (dispatch_loop (\<lambda>_. None) send_at retry a (empty_result (qd_RuleName job) st n) le)"
  using assms(6)
proof (induction "nat (rc_MaxRetries retry - a)" arbitrary: a st n le)
  case 0
  then have a: "a = rc_MaxRetries retry" by simp
  obtain req where r: "runQueued W (env a) (job\<lparr>qd_Attempts := a\<rparr>) = (req, classify (env_oob (env a)) False
      (env_now (env a)) retry a (empty_result (qd_RuleName job) DError (a + 1)) (send_at a))"
    using runQueued_snapshot [OF assms(3) [of a] assms(2), of "job\<lparr>qd_Attempts := a\<rparr>" g] assms(1,4,5,7) by auto
  show ?case
    by (auto simp: a r [unfolded a] dispatch_loop.simps classify_def empty_result_def Let_def is_private_error_def
        isTimeoutError_def split: sum.split send_error.split)
next
  case (Suc m)
  then have a: "a + 1 \<le> rc_MaxRetries retry" "m = nat (rc_MaxRetries retry - (a + 1))"
    "nat (rc_MaxRetries retry - a) = Suc (nat (rc_MaxRetries retry - (a + 1)))" by linarith+
  obtain req where r: "runQueued W (env a) (job\<lparr>qd_Attempts := a\<rparr>) = (req, classify (env_oob (env a)) False
      (env_now (env a)) retry a (empty_result (qd_RuleName job) DError (a + 1)) (send_at a))"
    using runQueued_snapshot [OF assms(3) [of a] assms(2), of "job\<lparr>qd_Attempts := a\<rparr>" g] assms(1,4,5,7) by auto
  note unf = queue_loop.simps(2) [of "Suc m" W env "job\<lparr>qd_Attempts := a\<rparr>"]
  have IH: "queue_loop (Suc m) W env (job\<lparr>qd_Attempts := a + 1\<rparr>) = Some (dispatch_loop (\<lambda>_. None) send_at retry (a + 1)
      \<lparr>dr_RuleName = qd_RuleName job, dr_Status = st', dr_StatusCode = 0, dr_Error = [], dr_ResponseBody = [],
       dr_Attempts = a + 1\<rparr> le')" for st' le'
    using Suc.hyps(1) [OF a(2) a(1)] unfolding a(2) [symmetric] empty_result_def .
  show ?case
    unfolding a(3) a(2) [symmetric] unf
    using a(1) by (simp add: r dispatch_loop.simps [of _ _ _ a] classify_def empty_result_def Let_def
        is_private_error_def isTimeoutError_def IH del: queue_loop.simps split: sum.split send_error.split)
qed

text \<open>
  C29: A queued delivery ends as the loop without a queue ends: running its attempts one after the
  other, over the same answers, terminates within \<open>MaxRetries + 1\<close> attempts with the result of
  \<open>dispatchOne\<close>, as long as the queue is not cancelled and a signed rule still has its secret.
\<close>

theorem queue_agrees_with_dispatchOne:
  assumes "0 \<le> rc_MaxRetries (effective_retry g (ru_Webhook rule))"
    and "\<And>k. secret_known (env_lookup (env k)) rule" "\<And>k. \<not> env_ctx_err (env k)"
    and "qd_Snapshot job = Some (snapshot_of W g email rule)" "qd_RuleName job = ru_Name rule" "qd_Attempts job = 0"
  shows "queue_loop (Suc (nat (rc_MaxRetries (effective_retry g (ru_Webhook rule))))) W env job =
    Some (dispatchOne W g (\<lambda>k. env_sender (env k)) (\<lambda>k. env_transport (env k)) (\<lambda>_. None) (qd_ID job) email rule)"
proof (cases "buildPayload W email (ru_Webhook rule)")
  case (Inl err)
  then have "err \<noteq> []" by (auto simp: buildPayload_def split: if_splits sum.splits)
  then have "sn_PayloadError (snapshot_of W g email rule) = err" "err \<noteq> []"
    using Inl by (simp_all add: snapshot_of_def Let_def)
  then show ?thesis
    using assms Inl by (simp add: runQueued_def dispatchOne_def Let_def empty_result_def)
next
  case (Inr p)
  have "job\<lparr>qd_Attempts := 0\<rparr> = job" using assms(6) by (cases job) simp
  then show ?thesis
    using queue_loop_dispatch_loop [OF assms(4) Inr assms(2,3) refl assms(1) refl, where st = DPending and n = 0
        and le = None] assms(5)
    by (simp add: dispatchOne_def Inr Let_def del: queue_loop.simps)
qed

theorem queue_agrees_with_dispatchOne_witness:
  "queue_loop 4 demo_web (\<lambda>k. demo_env (Some (\<lambda>_. (''k'', True))) (if k = 2 then 200 else 503)) demo_job =
   Some (dispatchOne demo_web demo_retry (\<lambda>_. demo_sender)
     (\<lambda>k _. Inr \<lparr>hs_status = (if k = 2 then 200 else 503), hs_content_type = [], hs_body = ''ok'',
        hs_read_error = False\<rparr>) (\<lambda>_. None) ''d1'' demo_parsed demo_rule)"
proof -
  have r: "rc_MaxRetries (effective_retry demo_retry (ru_Webhook demo_rule)) = 3"
    by (simp add: effective_retry_def EffectiveMaxRetries_def demo_rule_def)
  have "secret_known (env_lookup (demo_env (Some (\<lambda>_. (''k'', True))) st)) demo_rule" for st
    by (simp add: secret_known_def demo_env_def demo_rule_def)
  moreover have "\<not> env_ctx_err (demo_env l st)" for l st by (simp add: demo_env_def)
  ultimately show ?thesis
    using queue_agrees_with_dispatchOne [where g = demo_retry and rule = demo_rule and job = demo_job
        and W = demo_web and email = demo_parsed
        and env = "\<lambda>k. demo_env (Some (\<lambda>_. (''k'', True))) (if k = 2 then 200 else 503)"] demo_snapshot(1)
    by (simp add: r numeral_eq_Suc del: queue_loop.simps) (simp add: demo_env_def demo_job_def demo_rule_def)
qed

end
