(* ===== verification/Worker.thy ===== *)
theory Worker
  imports Dispatch StoreProps
begin

section \<open>The delivery workers (\<open>internal/webhook/queue.go\<close>)\<close>

text \<open>
  The queue as a transition system: the database, what each worker goroutine of \<open>work\<close> is doing, and
  whether the queue was stopped or cancelled. A step is one atomic action of one worker (the check of
  \<open>stop\<close>, a claim, the second check, the end of a request with its \<open>FinishDelivery\<close>, or a storage
  failure there), an operation of the rest of the program on the same tables, \<open>StopQueue\<close>, the
  cancellation by \<open>Shutdown\<close>, or a restart of the process, which drops what was in flight and runs
  \<open>RecoverDeliveries\<close>. Steps interleave freely. \<open>qs_orphans\<close> is a history variable: the deliveries
  whose result could not be saved since the last start.
\<close>

subsection \<open>The contract of the store\<close>

text \<open>
  What the workers need of the tables, over an abstract view of the status of each queued delivery:
  a claim moves a pending delivery to in progress and returns it, finishing sets the status of that
  delivery only, recovery turns in-progress deliveries back to pending.
\<close>

definition exclusive :: "(string \<Rightarrow> delivery_status option) \<Rightarrow> ('j \<Rightarrow> string) \<Rightarrow> (nat \<Rightarrow> 'j option) \<Rightarrow> bool" where
  "exclusive v jid h \<longleftrightarrow>
     (\<forall>i a. h i = Some a \<longrightarrow> v (jid a) = None \<or> v (jid a) = Some DInProgress)
     \<and> (\<forall>i k a b. h i = Some a \<longrightarrow> h k = Some b \<longrightarrow> jid a = jid b \<longrightarrow> i = k)"

locale delivery_store =
  fixes inv :: "'db \<Rightarrow> bool"
    and view :: "'db \<Rightarrow> string \<Rightarrow> delivery_status option"
    and jid :: "'j \<Rightarrow> string"
    and claim :: "nat \<Rightarrow> int \<Rightarrow> 'db \<Rightarrow> 'j option \<times> 'db"
    and finish :: "'j \<Rightarrow> DeliveryResult \<Rightarrow> int option \<Rightarrow> int \<Rightarrow> 'db \<Rightarrow> 'db"
    and recover :: "'db \<Rightarrow> 'db"
  assumes claim_some: "inv s \<Longrightarrow> claim tie now s = (Some j, s') \<Longrightarrow>
      view s (jid j) = Some DPending \<and> view s' = (view s)(jid j \<mapsto> DInProgress)"
    and claim_none: "claim tie now s = (None, s') \<Longrightarrow> s' = s"
    and finish_view: "view (finish j r next now s) =
      (view s)(jid j := map_option (\<lambda>_. dr_Status r) (view s (jid j)))"
    and recover_view: "view (recover s) i =
      map_option (\<lambda>st. if st = DInProgress then DPending else st) (view s i)"
begin

text \<open>A claim never returns a delivery that another worker holds.\<close>

lemma claim_exclusive:
  assumes "inv s" "claim tie now s = (Some j, s')" "exclusive (view s) jid h" "h i = None"
  shows "exclusive (view s') jid (h(i \<mapsto> j))"
proof -
  have v: "view s (jid j) = Some DPending" "view s' = (view s)(jid j \<mapsto> DInProgress)"
    using claim_some [OF assms(1,2)] by auto
  have "jid a \<noteq> jid j" "jid j \<noteq> jid a" if "h k = Some a" for k a
    using assms(3) that v(1) by (fastforce simp: exclusive_def)+
  with assms(3,4) v(2) show ?thesis by (auto simp: exclusive_def)
qed

lemma finish_exclusive:
  assumes "exclusive (view s) jid h" "h i = Some j"
  shows "exclusive (view (finish j r next now s)) jid (h(i := None))"
  using assms by (auto simp: exclusive_def finish_view split: if_splits)

lemma drop_exclusive: "exclusive v jid h \<Longrightarrow> exclusive v jid (h(i := None))"
  by (simp add: exclusive_def)

lemma recover_not_running: "view (recover s) i \<noteq> Some DInProgress"
  by (cases "view s i") (auto simp: recover_view)

lemma recover_pending:
  "view s i = Some st \<Longrightarrow> unfinished_status st \<Longrightarrow> view (recover s) i = Some DPending"
  by (auto simp: recover_view unfinished_status_def)

end

interpretation queue_store: delivery_store store_inv qstat qd_ID ClaimDelivery FinishDelivery RecoverDeliveries
proof
  show "store_inv s \<Longrightarrow> ClaimDelivery tie now s = (Some j, s') \<Longrightarrow>
      qstat s (qd_ID j) = Some DPending \<and> qstat s' = (qstat s)(qd_ID j \<mapsto> DInProgress)"
    for s s' :: "'a db" and tie now j
    by (rule qstat_ClaimDelivery)
qed (simp_all add: ClaimDelivery_None qstat_FinishDelivery qstat_RecoverDeliveries)

subsection \<open>States and steps\<close>

type_synonym job = "deliverySnapshot QueuedDelivery"

text \<open>
  \<open>Polling\<close>: past the check of \<open>stop\<close> at the head of the loop. \<open>Claimed\<close>: before the second check.
  \<open>Sending\<close>: in \<open>runQueued\<close>. \<open>Exited\<close>: returned from \<open>work\<close>.
\<close>

datatype phase = AtTop | Polling | Claimed job | Sending job | Exited

fun phase_job :: "phase \<Rightarrow> job option" where
  "phase_job (Claimed j) = Some j"
| "phase_job (Sending j) = Some j"
| "phase_job _ = None"

record queue_state =
  qs_db :: "deliverySnapshot db"
  qs_workers :: "phase list"
  qs_stopped :: bool
  qs_cancelled :: bool
  qs_orphans :: "string set"

definition held :: "queue_state \<Rightarrow> nat \<Rightarrow> job option" where
  "held s i = (if i < length (qs_workers s) then phase_job (qs_workers s ! i) else None)"

definition held_ids :: "queue_state \<Rightarrow> string set" where
  "held_ids s = {qd_ID j | i j. held s i = Some j}"

definition set_phase :: "nat \<Rightarrow> phase \<Rightarrow> queue_state \<Rightarrow> queue_state" where
  "set_phase i p s = s\<lparr>qs_workers := (qs_workers s)[i := p]\<rparr>"

text \<open>\<open>StartQueue\<close> on a database: at least one worker, recovery, and a fresh queue.\<close>

definition StartQueue :: "int \<Rightarrow> deliverySnapshot db \<Rightarrow> (string, queue_state) result" where
  "StartQueue workers db =
     (if workers < 1 then Inl ''workers must be positive''
      else Inr \<lparr>qs_db = RecoverDeliveries db, qs_workers = replicate (nat workers) AtTop,
        qs_stopped = False, qs_cancelled = False, qs_orphans = {}\<rparr>)"

definition StopQueue :: "queue_state \<Rightarrow> queue_state" where
  "StopQueue s = s\<lparr>qs_stopped := True\<rparr>"

definition cancel_queue :: "queue_state \<Rightarrow> queue_state" where
  "cancel_queue s = s\<lparr>qs_cancelled := True\<rparr>"

definition release_result :: "job \<Rightarrow> DeliveryResult" where
  "release_result j = empty_result [] DPending (qd_Attempts j)"

text \<open>
  What the rest of the program does to the tables. The identifiers \<open>Enqueue\<close> draws are taken to be
  new: none belongs to a delivery some worker still holds (its email may have been deleted).
\<close>

inductive external :: "weblib \<Rightarrow> queue_state \<Rightarrow> deliverySnapshot db \<Rightarrow> bool" for W and s where
  ext_save: "insert_email r (qs_db s) = Inr db \<Longrightarrow> em_delivery_batch r = [] \<Longrightarrow> external W s db"
| ext_enqueue: "Enqueue W global uuid now eid email rules (qs_db s) = (err, db) \<Longrightarrow> rules \<noteq> [] \<Longrightarrow>
    uuid ` {1..length rules} \<inter> held_ids s = {} \<Longrightarrow> external W s db"
| ext_drop: "external W s (UpdateEmailStatus eid EmailStatusDropped (qs_db s))"
| ext_parse: "external W s (UpdateParsedEmail eid pe (qs_db s))"
| ext_delete: "external W s (DeleteEmail eid (qs_db s))"
| ext_delete_all: "external W s (snd (DeleteAllEmails (qs_db s)))"
| ext_cleanup: "external W s (snd (CleanupExpired now days (qs_db s)))"

inductive step :: "weblib \<Rightarrow> queue_state \<Rightarrow> queue_state \<Rightarrow> bool" for W where
  step_external: "external W s db \<Longrightarrow> step W s (s\<lparr>qs_db := db\<rparr>)"
| step_check: "i < length (qs_workers s) \<Longrightarrow> qs_workers s ! i = AtTop \<Longrightarrow>
    step W s (set_phase i (if qs_stopped s then Exited else Polling) s)"
| step_claim: "i < length (qs_workers s) \<Longrightarrow> qs_workers s ! i = Polling \<Longrightarrow>
    ClaimDelivery tie now (qs_db s) = (Some j, db) \<Longrightarrow>
    step W s (set_phase i (Claimed j) (s\<lparr>qs_db := db\<rparr>))"
| step_idle: "i < length (qs_workers s) \<Longrightarrow> qs_workers s ! i = Polling \<Longrightarrow> step W s (set_phase i AtTop s)"
| step_idle_stop: "i < length (qs_workers s) \<Longrightarrow> qs_workers s ! i = Polling \<Longrightarrow> qs_stopped s \<Longrightarrow>
    step W s (set_phase i Exited s)"
| step_send: "i < length (qs_workers s) \<Longrightarrow> qs_workers s ! i = Claimed j \<Longrightarrow> \<not> qs_stopped s \<Longrightarrow>
    step W s (set_phase i (Sending j) s)"
| step_release: "i < length (qs_workers s) \<Longrightarrow> qs_workers s ! i = Claimed j \<Longrightarrow> qs_stopped s \<Longrightarrow>
    step W s (set_phase i Exited
      (s\<lparr>qs_db := FinishDelivery j (release_result j) (Some now) now' (qs_db s)\<rparr>))"
| step_release_fail: "i < length (qs_workers s) \<Longrightarrow> qs_workers s ! i = Claimed j \<Longrightarrow> qs_stopped s \<Longrightarrow>
    step W s (set_phase i Exited (s\<lparr>qs_orphans := insert (qd_ID j) (qs_orphans s)\<rparr>))"
| step_finish: "i < length (qs_workers s) \<Longrightarrow> qs_workers s ! i = Sending j \<Longrightarrow>
    (env_ctx_err env \<longrightarrow> qs_cancelled s) \<Longrightarrow> runQueued W env j = (req, result, next) \<Longrightarrow>
    step W s (set_phase i AtTop (s\<lparr>qs_db := FinishDelivery j result next now (qs_db s)\<rparr>))"
| step_finish_fail: "i < length (qs_workers s) \<Longrightarrow> qs_workers s ! i = Sending j \<Longrightarrow>
    step W s (set_phase i AtTop (s\<lparr>qs_orphans := insert (qd_ID j) (qs_orphans s)\<rparr>))"
| step_stop: "step W s (StopQueue s)"
| step_cancel: "qs_stopped s \<Longrightarrow> step W s (cancel_queue s)"
| step_restart: "StartQueue n (qs_db s) = Inr s' \<Longrightarrow> step W s s'"

inductive reachable :: "weblib \<Rightarrow> queue_state \<Rightarrow> bool" for W where
  reach_start: "StartQueue n empty_db = Inr s \<Longrightarrow> reachable W s"
| reach_step: "reachable W s \<Longrightarrow> step W s s' \<Longrightarrow> reachable W s'"

inductive_cases step_stopped_cases: "step W s s'"

end
