(* ===== verification/WorkerProps.thy ===== *)
theory WorkerProps
  imports Worker DispatchProps
begin

section \<open>The delivery workers: safety\<close>

text \<open>
  The invariant of every reachable state, by induction over the steps: the tables are consistent,
  no two workers hold the same delivery, and every queued delivery is pending, held by a worker, or
  among those whose result could not be saved. From it follow the properties at the end.
\<close>

subsection \<open>Outcomes\<close>

lemma runQueued_next:
  assumes "runQueued W env j = (req, result, next)"
  shows "(unfinished_status (dr_Status result) \<longleftrightarrow> next \<noteq> None) \<and> dr_Status result \<noteq> DInProgress"
proof -
  have c: "(unfinished_status (dr_Status r) \<longleftrightarrow> nx \<noteq> None) \<and> dr_Status r \<noteq> DInProgress"
    if "classify oob ctx now retry n r0 ans = (r, nx)" for oob ctx now retry n r0 ans r nx
    using that by (auto simp: classify_def unfinished_status_def Let_def split: sum.splits send_error.splits if_splits)
  from assms show ?thesis
    by (auto simp: runQueued_def Let_def empty_result_def unfinished_status_def
        split: option.splits if_splits sum.splits prod.splits dest!: c)
qed

subsection \<open>The rest of the program\<close>

definition ext_ok :: "string set \<Rightarrow> 's db \<Rightarrow> 's db \<Rightarrow> bool" where
  "ext_ok ids s s' \<longleftrightarrow>
     (\<forall>i. qstat s' i = qstat s i \<or> qstat s' i = None
        \<or> i \<notin> ids \<and> qstat s i = None \<and> qstat s' i = Some DPending)
     \<and> (\<forall>q\<in>set (t_queue s'). q \<in> set (t_queue s) \<or> q_delivery_id q \<notin> ids)"

lemma ext_ok_same: "qstat s' = qstat s \<Longrightarrow> t_queue s' = t_queue s \<Longrightarrow> ext_ok ids s s'"
  by (simp add: ext_ok_def)

lemma ext_ok_delete: "store_inv s \<Longrightarrow> ext_ok ids s (delete_emails p s)"
  by (auto simp: ext_ok_def qstat_delete_emails delete_emails_rows(2))

lemma external_ok:
  assumes "external W s db" "queue_inv (qs_db s)"
  shows "queue_inv db \<and> ext_ok (held_ids s) (qs_db s) db"
proof -
  have inv: "store_inv (qs_db s)" using assms(2) by (simp add: queue_inv_def)
  from assms(1) show ?thesis
  proof cases
    case (ext_save r)
    have "db = (qs_db s)\<lparr>t_emails := t_emails (qs_db s) @ [r]\<rparr>"
      using ext_save(1) by (simp add: insert_email_def split: if_splits)
    then have "ext_ok (held_ids s) (qs_db s) db" by (simp add: ext_ok_same)
    with queue_inv_insert_email [OF assms(2) ext_save] show ?thesis by simp
  next
    case (ext_enqueue global uuid now eid email rules err)
    define jobs where "jobs = map (\<lambda>r. (ru_Name r, snapshot_of W global email r)) rules"
    have e: "EnqueueDeliveries uuid eid jobs now (qs_db s) = (err, db)"
      using ext_enqueue(1) by (simp add: Enqueue_def jobs_def)
    have "set (job_ids uuid 1 jobs) = uuid ` {1..length rules}"
      by (simp add: job_ids_def jobs_def atLeastLessThanSuc_atLeastAtMost del: upt_Suc)
    then have "set (job_ids uuid 1 jobs) \<inter> held_ids s = {}" using ext_enqueue(3) by simp
    then have "ext_ok (held_ids s) (qs_db s) db"
      using EnqueueDeliveries_view [OF inv e] by (fastforce simp: ext_ok_def)
    moreover have "queue_inv db"
      using queue_inv_EnqueueDeliveries [OF assms(2) _ e] ext_enqueue(2) by (simp add: jobs_def)
    ultimately show ?thesis by simp
  next
    case (ext_drop eid)
    have "ext_ok (held_ids s) (qs_db s) db" by (simp add: ext_drop ext_ok_same UpdateEmailStatus_def)
    with queue_inv_UpdateEmailStatus [OF assms(2)] show ?thesis by (simp add: ext_drop)
  next
    case (ext_parse eid pe)
    have "ext_ok (held_ids s) (qs_db s) db" by (simp add: ext_parse ext_ok_same UpdateParsedEmail_def)
    with queue_inv_UpdateParsedEmail [OF assms(2)] show ?thesis by (simp add: ext_parse)
  next
    case (ext_cleanup now days)
    with assms(2) inv show ?thesis
      by (auto simp: CleanupExpired_def Let_def queue_inv_delete_emails ext_ok_delete ext_ok_same)
  qed (use assms(2) inv in \<open>auto simp: DeleteEmail_def DeleteAllEmails_def queue_inv_delete_emails ext_ok_delete\<close>)
qed

subsection \<open>The invariant\<close>

definition job_matches :: "'s db \<Rightarrow> 's QueuedDelivery \<Rightarrow> bool" where
  "job_matches s j \<longleftrightarrow> (\<forall>q\<in>set (t_queue s). q_delivery_id q = qd_ID j \<longrightarrow>
     q_email_id q = qd_EmailID j \<and> q_snapshot q = qd_Snapshot j)"

definition worker_inv :: "queue_state \<Rightarrow> bool" where
  "worker_inv s \<longleftrightarrow> queue_inv (qs_db s) \<and> exclusive (qstat (qs_db s)) qd_ID (held s)
     \<and> (\<forall>i j. held s i = Some j \<longrightarrow> job_matches (qs_db s) j)
     \<and> (\<forall>d. qstat (qs_db s) d = Some DInProgress \<longrightarrow> d \<in> held_ids s \<union> qs_orphans s)"

lemma held_set_phase:
  "i < length (qs_workers s) \<Longrightarrow> held (set_phase i p s) = (held s)(i := phase_job p)"
  by (rule ext) (simp add: held_def set_phase_def)

lemma held_db [simp]: "held (s\<lparr>qs_db := db\<rparr>) = held s" "held (s\<lparr>qs_orphans := x\<rparr>) = held s"
  "held (StopQueue s) = held s" "held (cancel_queue s) = held s"
  by (simp_all add: held_def StopQueue_def cancel_queue_def fun_eq_iff)

lemma set_phase_simps [simp]:
  "qs_db (set_phase i p s) = qs_db s" "qs_orphans (set_phase i p s) = qs_orphans s"
  "qs_stopped (set_phase i p s) = qs_stopped s" "qs_cancelled (set_phase i p s) = qs_cancelled s"
  "length (qs_workers (set_phase i p s)) = length (qs_workers s)"
  by (simp_all add: set_phase_def)

lemma held_idsI: "held s i = Some j \<Longrightarrow> qd_ID j \<in> held_ids s"
  by (auto simp: held_ids_def)

lemma held_idsE:
  assumes "d \<in> held_ids s"
  obtains i j where "held s i = Some j" "d = qd_ID j"
  using assms by (auto simp: held_ids_def)

lemma held_at: "i < length (qs_workers s) \<Longrightarrow> held s i = phase_job (qs_workers s ! i)"
  by (simp add: held_def)

text \<open>A worker that keeps or drops no job, with the tables and the history as they are.\<close>

lemma worker_inv_phase:
  assumes "worker_inv s" "i < length (qs_workers s)" "phase_job p = phase_job (qs_workers s ! i)"
  shows "worker_inv (set_phase i p s)"
proof -
  have "held (set_phase i p s) = held s"
    using assms(2,3) by (simp add: held_set_phase held_at [symmetric])
  with assms(1) show ?thesis by (simp add: worker_inv_def held_ids_def)
qed

lemma worker_inv_drop:
  assumes "worker_inv s" "i < length (qs_workers s)" "phase_job (qs_workers s ! i) = Some j" "phase_job p = None"
  shows "worker_inv (set_phase i p (s\<lparr>qs_orphans := insert (qd_ID j) (qs_orphans s)\<rparr>))"
proof -
  let ?s = "set_phase i p (s\<lparr>qs_orphans := insert (qd_ID j) (qs_orphans s)\<rparr>)"
  have h: "held ?s = (held s)(i := None)" using assms(2,4) by (simp add: held_set_phase)
  have hi: "held s i = Some j" using assms(2,3) by (simp add: held_at)
  have "d \<in> held_ids ?s \<union> qs_orphans ?s" if d: "qstat (qs_db s) d = Some DInProgress" for d
  proof -
    from assms(1) d have "d \<in> held_ids s \<or> d \<in> qs_orphans s" by (auto simp: worker_inv_def)
    then consider k a where "held s k = Some a" "d = qd_ID a" | "d \<in> qs_orphans s" by (auto simp: held_ids_def)
    then show ?thesis
    proof cases
      case 1
      then show ?thesis using hi by (cases "k = i") (auto simp: held_ids_def h)
    qed simp
  qed
  with assms(1) show ?thesis
    by (auto simp: worker_inv_def h queue_store.drop_exclusive)
qed

lemma worker_inv_claim:
  assumes "worker_inv s" "i < length (qs_workers s)" "qs_workers s ! i = Polling"
    and c: "ClaimDelivery tie now (qs_db s) = (Some j, db)"
  shows "worker_inv (set_phase i (Claimed j) (s\<lparr>qs_db := db\<rparr>))"
proof -
  let ?s = "set_phase i (Claimed j) (s\<lparr>qs_db := db\<rparr>)"
  have h: "held ?s = (held s)(i \<mapsto> j)" using assms(2) by (simp add: held_set_phase)
  have hi: "held s i = None" using assms(2,3) by (simp add: held_at)
  have qi: "queue_inv (qs_db s)" and inv: "store_inv (qs_db s)"
    using assms(1) by (simp_all add: worker_inv_def queue_inv_def)
  have q: "queue_inv db" using queue_inv_ClaimDelivery [OF qi, of tie now] c by simp
  have x: "exclusive (qstat db) qd_ID ((held s)(i \<mapsto> j))"
    using queue_store.claim_exclusive [OF inv c] assms(1) hi by (simp add: worker_inv_def)
  have v: "qstat db = (qstat (qs_db s))(qd_ID j \<mapsto> DInProgress)"
    using queue_store.claim_some [OF inv c] by simp
  have e: "t_queue db = t_queue (qs_db s) \<and> (\<exists>q. q \<in> set (t_queue (qs_db s)) \<and> qd_ID j = q_delivery_id q
      \<and> qd_EmailID j = q_email_id q \<and> qd_Snapshot j = q_snapshot q)"
    using ClaimDelivery_job [OF inv c] .
  then obtain q where q0: "q \<in> set (t_queue (qs_db s))" "qd_ID j = q_delivery_id q"
    "qd_EmailID j = q_email_id q" "qd_Snapshot j = q_snapshot q" by blast
  have "q' = q" if "q' \<in> set (t_queue (qs_db s))" "q_delivery_id q' = qd_ID j" for q'
    using key_distinct_inj [of q_delivery_id] inv q0 that by (metis store_inv_def)
  then have m: "job_matches db j" using e q0 by (auto simp: job_matches_def)
  have ids: "held_ids s \<union> {qd_ID j} \<subseteq> held_ids ?s"
  proof
    fix d assume "d \<in> held_ids s \<union> {qd_ID j}"
    then consider k a where "held s k = Some a" "d = qd_ID a" | "d = qd_ID j" by (auto elim: held_idsE)
    then show "d \<in> held_ids ?s"
    proof cases
      case 1
      with hi have "held ?s k = Some a" by (auto simp: h)
      with 1 show ?thesis by (simp add: held_idsI)
    next
      case 2
      have "held ?s i = Some j" by (simp add: h)
      with 2 show ?thesis by (simp add: held_idsI)
    qed
  qed
  show ?thesis
    unfolding worker_inv_def h
  proof (intro conjI allI impI)
    fix k a assume a: "((held s)(i \<mapsto> j)) k = Some a"
    have "job_matches db b = job_matches (qs_db s) b" for b using e by (simp add: job_matches_def)
    with a m assms(1) show "job_matches (qs_db ?s) a"
      by (cases "k = i") (simp_all add: worker_inv_def)
  next
    fix d assume "qstat (qs_db ?s) d = Some DInProgress"
    then have "d = qd_ID j \<or> qstat (qs_db s) d = Some DInProgress" by (simp add: v split: if_splits)
    then have "d = qd_ID j \<or> d \<in> held_ids s \<union> qs_orphans s" using assms(1) by (auto simp: worker_inv_def)
    then show "d \<in> held_ids ?s \<union> qs_orphans ?s" using ids by auto
  qed (use q x in simp_all)
qed

lemma worker_inv_finish:
  assumes "worker_inv s" "i < length (qs_workers s)" "phase_job (qs_workers s ! i) = Some j" "phase_job p = None"
    and nx: "unfinished_status (dr_Status r) \<longleftrightarrow> nx \<noteq> None" "dr_Status r \<noteq> DInProgress"
  shows "worker_inv (set_phase i p (s\<lparr>qs_db := FinishDelivery j r nx now (qs_db s)\<rparr>))"
proof -
  let ?db = "FinishDelivery j r nx now (qs_db s)"
  let ?s = "set_phase i p (s\<lparr>qs_db := ?db\<rparr>)"
  have h: "held ?s = (held s)(i := None)" using assms(2,4) by (simp add: held_set_phase)
  have hi: "held s i = Some j" using assms(2,3) by (simp add: held_at)
  have qi: "queue_inv (qs_db s)" and ex: "exclusive (qstat (qs_db s)) qd_ID (held s)"
    using assms(1) by (simp_all add: worker_inv_def)
  have jm: "job_matches (qs_db s) a" if "held s k = Some a" for k a using assms(1) that by (simp add: worker_inv_def)
  have run: "qstat (qs_db s) (qd_ID j) \<in> {None, Some DInProgress}"
    using ex hi by (auto simp: exclusive_def)
  have q: "queue_inv ?db"
    using jm [OF hi] by (intro queue_inv_FinishDelivery [OF qi _ run nx(1)]) (simp add: job_matches_def)
  have x: "exclusive (qstat ?db) qd_ID ((held s)(i := None))"
    using queue_store.finish_exclusive [OF ex hi] .
  have v: "qstat ?db = (qstat (qs_db s))(qd_ID j := map_option (\<lambda>_. dr_Status r) (qstat (qs_db s) (qd_ID j)))"
    by (rule queue_store.finish_view)
  show ?thesis
    unfolding worker_inv_def h
  proof (intro conjI allI impI)
    fix k a assume a: "((held s)(i := None)) k = Some a"
    then have k: "k \<noteq> i" "held s k = Some a" by (auto split: if_splits)
    with hi ex have ne: "qd_ID a \<noteq> qd_ID j" unfolding exclusive_def by metis
    have "q' \<in> set (t_queue (qs_db s))" if "q' \<in> set (t_queue ?db)" "q_delivery_id q' = qd_ID a" for q'
      using that ne by (auto simp: FinishDelivery_settle settle_email_def finished_db_facts in_map_where_iff
          split: option.splits if_splits)
    with jm [OF k(2)] show "job_matches (qs_db ?s) a" by (simp add: job_matches_def)
  next
    fix d assume "qstat (qs_db ?s) d = Some DInProgress"
    then have d: "d \<noteq> qd_ID j" "qstat (qs_db s) d = Some DInProgress" using nx(2) by (auto simp: v split: if_splits)
    then have "d \<in> held_ids s \<union> qs_orphans s" using assms(1) by (simp add: worker_inv_def)
    then show "d \<in> held_ids ?s \<union> qs_orphans ?s"
    proof
      assume "d \<in> held_ids s"
      then obtain k a where a: "held s k = Some a" "d = qd_ID a" by (rule held_idsE)
      with d(1) hi have "held ?s k = Some a" by (auto simp: h)
      with a(2) show ?thesis by (simp add: held_idsI)
    qed simp
  qed (use q x in simp_all)
qed

lemma worker_inv_external:
  assumes "worker_inv s" "external W s db"
  shows "worker_inv (s\<lparr>qs_db := db\<rparr>)"
proof -
  have q: "queue_inv db" and ok: "ext_ok (held_ids s) (qs_db s) db"
    using external_ok [OF assms(2)] assms(1) by (simp_all add: worker_inv_def)
  have ids: "held_ids (s\<lparr>qs_db := db\<rparr>) = held_ids s" by (simp add: held_ids_def)
  have v: "qstat db i = qstat (qs_db s) i \<or> qstat db i = None
      \<or> i \<notin> held_ids s \<and> qstat (qs_db s) i = None \<and> qstat db i = Some DPending" for i
    using ok by (simp add: ext_ok_def)
  have ex: "exclusive (qstat (qs_db s)) qd_ID (held s)" using assms(1) by (simp add: worker_inv_def)
  have "exclusive (qstat db) qd_ID (held s)"
    unfolding exclusive_def
  proof (intro conjI allI impI)
    fix i a assume a: "held s i = Some a"
    with ex have "qstat (qs_db s) (qd_ID a) = None \<or> qstat (qs_db s) (qd_ID a) = Some DInProgress"
      by (simp add: exclusive_def)
    with v [of "qd_ID a"] held_idsI [OF a] show "qstat db (qd_ID a) = None \<or> qstat db (qd_ID a) = Some DInProgress"
      by auto
  qed (use ex in \<open>simp add: exclusive_def\<close>)
  moreover have "job_matches db j" if "held s i = Some j" for i j
    using ok assms(1) that held_idsI [OF that] by (fastforce simp: ext_ok_def worker_inv_def job_matches_def)
  moreover have "d \<in> held_ids s \<union> qs_orphans s" if "qstat db d = Some DInProgress" for d
    using v [of d] that assms(1) by (auto simp: worker_inv_def)
  ultimately show ?thesis using q by (simp add: worker_inv_def ids)
qed

lemma worker_inv_start:
  assumes "queue_inv db" "StartQueue n db = Inr s"
  shows "worker_inv s"
proof -
  have s: "s = \<lparr>qs_db = RecoverDeliveries db, qs_workers = replicate (nat n) AtTop, qs_stopped = False,
      qs_cancelled = False, qs_orphans = {}\<rparr>"
    using assms(2) by (simp add: StartQueue_def split: if_splits)
  have "held s i = None" for i by (simp add: held_def s)
  with queue_inv_RecoverDeliveries [OF assms(1)] show ?thesis
    by (simp add: worker_inv_def s exclusive_def queue_store.recover_not_running)
qed

lemma worker_inv_flags [simp]:
  "worker_inv (StopQueue s) = worker_inv s" "worker_inv (cancel_queue s) = worker_inv s"
  by (simp_all add: worker_inv_def held_ids_def) (simp_all add: StopQueue_def cancel_queue_def)

lemma worker_inv_step:
  assumes "worker_inv s" "step W s s'"
  shows "worker_inv s'"
  using assms(2)
proof cases
  case (step_release i j now now')
  with assms(1) show ?thesis
    by (simp add: worker_inv_finish release_result_def empty_result_def unfinished_status_def)
next
  case (step_finish i j env req result "next" now)
  with assms(1) runQueued_next [OF step_finish(5)] show ?thesis by (simp add: worker_inv_finish)
next
  case (step_restart n)
  moreover have "queue_inv (qs_db s)" using assms(1) by (simp add: worker_inv_def)
  ultimately show ?thesis by (rule worker_inv_start [rotated])
qed (use assms(1) in \<open>simp_all add: worker_inv_external worker_inv_phase worker_inv_claim worker_inv_drop\<close>)

lemma reachable_inv: "reachable W s \<Longrightarrow> worker_inv s"
proof (induction rule: reachable.induct)
  case (reach_start n s)
  then show ?case by (rule worker_inv_start [OF queue_inv_empty])
qed (rule worker_inv_step)

subsection \<open>Properties\<close>

text \<open>A run to look at: two workers, an email with one matching rule, and a claim by the first.\<close>

definition demo_start :: queue_state where
  "demo_start = \<lparr>qs_db = RecoverDeliveries empty_db, qs_workers = [AtTop, AtTop], qs_stopped = False,
     qs_cancelled = False, qs_orphans = {}\<rparr>"

definition demo_row :: email_row where
  "demo_row = hd (t_emails demo_queue)"

definition demo_db1 :: "deliverySnapshot db" where
  "demo_db1 = snd (Enqueue demo_web demo_retry demo_ids 60 ''m1'' demo_parsed [demo_rule]
     ((qs_db demo_start)\<lparr>t_emails := [demo_row]\<rparr>))"

definition demo_claim :: "job option \<times> deliverySnapshot db" where
  "demo_claim = ClaimDelivery 0 60 demo_db1"

definition demo_run :: queue_state where
  "demo_run = set_phase 0 (Claimed (the (fst demo_claim)))
     ((set_phase 0 Polling (demo_start\<lparr>qs_db := demo_db1\<rparr>))\<lparr>qs_db := snd demo_claim\<rparr>)"

lemma demo_db1_rows:
  "map q_delivery_id (t_queue demo_db1) = [''ii'']"
  "map (\<lambda>d. (dl_id d, dl_status d)) (t_deliveries demo_db1) = [(''ii'', DPending)]"
  "fst demo_claim \<noteq> None"
  by code_simp+

lemma demo_db1_reachable: "reachable demo_web (demo_start\<lparr>qs_db := demo_db1\<rparr>)"
proof -
  have 0: "reachable demo_web demo_start"
    by (rule reach_start [of 2]) (simp add: StartQueue_def demo_start_def numeral_2_eq_2)
  let ?s1 = "demo_start\<lparr>qs_db := (qs_db demo_start)\<lparr>t_emails := [demo_row]\<rparr>\<rparr>"
  have e1: "external demo_web demo_start ((qs_db demo_start)\<lparr>t_emails := [demo_row]\<rparr>)"
    by (rule ext_save [of demo_row]) (simp_all add: insert_email_def email_exists_def demo_start_def
        RecoverDeliveries_def empty_db_def demo_row_def demo_queue_def)
  have 1: "reachable demo_web ?s1" using reach_step [OF 0 step_external [OF e1]] .
  have "held_ids ?s1 = {}" by (auto simp: held_ids_def held_def demo_start_def nth_Cons split: if_splits nat.splits)
  then have e2: "external demo_web ?s1 demo_db1"
    by (intro ext_enqueue [of demo_web demo_retry demo_ids 60 "''m1''" demo_parsed "[demo_rule]" ?s1
          "fst (Enqueue demo_web demo_retry demo_ids 60 ''m1'' demo_parsed [demo_rule] (qs_db ?s1))"])
      (simp_all add: demo_db1_def)
  show ?thesis
    using reach_step [OF 1 step_external [OF e2]] by simp
qed

lemma demo_run_reachable: "reachable demo_web demo_run"
proof -
  note 2 = demo_db1_reachable
  have 3: "reachable demo_web (set_phase 0 Polling (demo_start\<lparr>qs_db := demo_db1\<rparr>))"
    using reach_step [OF 2 step_check [of 0]] by (simp add: demo_start_def)
  have c: "ClaimDelivery 0 60 (qs_db (set_phase 0 Polling (demo_start\<lparr>qs_db := demo_db1\<rparr>))) =
      (Some (the (fst demo_claim)), snd demo_claim)"
    using demo_db1_rows(3) by (cases demo_claim) (auto simp: demo_claim_def)
  show ?thesis
    unfolding demo_run_def
    by (rule reach_step [OF 3 step_claim [OF _ _ c]]) (simp_all add: demo_start_def set_phase_def)
qed

text \<open>
  C1: In every reachable state, whatever the interleaving of workers, SMTP handlers, the web UI,
  retention sweeps, storage failures and restarts: the tables are consistent (\<open>queue_inv\<close>: keys and
  foreign keys hold, a queue row has its snapshot exactly while its delivery is unfinished, and an
  email is \<open>received\<close> while it has unfinished work); no delivery is held by two workers; and no
  delivery is lost: each queued one is finished, or pending, or held by a worker, or waits for the
  next start because its result could not be saved.
\<close>

theorem reachable_safe:
  assumes "reachable W s"
  shows "queue_inv (qs_db s)
    \<and> (\<forall>i k a b. held s i = Some a \<and> held s k = Some b \<and> qd_ID a = qd_ID b \<longrightarrow> i = k)
    \<and> (\<forall>d st. qstat (qs_db s) d = Some st \<and> unfinished_status st \<longrightarrow>
         st = DPending \<or> d \<in> held_ids s \<or> d \<in> qs_orphans s)"
  using reachable_inv [OF assms] by (auto simp: worker_inv_def exclusive_def unfinished_status_def)

theorem reachable_safe_witness:
  "queue_inv (qs_db demo_run) \<and> qstat (qs_db demo_run) ''ii'' = Some DInProgress \<and> ''ii'' \<in> held_ids demo_run"
proof -
  have "qstat (snd demo_claim) ''ii'' = Some DInProgress" by code_simp
  then have "qstat (qs_db demo_run) ''ii'' = Some DInProgress" "qs_orphans demo_run = {}"
    by (simp_all add: demo_run_def demo_start_def)
  then show ?thesis
    using reachable_safe [OF demo_run_reachable] by (auto simp: unfinished_status_def)
qed

text \<open>
  C4: Nothing is lost by a crash: starting again, from whatever reachable state, makes exactly the
  unfinished deliveries pending, each with its request snapshot, and no delivery is in progress.
\<close>

theorem restart_recovers:
  assumes "reachable W s" "StartQueue n (qs_db s) = Inr s'"
  shows "(\<forall>d. qstat (qs_db s') d = Some DPending \<longleftrightarrow>
      (\<exists>st. qstat (qs_db s) d = Some st \<and> (st = DPending \<or> st = DInProgress)))
    \<and> (\<forall>d. qstat (qs_db s') d \<noteq> Some DInProgress)
    \<and> (\<forall>q. q \<in> set (t_queue (qs_db s')) \<and> qstat (qs_db s') (q_delivery_id q) = Some DPending \<longrightarrow>
         q \<in> set (t_queue (qs_db s)) \<and> q_snapshot q \<noteq> None)"
proof -
  have db: "qs_db s' = RecoverDeliveries (qs_db s)"
    using assms(2) by (auto simp: StartQueue_def split: if_splits)
  have "snapshot_inv (RecoverDeliveries (qs_db s))"
    using reachable_inv [OF assms(1)] queue_inv_RecoverDeliveries
    by (auto simp: worker_inv_def queue_inv_def)
  then have "q_snapshot q \<noteq> None"
    if "q \<in> set (t_queue (qs_db s'))" "qstat (qs_db s') (q_delivery_id q) = Some DPending" for q
    using that by (auto simp: snapshot_inv_def db unfinished_status_def)
  moreover have "t_queue (qs_db s') = t_queue (qs_db s)" by (simp add: db RecoverDeliveries_def)
  moreover have "qstat (qs_db s') d = Some DPending \<longleftrightarrow>
      (\<exists>st. qstat (qs_db s) d = Some st \<and> (st = DPending \<or> st = DInProgress))" for d
    by (cases "qstat (qs_db s) d") (auto simp: db qstat_RecoverDeliveries)
  moreover have "qstat (qs_db s') d \<noteq> Some DInProgress" for d
    by (simp add: db queue_store.recover_not_running)
  ultimately show ?thesis by auto
qed

theorem restart_recovers_witness:
  "case StartQueue 1 (qs_db demo_run) of Inl _ \<Rightarrow> False
   | Inr s' \<Rightarrow> qstat (qs_db s') ''ii'' = Some DPending"
proof -
  obtain s' where s': "StartQueue 1 (qs_db demo_run) = Inr s'" by (simp add: StartQueue_def)
  have "qstat (snd demo_claim) ''ii'' = Some DInProgress" by code_simp
  then have "qstat (qs_db demo_run) ''ii'' = Some DInProgress" by (simp add: demo_run_def)
  then show ?thesis using restart_recovers [OF demo_run_reachable s'] by (simp add: s')
qed



end
