(* ===== verification/RuleFile.thy ===== *)
theory RuleFile
  imports Payload Engine
begin

section \<open>Rules files (\<open>internal/rules/transfer.go\<close>)\<close>

text \<open>
  \<open>Validate\<close>, which the editor and every import share, the rules file with its version, and its
  reading and writing. YAML is the library's: \<open>yaml_stream\<close> lists what successive \<open>Decode\<close> calls give
  before the end of the file (an error, or a document and, unless it has no JSON form, its JSON
  value), and \<open>yaml_text\<close>, \<open>json_indent\<close> write one value. An error is a constructor of \<open>rule_error\<close>;
  the nil error is \<open>None\<close>.
\<close>

record filelib = weblib +
  yaml_stream :: "string \<Rightarrow> (string, json option) result list"
  yaml_text :: "json \<Rightarrow> (string, string) result"
  json_indent :: "json \<Rightarrow> string"

subsection \<open>Validation\<close>

datatype rule_error =
  NameRequired | PositionNegative | BadURL | BadRequest string | BadHeader | BadHeaderName string
| BadTemplate string | NegativeLimit | WaitTooShort | WaitsReversed | BadMode | UnknownField string
| HeaderNameRequired | PatternRequired | BadPattern string | InRule string rule_error | DuplicateName string

text \<open>The loop over the headers, in the order \<open>range\<close> visits them.\<close>

fun check_headers :: "(string \<times> string) list \<Rightarrow> rule_error option" where
  "check_headers [] = None"
| "check_headers ((k, v) # kvs) =
     (if k = [] \<or> ContainsAny v [CHR 0x0D, CHR 0x0A] then Some BadHeader
      else if \<not> list_all token_byte k then Some (BadHeaderName k)
      else check_headers kvs)"

definition check_limit :: "int \<Rightarrow> int option list \<Rightarrow> bool" where
  "check_limit lo ps = list_all (\<lambda>p. case p of None \<Rightarrow> True | Some n \<Rightarrow> lo \<le> n) ps"

definition match_field_names :: "string list" where
  "match_field_names =
     [''from'', ''to'', ''cc'', ''mail_from'', ''rcpt_to'', ''subject'', ''from_domain'', ''to_domain'',
      ''mail_from_domain'', ''rcpt_to_domain'', ''header'', ''body'']"

definition check_condition :: "'z golib_scheme \<Rightarrow> MatchCondition \<Rightarrow> rule_error option" where
  "check_condition G c =
     (if mc_Field c \<notin> set match_field_names then Some (UnknownField (mc_Field c))
      else if mc_Field c = ''header'' \<and> TrimSpace (mc_Header c) = [] then Some HeaderNameRequired
      else (let p = TrimSpace (mc_Pattern c) in
        if p = [] then Some PatternRequired
        else if is_regex p then
          (case re_compile G (regex_body p) of None \<Rightarrow> Some (BadPattern p) | Some _ \<Rightarrow> None)
        else (case path_match p [] of None \<Rightarrow> Some (BadPattern p) | Some _ \<Rightarrow> None)))"

fun check_conditions :: "'z golib_scheme \<Rightarrow> MatchCondition list \<Rightarrow> rule_error option" where
  "check_conditions G [] = None"
| "check_conditions G (c # cs) =
     (case check_condition G c of Some e \<Rightarrow> Some e | None \<Rightarrow> check_conditions G cs)"

definition check_url :: "'z weblib_scheme \<Rightarrow> string \<Rightarrow> bool" where
  "check_url W u =
     (case url_parse W u of None \<Rightarrow> False
      | Some (scheme, host) \<Rightarrow> host \<noteq> [] \<and> (scheme = ''http'' \<or> scheme = ''https''))"

definition check_template :: "'z weblib_scheme \<Rightarrow> string \<Rightarrow> rule_error option" where
  "check_template W t =
     (if TrimSpace t \<noteq> [] then (case ParseTemplate W t of Inl e \<Rightarrow> Some (BadTemplate e) | Inr _ \<Rightarrow> None)
      else None)"

definition Validate :: "'z weblib_scheme \<Rightarrow> RuleRecord \<Rightarrow> rule_error option" where
  "Validate W r =
     (let w = rr_Webhook r; m = rr_Match r in
      if TrimSpace (rr_Name r) = [] then Some NameRequired
      else if rr_Position r < 0 then Some PositionNegative
      else if \<not> check_url W (wh_URL w) then Some BadURL
      else case new_request W (wh_Method w) (wh_URL w) of Some e \<Rightarrow> Some (BadRequest e) | None \<Rightarrow>
      (case check_headers (case wh_Headers w of None \<Rightarrow> [] | Some h \<Rightarrow> h) of Some e \<Rightarrow> Some e | None \<Rightarrow>
      (case check_template W (wh_PayloadTemplate w) of Some e \<Rightarrow> Some e | None \<Rightarrow>
        if \<not> check_limit 0 [wh_Timeout w, wh_MaxRetries w] then Some NegativeLimit
        else if \<not> check_limit 1 [wh_InitialWait w, wh_MaxWait w] then Some WaitTooShort
        else if (case (wh_InitialWait w, wh_MaxWait w) of (Some a, Some b) \<Rightarrow> a > b | _ \<Rightarrow> False)
        then Some WaitsReversed
        else if m_Mode m \<noteq> [] \<and> m_Mode m \<noteq> ''all'' \<and> m_Mode m \<noteq> ''any'' then Some BadMode
        else check_conditions W (m_Conditions m))))"

definition record_of_item :: "TransferRule \<Rightarrow> RuleRecord" where
  "record_of_item item =
     \<lparr>rr_ID = [], rr_Name = tr_Name item, rr_Enabled = False, rr_Match = tr_Match item,
      rr_Webhook = tr_Webhook item, rr_Position = tr_Position item, rr_CreatedAt = zero_time,
      rr_UpdatedAt = zero_time\<rparr>"

text \<open>The loop of \<open>ValidateImport\<close>, with the names seen so far.\<close>

fun check_items :: "'z weblib_scheme \<Rightarrow> string list \<Rightarrow> TransferRule list \<Rightarrow> rule_error option" where
  "check_items W seen [] = None"
| "check_items W seen (item # items) =
     (case Validate W (record_of_item item) of
        Some e \<Rightarrow> Some (InRule (tr_Name item) e)
      | None \<Rightarrow>
          if tr_Name item \<in> set seen then Some (DuplicateName (tr_Name item))
          else check_items W (tr_Name item # seen) items)"

definition ValidateImport :: "'z weblib_scheme \<Rightarrow> TransferRule list \<Rightarrow> rule_error option" where
  "ValidateImport W items = check_items W [] items"

subsection \<open>Files\<close>

record RulesFile =
  rf_Version :: int
  rf_Sensitive :: string
  rf_Rules :: "TransferRule list option"

definition Portable :: "RuleRecord \<Rightarrow> TransferRule" where
  "Portable r = \<lparr>tr_Name = rr_Name r, tr_Enabled = rr_Enabled r, tr_Position = rr_Position r,
     tr_Match = rr_Match r, tr_Webhook = rr_Webhook r\<rparr>"

definition sensitive_note :: string where
  "sensitive_note = ''Contains secrets: webhook URLs, headers and payload templates may contain credentials. Store securely.''"

definition file_json :: "RulesFile \<Rightarrow> json" where
  "file_json f = JObj (entry ''version'' (JNum (rf_Version f)) @ omitempty ''sensitive'' (JStr (rf_Sensitive f))
     @ entry ''rules'' (case rf_Rules f of None \<Rightarrow> JNull | Some rs \<Rightarrow> JArr (map transfer_json rs)))"

definition Export :: "'z filelib_scheme \<Rightarrow> RuleRecord list \<Rightarrow> string \<Rightarrow> (string, string) result" where
  "Export F records format =
     (let f = \<lparr>rf_Version = 1, rf_Sensitive = sensitive_note, rf_Rules = Some (map Portable records)\<rparr>;
          j = file_json f
      in if format = ''json'' then Inr (json_indent F j) else yaml_text F j)"

definition file_fields :: "'z golib_scheme \<Rightarrow> RulesFile field list" where
  "file_fields G =
     [(''version'', dec_int (\<lambda>n f. f\<lparr>rf_Version := n\<rparr>)), (''sensitive'', dec_string (\<lambda>s f. f\<lparr>rf_Sensitive := s\<rparr>)),
      (''rules'', \<lambda>j f. case j of JNull \<Rightarrow> Some (f\<lparr>rf_Rules := None\<rparr>)
         | _ \<Rightarrow> dec_list (transfer_of_json G True) (\<lambda>rs f. f\<lparr>rf_Rules := Some rs\<rparr>) j f)]"

definition file_of_json :: "'z golib_scheme \<Rightarrow> json \<Rightarrow> RulesFile option" where
  "file_of_json G j = dec_struct G True (file_fields G) j \<lparr>rf_Version = 0, rf_Sensitive = [], rf_Rules = None\<rparr>"

datatype decode_error =
  YamlError string | NotOneDocument | NoJson | BadFile | BadVersion | Invalid rule_error

definition Decode :: "'z filelib_scheme \<Rightarrow> string \<Rightarrow> (decode_error, TransferRule list) result" where
  "Decode F data =
     (case yaml_stream F data of
        [] \<Rightarrow> Inl (YamlError ''EOF'')
      | Inl e # _ \<Rightarrow> Inl (YamlError e)
      | Inr value # extra \<Rightarrow>
          if extra \<noteq> [] then Inl NotOneDocument
          else (case value of None \<Rightarrow> Inl NoJson | Some j \<Rightarrow>
            (case file_of_json F j of None \<Rightarrow> Inl BadFile | Some f \<Rightarrow>
               (case rf_Rules f of
                  None \<Rightarrow> Inl BadVersion
                | Some rules \<Rightarrow>
                    if rf_Version f \<noteq> 1 then Inl BadVersion
                    else (case ValidateImport F rules of
                        Some e \<Rightarrow> Inl (Invalid e) | None \<Rightarrow> Inr rules)))))"

subsection \<open>Lemmas\<close>

lemma check_conditions_None: "check_conditions G cs = None \<longleftrightarrow> (\<forall>c\<in>set cs. check_condition G c = None)"
  by (induction cs) (auto split: option.splits)

lemma check_headers_None:
  "check_headers kvs = None \<longleftrightarrow>
   (\<forall>(k, v)\<in>set kvs. k \<noteq> [] \<and> \<not> ContainsAny v [CHR 0x0D, CHR 0x0A] \<and> list_all token_byte k)"
  by (induction kvs rule: check_headers.induct) auto

lemma check_items_None:
  "check_items W seen items = None \<longleftrightarrow>
   (\<forall>i\<in>set items. Validate W (record_of_item i) = None) \<and> distinct (map tr_Name items)
   \<and> set seen \<inter> tr_Name ` set items = {}"
  by (induction W seen items rule: check_items.induct) (auto split: option.splits)

lemma Validate_conditions: "Validate W r = None \<Longrightarrow> check_conditions W (m_Conditions (rr_Match r)) = None"
  by (auto simp: Validate_def Let_def split: if_splits option.splits)

lemma Validate_waits:
  "Validate W r = None \<Longrightarrow> wh_InitialWait (rr_Webhook r) = Some a \<Longrightarrow> wh_MaxWait (rr_Webhook r) = Some b \<Longrightarrow>
   1 \<le> a \<and> a \<le> b"
  by (auto simp: Validate_def Let_def check_limit_def split: if_splits option.splits)

subsection \<open>Properties\<close>

text \<open>
  The patterns of a rule that passed validation can be used: none is empty, a regular expression
  compiles, and a glob (of ASCII bytes) is never malformed, whatever value it is matched against and
  although the engine lower-cases it first. So the engine never takes a malformed pattern for a
  pattern that does not match.
\<close>

theorem Validate_patterns_usable:
  assumes "Validate W r = None" "c \<in> set (m_Conditions (rr_Match r))" "is_ascii (TrimSpace (mc_Pattern c))"
  shows "case TrimSpace (mc_Pattern c) of [] \<Rightarrow> False
    | p \<Rightarrow> if is_regex p then re_compile W (regex_body p) \<noteq> None
           else path_match (ToLower W p) v \<noteq> None"
proof -
  have c: "check_condition W c = None"
    using Validate_conditions [OF assms(1)] assms(2) by (simp add: check_conditions_None)
  then have p: "TrimSpace (mc_Pattern c) \<noteq> []"
    by (auto simp: check_condition_def Let_def split: if_splits)
  show ?thesis
  proof (cases "is_regex (TrimSpace (mc_Pattern c))")
    case True
    with c p show ?thesis
      by (auto simp: check_condition_def Let_def split: if_splits option.splits list.split)
  next
    case False
    with c p have "path_match (TrimSpace (mc_Pattern c)) [] \<noteq> None"
      by (auto simp: check_condition_def Let_def split: if_splits option.splits)
    with assms(3) have "path_match (ToLower W (TrimSpace (mc_Pattern c))) v \<noteq> None"
      by (simp add: ToLower_ascii path_match_lower_total)
    with False p show ?thesis by (auto split: list.split)
  qed
qed

definition demo_record :: RuleRecord where
  "demo_record = \<lparr>rr_ID = ''i1'', rr_Name = ''alerts'', rr_Enabled = True,
     rr_Match = \<lparr>m_Mode = ''any'', m_Conditions =
       [\<lparr>mc_Field = ''to'', mc_Pattern = ''*@X.test'', mc_Header = []\<rparr>,
        \<lparr>mc_Field = ''subject'', mc_Pattern = ''/alert/'', mc_Header = []\<rparr>]\<rparr>,
     rr_Webhook = zero_webhook\<lparr>wh_URL := ''https://h.test'', wh_Method := ''POST'',
       wh_Headers := Some [(''X-A'', ''1'')], wh_InitialWait := Some 1, wh_MaxWait := Some 5\<rparr>,
     rr_Position = 0, rr_CreatedAt = 0, rr_UpdatedAt = 0\<rparr>"

theorem Validate_patterns_usable_witness:
  "path_match (ToLower demo_web ''*@X.test'') ''bob@x.test'' \<noteq> None"
proof -
  have "Validate demo_web demo_record = None" by code_simp
  moreover have "hd (m_Conditions (rr_Match demo_record)) \<in> set (m_Conditions (rr_Match demo_record))"
    by (simp add: demo_record_def)
  moreover have "is_ascii (TrimSpace (mc_Pattern (hd (m_Conditions (rr_Match demo_record)))))"
    "TrimSpace (mc_Pattern (hd (m_Conditions (rr_Match demo_record)))) = ''*@X.test''"
    "\<not> is_regex ''*@X.test''"
    by code_simp+
  ultimately show ?thesis
    using Validate_patterns_usable [of demo_web demo_record "hd (m_Conditions (rr_Match demo_record))" "''bob@x.test''"]
    by simp
qed

text \<open>
  An import is accepted exactly when every rule in it is valid on its own and no two have the
  same name.
\<close>

theorem ValidateImport_iff:
  "ValidateImport W items = None \<longleftrightarrow>
   list_all (\<lambda>i. Validate W (record_of_item i) = None) items \<and> distinct (map tr_Name items)"
  by (simp add: ValidateImport_def check_items_None list_all_iff)

text \<open>
  What \<open>Decode\<close> accepts is one document of version 1 with a list of rules, no unknown field
  anywhere, and rules that pass \<open>ValidateImport\<close>; nothing else is returned.
\<close>

theorem Decode_accepts:
  "Decode F data = Inr rules \<longleftrightarrow>
   (\<exists>j f. yaml_stream F data = [Inr (Some j)] \<and> file_of_json F j = Some f
      \<and> rf_Version f = 1 \<and> rf_Rules f = Some rules \<and> ValidateImport F rules = None)"
  by (auto simp: Decode_def split: list.splits sum.splits option.splits if_splits)

text \<open>
  A rule written to JSON, for a file or a database column, is read back as it was, strictly or
  not, with its headers in key order and an empty header map coming back as nil; and writing it again gives the same JSON.
\<close>

theorem transfer_json_roundtrip:
  assumes "transfer_ok r"
  shows "transfer_of_json G strict (transfer_json r) =
      Some (r\<lparr>tr_Webhook := (tr_Webhook r)\<lparr>wh_Headers := norm_headers (wh_Headers (tr_Webhook r))\<rparr>\<rparr>)
    \<and> map_option transfer_json (transfer_of_json G strict (transfer_json r)) = Some (transfer_json r)"
  using transfers.dec_enc [OF assms, of G strict] transfers.norm_enc [of r]
  by (simp add: norm_transfer_def norm_webhook_def)

theorem transfer_json_roundtrip_witness:
  "transfer_of_json ascii_lib True (transfer_json (zero_transfer\<lparr>tr_Name := ''a'', tr_Position := 3,
     tr_Webhook := zero_webhook\<lparr>wh_URL := ''https://h.test'', wh_Headers := Some [(''X-A'', ''1'')], wh_Timeout := Some 5\<rparr>\<rparr>)) =
   Some (zero_transfer\<lparr>tr_Name := ''a'', tr_Position := 3,
     tr_Webhook := zero_webhook\<lparr>wh_URL := ''https://h.test'', wh_Headers := Some [(''X-A'', ''1'')], wh_Timeout := Some 5\<rparr>\<rparr>)"
  using transfer_json_roundtrip [of "zero_transfer\<lparr>tr_Name := ''a'', tr_Position := 3,
     tr_Webhook := zero_webhook\<lparr>wh_URL := ''https://h.test'', wh_Headers := Some [(''X-A'', ''1'')], wh_Timeout := Some 5\<rparr>\<rparr>"
     ascii_lib True]
  by (simp add: transfer_ok_def webhook_ok_def zero_transfer_def zero_webhook_def fits_int_def int64_id norm_headers_def)

end
