(* ===== verification/RuleStore.thy ===== *)
theory RuleStore
  imports RuleFile Store
begin

section \<open>The rules table (\<open>internal/storage\<close>) and reloading the engine\<close>

text \<open>
  The rules table as a list of rows in insertion order, with the two JSON columns as JSON values, and
  every statement on it: the rule operations of \<open>store.go\<close> and the import transaction of
  \<open>rules_transfer.go\<close>. \<open>reloadRules\<close> and \<open>LoadRules\<close> of the web UI move the enabled rules into the
  engine. Lists are ordered by stable sorts, so rows that tie keep their insertion order.
\<close>

record rule_row =
  rw_id :: string
  rw_name :: string
  rw_enabled :: int
  rw_match :: json
  rw_webhook :: json
  rw_position :: int
  rw_created_at :: int
  rw_updated_at :: int

type_synonym rules_table = "rule_row list"

datatype rule_sql_error = RuleUnique | RuleMissing | RuleDecode string

definition boolToInt :: "bool \<Rightarrow> int" where
  "boolToInt b = (if b then 1 else 0)"

definition rules_inv :: "rules_table \<Rightarrow> bool" where
  "rules_inv rows \<longleftrightarrow> key_distinct rw_id rows \<and> key_distinct rw_name rows"

subsection \<open>Statements\<close>

definition insert_rule :: "rule_row \<Rightarrow> rules_table \<Rightarrow> (rule_sql_error, rules_table) result" where
  "insert_rule r rows =
     (if rw_id r \<in> rw_id ` set rows \<or> rw_name r \<in> rw_name ` set rows then Inl RuleUnique
      else Inr (rows @ [r]))"

definition SaveRule :: "(nat \<Rightarrow> string) \<Rightarrow> int \<Rightarrow> RuleRecord \<Rightarrow> rules_table \<Rightarrow> (rule_sql_error, rules_table) result" where
  "SaveRule uuid now rule rows =
     insert_rule
       \<lparr>rw_id = (if rr_ID rule = [] then uuid 0 else rr_ID rule), rw_name = rr_Name rule,
        rw_enabled = boolToInt (rr_Enabled rule), rw_match = match_json (rr_Match rule),
        rw_webhook = webhook_json (rr_Webhook rule), rw_position = rr_Position rule,
        rw_created_at = (if rr_CreatedAt rule = zero_time then now else rr_CreatedAt rule),
        rw_updated_at = now\<rparr> rows"

definition UpdateRule :: "int \<Rightarrow> RuleRecord \<Rightarrow> rules_table \<Rightarrow> (rule_sql_error, rules_table) result" where
  "UpdateRule now rule rows =
     (if list_ex (\<lambda>r. rw_id r = rr_ID rule) rows
         \<and> list_ex (\<lambda>r. rw_id r \<noteq> rr_ID rule \<and> rw_name r = rr_Name rule) rows then Inl RuleUnique
      else Inr (map_where (\<lambda>r. rw_id r = rr_ID rule)
        (\<lambda>r. r\<lparr>rw_name := rr_Name rule, rw_enabled := boolToInt (rr_Enabled rule),
               rw_match := match_json (rr_Match rule), rw_webhook := webhook_json (rr_Webhook rule),
               rw_position := rr_Position rule, rw_updated_at := now\<rparr>) rows))"

text \<open>A column that does not decode is an error, so a broken matcher cannot match every email.\<close>

definition scanRule :: "'z golib_scheme \<Rightarrow> rule_row \<Rightarrow> (rule_sql_error, RuleRecord) result" where
  "scanRule G row =
     (case match_of_json G False (rw_match row) zero_matcher of
        None \<Rightarrow> Inl (RuleDecode (rw_name row))
      | Some m \<Rightarrow> (case webhook_of_json G False (rw_webhook row) zero_webhook of
          None \<Rightarrow> Inl (RuleDecode (rw_name row))
        | Some w \<Rightarrow> Inr \<lparr>rr_ID = rw_id row, rr_Name = rw_name row, rr_Enabled = (rw_enabled row \<noteq> 0),
            rr_Match = m, rr_Webhook = w, rr_Position = rw_position row,
            rr_CreatedAt = rw_created_at row, rr_UpdatedAt = rw_updated_at row\<rparr>))"

fun scan_rows :: "'z golib_scheme \<Rightarrow> rule_row list \<Rightarrow> (rule_sql_error, RuleRecord list) result" where
  "scan_rows G [] = Inr []"
| "scan_rows G (row # rows) =
     (case scanRule G row of
        Inl e \<Rightarrow> Inl e
      | Inr r \<Rightarrow> (case scan_rows G rows of Inl e \<Rightarrow> Inl e | Inr rs \<Rightarrow> Inr (r # rs)))"

definition GetRule :: "'z golib_scheme \<Rightarrow> string \<Rightarrow> rules_table \<Rightarrow> (rule_sql_error, RuleRecord) result" where
  "GetRule G i rows = (case row_of rw_id rows i of None \<Rightarrow> Inl RuleMissing | Some r \<Rightarrow> scanRule G r)"

definition ListRules :: "'z golib_scheme \<Rightarrow> rules_table \<Rightarrow> (rule_sql_error, RuleRecord list) result" where
  "ListRules G rows =
     scan_rows G (sort_key (\<lambda>r. - rw_position r) (sort_key (\<lambda>r. - rw_created_at r) rows))"

definition enabled_rows :: "rules_table \<Rightarrow> rule_row list" where
  "enabled_rows rows = sort_key rw_position (sort_key rw_created_at (filter (\<lambda>r. rw_enabled r = 1) rows))"

definition ListEnabledRules :: "'z golib_scheme \<Rightarrow> rules_table \<Rightarrow> (rule_sql_error, RuleRecord list) result" where
  "ListEnabledRules G rows = scan_rows G (enabled_rows rows)"

definition DeleteRule :: "string \<Rightarrow> rules_table \<Rightarrow> rules_table" where
  "DeleteRule i rows = filter (\<lambda>r. rw_id r \<noteq> i) rows"

definition NextRulePosition :: "rules_table \<Rightarrow> int" where
  "NextRulePosition rows = (if rows = [] then 0 else int64 (Max (rw_position ` set rows) + 1))"

subsection \<open>Importing\<close>

text \<open>One INSERT .. ON CONFLICT(name) DO UPDATE .. WHERE something differs.\<close>

definition upsert_differs :: "TransferRule \<Rightarrow> rule_row \<Rightarrow> bool" where
  "upsert_differs item r =
     (rw_enabled r \<noteq> boolToInt (tr_Enabled item) \<or> rw_match r \<noteq> match_json (tr_Match item)
      \<or> rw_webhook r \<noteq> webhook_json (tr_Webhook item) \<or> rw_position r \<noteq> tr_Position item)"

definition set_content :: "TransferRule \<Rightarrow> int \<Rightarrow> rule_row \<Rightarrow> rule_row" where
  "set_content item now r =
     r\<lparr>rw_enabled := boolToInt (tr_Enabled item), rw_match := match_json (tr_Match item),
       rw_webhook := webhook_json (tr_Webhook item), rw_position := tr_Position item, rw_updated_at := now\<rparr>"

definition new_rule_row :: "string \<Rightarrow> int \<Rightarrow> TransferRule \<Rightarrow> rule_row" where
  "new_rule_row i now item =
     \<lparr>rw_id = i, rw_name = tr_Name item, rw_enabled = boolToInt (tr_Enabled item),
      rw_match = match_json (tr_Match item), rw_webhook = webhook_json (tr_Webhook item),
      rw_position = tr_Position item, rw_created_at = now, rw_updated_at = now\<rparr>"

definition upsert_rule :: "string \<Rightarrow> int \<Rightarrow> TransferRule \<Rightarrow> rules_table \<Rightarrow> (rule_sql_error, rules_table) result" where
  "upsert_rule i now item rows =
     (if i \<in> rw_id ` set rows then Inl RuleUnique
      else if tr_Name item \<in> rw_name ` set rows then
        Inr (map_where (\<lambda>r. rw_name r = tr_Name item \<and> upsert_differs item r) (set_content item now) rows)
      else Inr (rows @ [new_rule_row i now item]))"

fun upsert_rules ::
    "(nat \<Rightarrow> string) \<Rightarrow> (nat \<Rightarrow> int) \<Rightarrow> nat \<Rightarrow> TransferRule list \<Rightarrow> rules_table
      \<Rightarrow> (rule_sql_error, rules_table) result"
where
  "upsert_rules uuid now k [] rows = Inr rows"
| "upsert_rules uuid now k (item # items) rows =
     (case upsert_rule (uuid k) (now k) item rows of
        Inl e \<Rightarrow> Inl e
      | Inr rows' \<Rightarrow> upsert_rules uuid now (Suc k) items rows')"

text \<open>The transaction: an error leaves the table as it was.\<close>

definition ImportRules ::
    "(nat \<Rightarrow> string) \<Rightarrow> (nat \<Rightarrow> int) \<Rightarrow> TransferRule list \<Rightarrow> bool \<Rightarrow> rules_table
      \<Rightarrow> rule_sql_error option \<times> rules_table" where
  "ImportRules uuid now items replace rows =
     (case upsert_rules uuid now 0 items (if replace then [] else rows) of
        Inl e \<Rightarrow> (Some e, rows)
      | Inr rows' \<Rightarrow> (None, rows'))"

subsection \<open>Reloading the engine\<close>

definition reloadRules :: "'z golib_scheme \<Rightarrow> rules_table \<Rightarrow> Engine \<Rightarrow> rule_sql_error option \<times> Engine" where
  "reloadRules G rows eng =
     (case ListEnabledRules G rows of
        Inl e \<Rightarrow> (Some e, eng)
      | Inr records \<Rightarrow> (None, SetRules eng (map ToRule records)))"

definition LoadRules :: "'z golib_scheme \<Rightarrow> rules_table \<Rightarrow> Engine \<Rightarrow> rule_sql_error option \<times> Engine" where
  "LoadRules G rows eng = reloadRules G rows eng"

subsection \<open>The invariant\<close>

lemma rules_inv_Nil [simp]: "rules_inv []"
  by (simp add: rules_inv_def)

lemma rules_inv_insert [inv_intros]: "rules_inv rows \<Longrightarrow> insert_rule r rows = Inr rows' \<Longrightarrow> rules_inv rows'"
  by (auto simp: insert_rule_def rules_inv_def split: if_splits)

lemma rules_inv_SaveRule [inv_intros]: "rules_inv rows \<Longrightarrow> SaveRule u now r rows = Inr rows' \<Longrightarrow> rules_inv rows'"
  unfolding SaveRule_def by (rule rules_inv_insert)

lemma rules_inv_DeleteRule [inv_intros]: "rules_inv rows \<Longrightarrow> rules_inv (DeleteRule i rows)"
  by (simp add: DeleteRule_def rules_inv_def)

lemma rules_inv_map:
  "(\<And>r. rw_id (f r) = rw_id r) \<Longrightarrow> (\<And>r. rw_name (f r) = rw_name r) \<Longrightarrow>
   rules_inv (map_where p f rows) = rules_inv rows"
  by (simp add: rules_inv_def key_distinct_map_where)

lemma rules_inv_upsert [inv_intros]: "rules_inv rows \<Longrightarrow> upsert_rule i now item rows = Inr rows' \<Longrightarrow> rules_inv rows'"
  by (auto simp: upsert_rule_def rules_inv_map set_content_def split: if_splits)
    (auto simp: rules_inv_def new_rule_row_def)

lemma rules_inv_upserts [inv_intros]:
  "rules_inv rows \<Longrightarrow> upsert_rules uuid now k items rows = Inr rows' \<Longrightarrow> rules_inv rows'"
  by (induction uuid now k items rows rule: upsert_rules.induct) (auto split: sum.splits intro: rules_inv_upsert)

lemma rules_inv_ImportRules [inv_intros]:
  "rules_inv rows \<Longrightarrow> rules_inv (snd (ImportRules uuid now items replace rows))"
  using rules_inv_upserts [of rows uuid now 0 items] rules_inv_upserts [OF rules_inv_Nil, of uuid now 0 items]
  by (auto simp: ImportRules_def split: sum.split)

lemma rules_inv_UpdateRule [inv_intros]:
  assumes "rules_inv rows" "UpdateRule now rule rows = Inr rows'"
  shows "rules_inv rows'"
proof -
  define f where "f r = r\<lparr>rw_name := rr_Name rule, rw_enabled := boolToInt (rr_Enabled rule),
    rw_match := match_json (rr_Match rule), rw_webhook := webhook_json (rr_Webhook rule),
    rw_position := rr_Position rule, rw_updated_at := now\<rparr>" for r :: rule_row
  define g where "g r = (if rw_id r = rr_ID rule then f r else r)" for r
  have rows': "rows' = map g rows"
    and ok: "(\<exists>r\<in>set rows. rw_id r = rr_ID rule) \<Longrightarrow> r \<in> set rows \<Longrightarrow> rw_id r \<noteq> rr_ID rule \<Longrightarrow> rw_name r \<noteq> rr_Name rule"
    for r
    using assms(2) by (auto simp: UpdateRule_def map_where_def f_def g_def list_ex_iff split: if_splits)
  have "inj_on (\<lambda>r. rw_id (g r)) (set rows)" "inj_on (\<lambda>r. rw_name (g r)) (set rows)"
  proof -
    have "rw_id (g r) = rw_id r" for r by (simp add: g_def f_def)
    then show "inj_on (\<lambda>r. rw_id (g r)) (set rows)"
      using assms(1) by (simp add: rules_inv_def key_distinct_def distinct_map)
    show "inj_on (\<lambda>r. rw_name (g r)) (set rows)"
    proof (rule inj_onI)
      fix r1 r2 assume r: "r1 \<in> set rows" "r2 \<in> set rows" "rw_name (g r1) = rw_name (g r2)"
      have names: "rw_name x = rw_name y \<Longrightarrow> x = y" if "x \<in> set rows" "y \<in> set rows" for x y
        using assms(1) that key_distinct_inj [of rw_name rows] by (auto simp: rules_inv_def)
      have ids: "rw_id x = rw_id y \<Longrightarrow> x = y" if "x \<in> set rows" "y \<in> set rows" for x y
        using assms(1) that key_distinct_inj [of rw_id rows] by (auto simp: rules_inv_def)
      show "r1 = r2"
        using r ok [of r1] ok [of r2] names ids by (auto simp: g_def f_def split: if_splits)
    qed
  qed
  moreover have "distinct rows" using assms(1) by (auto simp: rules_inv_def key_distinct_def distinct_map)
  ultimately show ?thesis
    by (auto simp: rows' rules_inv_def key_distinct_def distinct_map comp_inj_on_iff [symmetric] comp_def)
qed

end
