(* ===== verification/RuleStoreProps.thy ===== *)
theory RuleStoreProps
  imports RuleStore
begin

section \<open>The rules table: imports, round trips and reloads\<close>

text \<open>
  What an import does to each rule, by name; that importing the same file again changes nothing;
  that a saved rule is read back as it was; and what the engine holds after a reload.
\<close>

subsection \<open>Upserts, seen by name\<close>

definition upserted :: "string \<Rightarrow> int \<Rightarrow> TransferRule \<Rightarrow> rule_row option \<Rightarrow> rule_row" where
  "upserted i now item old =
     (case old of
        None \<Rightarrow> new_rule_row i now item
      | Some r \<Rightarrow> if upsert_differs item r then set_content item now r else r)"

lemma rw_set_content [simp]:
  "rw_id (set_content item now r) = rw_id r" "rw_name (set_content item now r) = rw_name r"
  "rw_created_at (set_content item now r) = rw_created_at r"
  by (simp_all add: set_content_def)

lemma rw_name_upserted: "(\<And>r. old = Some r \<Longrightarrow> rw_name r = tr_Name item) \<Longrightarrow> rw_name (upserted i now item old) = tr_Name item"
  by (auto simp: upserted_def new_rule_row_def split: option.split)

lemma upserted_same: "\<not> upsert_differs item (upserted i now item old)"
  by (auto simp: upserted_def upsert_differs_def new_rule_row_def set_content_def split: option.split)

lemma row_of_name: "row_of rw_name rows n = Some r \<Longrightarrow> rw_name r = n \<and> r \<in> set rows"
  by (auto simp: row_of_def find_Some_iff)

lemma upsert_rule_view:
  assumes "upsert_rule i now item rows = Inr rows'"
  shows "row_of rw_name rows' n =
    (if n = tr_Name item then Some (upserted i now item (row_of rw_name rows n)) else row_of rw_name rows n)"
proof (cases "tr_Name item \<in> rw_name ` set rows")
  case True
  then have rows': "rows' = map_where (\<lambda>r. rw_name r = tr_Name item \<and> upsert_differs item r) (set_content item now) rows"
    using assms by (simp add: upsert_rule_def split: if_splits)
  show ?thesis
  proof (cases "row_of rw_name rows n")
    case None
    with True show ?thesis
      by (auto simp: rows' row_of_map_where) (auto simp: row_of_None_iff)
  next
    case (Some r)
    with row_of_name [OF Some] show ?thesis
      by (auto simp: rows' row_of_map_where upserted_def)
  qed
next
  case False
  then have rows': "rows' = rows @ [new_rule_row i now item]"
    using assms by (simp add: upsert_rule_def split: if_splits)
  from False have "row_of rw_name rows (tr_Name item) = None" by (simp add: row_of_None_iff)
  then show ?thesis
    by (cases "row_of rw_name rows n") (auto simp: rows' row_of_append upserted_def new_rule_row_def)
qed

lemma upsert_rule_ids: "upsert_rule i now item rows = Inr rows' \<Longrightarrow> rw_id ` set rows' \<subseteq> insert i (rw_id ` set rows)"
proof -
  assume u: "upsert_rule i now item rows = Inr rows'"
  have "rw_id ` set (map_where p (set_content item now) rows) = rw_id ` set rows" for p
    by (rule key_image_map_where) simp
  with u show ?thesis by (auto simp only: upsert_rule_def sum.inject sum.distinct split: if_splits)
      (auto simp: new_rule_row_def)
qed

lemma upsert_rule_ok: "i \<notin> rw_id ` set rows \<Longrightarrow> \<exists>rows'. upsert_rule i now item rows = Inr rows'"
  by (simp add: upsert_rule_def)

lemma disjoint_insert: "C \<subseteq> insert u B \<Longrightarrow> u \<notin> A \<Longrightarrow> A \<inter> B = {} \<Longrightarrow> A \<inter> C = {}"
  by blast

lemma upsert_rules_view:
  assumes "distinct (map tr_Name items)" "inj_on uuid {k..<k + length items}"
    and "uuid ` {k..<k + length items} \<inter> rw_id ` set rows = {}"
  shows "\<exists>rows'. upsert_rules uuid now k items rows = Inr rows'
    \<and> (\<forall>j<length items. row_of rw_name rows' (tr_Name (items ! j)) =
         Some (upserted (uuid (k + j)) (now (k + j)) (items ! j) (row_of rw_name rows (tr_Name (items ! j)))))
    \<and> (\<forall>n. n \<notin> tr_Name ` set items \<longrightarrow> row_of rw_name rows' n = row_of rw_name rows n)"
  using assms
proof (induction items arbitrary: k rows)
  case (Cons item items)
  have iv: "{k..<k + length (item # items)} = insert k {Suc k..<Suc k + length items}" by auto
  have "uuid k \<notin> rw_id ` set rows" using Cons.prems(3) unfolding iv image_insert by blast
  then obtain rows1 where r1: "upsert_rule (uuid k) (now k) item rows = Inr rows1"
    using upsert_rule_ok by blast
  have "uuid k \<notin> uuid ` {Suc k..<Suc k + length items}"
    using Cons.prems(2) unfolding iv inj_on_insert by auto
  then have fresh: "uuid ` {Suc k..<Suc k + length items} \<inter> rw_id ` set rows1 = {}"
    by (rule disjoint_insert [OF upsert_rule_ids [OF r1]]) (use Cons.prems(3) [unfolded iv image_insert] in blast)
  have inj: "inj_on uuid {Suc k..<Suc k + length items}"
    using Cons.prems(2) unfolding iv by (rule inj_on_subset) auto
  from Cons.IH [OF _ inj fresh] Cons.prems(1) obtain rows' where
    r': "upsert_rules uuid now (Suc k) items rows1 = Inr rows'"
    and at: "\<And>j. j < length items \<Longrightarrow> row_of rw_name rows' (tr_Name (items ! j)) =
      Some (upserted (uuid (Suc k + j)) (now (Suc k + j)) (items ! j) (row_of rw_name rows1 (tr_Name (items ! j))))"
    and other: "\<And>n. n \<notin> tr_Name ` set items \<Longrightarrow> row_of rw_name rows' n = row_of rw_name rows1 n"
    by auto
  have "row_of rw_name rows' (tr_Name ((item # items) ! j)) = Some (upserted (uuid (k + j)) (now (k + j))
      ((item # items) ! j) (row_of rw_name rows (tr_Name ((item # items) ! j))))" if "j < length (item # items)" for j
  proof (cases j)
    case 0
    then show ?thesis using other [of "tr_Name item"] Cons.prems(1) upsert_rule_view [OF r1] by simp
  next
    case (Suc m)
    then have "items ! m \<in> set items" using that by simp
    then have "tr_Name (items ! m) \<noteq> tr_Name item" using Cons.prems(1) by (auto simp: image_iff)
    with Suc that at [of m] show ?thesis by (simp add: upsert_rule_view [OF r1])
  qed
  moreover have "row_of rw_name rows' n = row_of rw_name rows n" if "n \<notin> tr_Name ` set (item # items)" for n
    using that other by (simp add: upsert_rule_view [OF r1])
  ultimately show ?case using r1 r' by auto
qed simp

lemma upsert_rules_fixed:
  assumes "\<And>item. item \<in> set items \<Longrightarrow> \<exists>r. row_of rw_name rows (tr_Name item) = Some r \<and> \<not> upsert_differs item r"
    and "key_distinct rw_name rows" "uuid ` {k..<k + length items} \<inter> rw_id ` set rows = {}"
  shows "upsert_rules uuid now k items rows = Inr rows"
  using assms(1,3)
proof (induction items arbitrary: k)
  case (Cons item items)
  obtain r where r: "row_of rw_name rows (tr_Name item) = Some r" "\<not> upsert_differs item r"
    using Cons.prems(1) [of item] by auto
  then have "r \<in> set rows" "rw_name r = tr_Name item" using row_of_name by blast+
  then have "\<not> (rw_name x = tr_Name item \<and> upsert_differs item x)" if "x \<in> set rows" for x
    using r(2) that key_distinct_inj [OF assms(2)] by metis
  then have "upsert_rule (uuid k) (now k) item rows = Inr rows"
    using Cons.prems(2) \<open>r \<in> set rows\<close> \<open>rw_name r = tr_Name item\<close> by (force simp: upsert_rule_def)
  moreover have "uuid ` {Suc k..<Suc k + length items} \<subseteq> uuid ` {k..<k + length (item # items)}" by auto
  then have "uuid ` {Suc k..<Suc k + length items} \<inter> rw_id ` set rows = {}" using Cons.prems(2) by blast
  then have "upsert_rules uuid now (Suc k) items rows = Inr rows"
    using Cons.prems(1) by (intro Cons.IH) auto
  ultimately show ?case by simp
qed simp

subsection \<open>Properties of imports\<close>

text \<open>
  C18: A merge with fresh identifiers succeeds, and seen by name: a rule of the file that exists keeps
  its identity and creation time and gets the file's content (and a new modification time only if
  something differs), a rule that does not exist is created, and every other rule is untouched.
\<close>

theorem ImportRules_merge:
  assumes "rules_inv rows" "distinct (map tr_Name items)"
    and "inj_on uuid {..<length items}" "uuid ` {..<length items} \<inter> rw_id ` set rows = {}"
  shows "\<exists>rows'. ImportRules uuid now items False rows = (None, rows') \<and> rules_inv rows'
    \<and> (\<forall>j<length items. row_of rw_name rows' (tr_Name (items ! j)) = Some
         (case row_of rw_name rows (tr_Name (items ! j)) of
            None \<Rightarrow> new_rule_row (uuid j) (now j) (items ! j)
          | Some r \<Rightarrow> if upsert_differs (items ! j) r then
              r\<lparr>rw_enabled := boolToInt (tr_Enabled (items ! j)), rw_match := match_json (tr_Match (items ! j)),
                rw_webhook := webhook_json (tr_Webhook (items ! j)), rw_position := tr_Position (items ! j),
                rw_updated_at := now j\<rparr> else r))
    \<and> (\<forall>n. n \<notin> tr_Name ` set items \<longrightarrow> row_of rw_name rows' n = row_of rw_name rows n)"
proof -
  from upsert_rules_view [OF assms(2), of uuid 0 rows now] assms(3,4) obtain rows' where
    r: "upsert_rules uuid now 0 items rows = Inr rows'"
    and v: "\<forall>j<length items. row_of rw_name rows' (tr_Name (items ! j)) =
         Some (upserted (uuid j) (now j) (items ! j) (row_of rw_name rows (tr_Name (items ! j))))"
      "\<forall>n. n \<notin> tr_Name ` set items \<longrightarrow> row_of rw_name rows' n = row_of rw_name rows n"
    by (auto simp: atLeast0LessThan)
  note v' = v [unfolded upserted_def set_content_def]
  have "ImportRules uuid now items False rows = (None, rows')" by (simp add: ImportRules_def r)
  with rules_inv_upserts [OF assms(1) r] v' show ?thesis by blast
qed

definition demo_item :: "string \<Rightarrow> string \<Rightarrow> TransferRule" where
  "demo_item n u = \<lparr>tr_Name = n, tr_Enabled = True, tr_Position = 0, tr_Match = zero_matcher,
     tr_Webhook = zero_webhook\<lparr>wh_URL := u, wh_SigningSecret := ''s''\<rparr>\<rparr>"

definition demo_rules :: rules_table where
  "demo_rules = [new_rule_row ''i1'' 5 (demo_item ''a'' ''https://a.test''),
     new_rule_row ''i2'' 6 (demo_item ''b'' ''https://b.test'')]"

definition demo_uuids :: "nat \<Rightarrow> string" where
  "demo_uuids k = replicate k CHR ''n'' @ ''j''"

lemma demo_rules_facts:
  "rules_inv demo_rules" "inj_on demo_uuids A" "demo_uuids ` {..<2} \<inter> rw_id ` set demo_rules = {}"
proof -
  show "rules_inv demo_rules" by (simp add: rules_inv_def demo_rules_def new_rule_row_def demo_item_def)
  show "inj_on demo_uuids A"
    by (rule inj_onI) (auto simp: demo_uuids_def dest: arg_cong [where f = length])
  show "demo_uuids ` {..<2} \<inter> rw_id ` set demo_rules = {}"
    by (auto simp: demo_uuids_def demo_rules_def new_rule_row_def less_2_cases_iff)
qed

theorem ImportRules_merge_witness:
  "\<exists>rows'. ImportRules demo_uuids (\<lambda>_. 9) [demo_item ''b'' ''https://new.test'', demo_item ''c'' ''https://c.test''] False
      demo_rules = (None, rows')
    \<and> map_option rw_id (row_of rw_name rows' ''b'') = Some ''i2'' \<and> map_option rw_id (row_of rw_name rows' ''c'') = Some ''nj''"
proof -
  let ?items = "[demo_item ''b'' ''https://new.test'', demo_item ''c'' ''https://c.test'']"
  have d: "distinct (map tr_Name ?items)" "demo_uuids ` {..<length ?items} \<inter> rw_id ` set demo_rules = {}"
    using demo_rules_facts(3) by (simp_all add: demo_item_def numeral_2_eq_2)
  obtain rows' where r: "ImportRules demo_uuids (\<lambda>_. 9) ?items False demo_rules = (None, rows')"
    and v: "\<forall>j<length ?items. row_of rw_name rows' (tr_Name (?items ! j)) = Some
         (case row_of rw_name demo_rules (tr_Name (?items ! j)) of
            None \<Rightarrow> new_rule_row (demo_uuids j) 9 (?items ! j)
          | Some r \<Rightarrow> if upsert_differs (?items ! j) r then
              r\<lparr>rw_enabled := boolToInt (tr_Enabled (?items ! j)), rw_match := match_json (tr_Match (?items ! j)),
                rw_webhook := webhook_json (tr_Webhook (?items ! j)), rw_position := tr_Position (?items ! j),
                rw_updated_at := 9\<rparr> else r)"
    using ImportRules_merge [OF demo_rules_facts(1) d(1) demo_rules_facts(2) d(2), of "\<lambda>_. 9"] by blast
  from v [rule_format, of 0] v [rule_format, of 1] r show ?thesis
    by (auto simp: demo_item_def demo_rules_def row_of_def new_rule_row_def demo_uuids_def)
qed

text \<open>A replacing import with fresh identifiers leaves exactly the rules of the file, in its order.\<close>

theorem ImportRules_replace:
  assumes "distinct (map tr_Name items)" "inj_on uuid {..<length items}"
  shows "ImportRules uuid now items True rows =
    (None, map (\<lambda>j. new_rule_row (uuid j) (now j) (items ! j)) [0..<length items])"
proof -
  have "upsert_rules uuid now k its acc = Inr (acc @ map (\<lambda>j. new_rule_row (uuid (k + j)) (now (k + j)) (its ! j)) [0..<length its])"
    if "distinct (map tr_Name its)" "rw_name ` set acc \<inter> tr_Name ` set its = {}"
      "inj_on uuid ({k..<k + length its} \<union> I)" "rw_id ` set acc \<subseteq> uuid ` I" "I \<inter> {k..<k + length its} = {}"
    for k its acc and I :: "nat set"
    using that
  proof (induction its arbitrary: k acc I)
    case (Cons it its)
    have sub: "{k..<k + length (it # its)} \<union> I = {Suc k..<Suc k + length its} \<union> insert k I" by auto
    have "k \<notin> I" using Cons.prems(5) by auto
    then have "uuid k \<notin> uuid ` I"
      using Cons.prems(3) inj_on_image_mem_iff [of uuid "{k..<k + length (it # its)} \<union> I" k I] by auto
    then have "uuid k \<notin> rw_id ` set acc" using Cons.prems(4) by blast
    then have u: "upsert_rule (uuid k) (now k) it acc = Inr (acc @ [new_rule_row (uuid k) (now k) it])"
      using Cons.prems(2) by (auto simp: upsert_rule_def)
    have "upsert_rules uuid now (Suc k) its (acc @ [new_rule_row (uuid k) (now k) it]) =
        Inr ((acc @ [new_rule_row (uuid k) (now k) it]) @
          map (\<lambda>j. new_rule_row (uuid (Suc k + j)) (now (Suc k + j)) (its ! j)) [0..<length its])"
    proof (rule Cons.IH [of _ "Suc k" "insert k I"])
      show "inj_on uuid ({Suc k..<Suc k + length its} \<union> insert k I)" using Cons.prems(3) by (simp only: sub)
      show "rw_id ` set (acc @ [new_rule_row (uuid k) (now k) it]) \<subseteq> uuid ` insert k I"
        using Cons.prems(4) by (auto simp: new_rule_row_def)
      show "insert k I \<inter> {Suc k..<Suc k + length its} = {}" using Cons.prems(5) by auto
    qed (use Cons.prems(1,2) in \<open>auto simp: new_rule_row_def\<close>)
    with u show ?case by (simp add: map_upt_Suc del: upt_Suc)
  qed simp
  from this [of items "[]" 0 "{}"] assms show ?thesis
    by (simp add: ImportRules_def atLeast0LessThan)
qed

theorem ImportRules_replace_witness:
  "ImportRules demo_uuids (\<lambda>_. 9) [demo_item ''c'' ''https://c.test''] True demo_rules =
   (None, [new_rule_row ''j'' 9 (demo_item ''c'' ''https://c.test'')])"
  using ImportRules_replace [of "[demo_item ''c'' ''https://c.test'']" demo_uuids "\<lambda>_. 9" demo_rules]
    demo_rules_facts(2)
  by (simp add: demo_uuids_def)

text \<open>
  Importing the file that was just imported (merging or replacing) once more changes nothing, not
  even a modification time.
\<close>

theorem ImportRules_idempotent:
  assumes "rules_inv rows" "distinct (map tr_Name items)"
    and "inj_on uuid {..<length items}" "uuid ` {..<length items} \<inter> rw_id ` set rows = {}"
    and "ImportRules uuid now items replace rows = (None, rows')"
    and "uuid2 ` {..<length items} \<inter> rw_id ` set rows' = {}"
  shows "ImportRules uuid2 now2 items False rows' = (None, rows')"
proof -
  define rows0 where "rows0 = (if replace then [] else rows)"
  have u: "upsert_rules uuid now 0 items rows0 = Inr rows'"
    using assms(5) by (simp add: ImportRules_def rows0_def [symmetric] split: sum.splits)
  have "rules_inv rows0" using assms(1) by (simp add: rows0_def)
  then have inv: "rules_inv rows'" using rules_inv_upserts u by blast
  have v: "row_of rw_name rows' (tr_Name (items ! j)) = Some (upserted (uuid j) (now j) (items ! j)
      (row_of rw_name rows0 (tr_Name (items ! j))))" if "j < length items" for j
    using upsert_rules_view [OF assms(2), of uuid 0 rows0 now] assms(3,4) u that
    by (auto simp: rows0_def atLeast0LessThan split: if_splits)
  have "upsert_rules uuid2 now2 0 items rows' = Inr rows'"
  proof (rule upsert_rules_fixed)
    fix item assume "item \<in> set items"
    then obtain j where "j < length items" "items ! j = item" by (auto simp: in_set_conv_nth)
    with v upserted_same show "\<exists>r. row_of rw_name rows' (tr_Name item) = Some r \<and> \<not> upsert_differs item r"
      by blast
  qed (use inv assms(6) in \<open>auto simp: rules_inv_def atLeast0LessThan\<close>)
  then show ?thesis by (simp add: ImportRules_def)
qed

theorem ImportRules_idempotent_witness:
  "ImportRules (\<lambda>k. CHR ''z'' # demo_uuids k) (\<lambda>_. 99) [demo_item ''c'' ''https://c.test''] False
     [new_rule_row ''j'' 9 (demo_item ''c'' ''https://c.test'')] =
   (None, [new_rule_row ''j'' 9 (demo_item ''c'' ''https://c.test'')])"
proof (rule ImportRules_idempotent [of demo_rules _ demo_uuids "\<lambda>_. 9" True])
  show "ImportRules demo_uuids (\<lambda>_. 9) [demo_item ''c'' ''https://c.test''] True demo_rules =
      (None, [new_rule_row ''j'' 9 (demo_item ''c'' ''https://c.test'')])"
    by (simp add: ImportRules_def upsert_rule_def demo_uuids_def)
qed (simp_all add: demo_rules_facts(1,2), auto simp: demo_uuids_def demo_rules_def new_rule_row_def)

subsection \<open>Reading back and reloading\<close>

text \<open>Rows the program wrote: both columns were encoded from values it holds.\<close>

definition written_by :: "RuleRecord \<Rightarrow> rule_row \<Rightarrow> bool" where
  "written_by r row \<longleftrightarrow> webhook_ok (rr_Webhook r) \<and>
     row = \<lparr>rw_id = rr_ID r, rw_name = rr_Name r, rw_enabled = boolToInt (rr_Enabled r),
       rw_match = match_json (rr_Match r), rw_webhook = webhook_json (rr_Webhook r),
       rw_position = rr_Position r, rw_created_at = rr_CreatedAt r, rw_updated_at = rr_UpdatedAt r\<rparr>"

definition norm_record :: "RuleRecord \<Rightarrow> RuleRecord" where
  "norm_record r = r\<lparr>rr_Webhook := norm_webhook (rr_Webhook r)\<rparr>"

lemma written_by_fields:
  "written_by r row \<Longrightarrow> rr_ID r = rw_id row \<and> rr_Name r = rw_name row \<and> rr_Position r = rw_position row
     \<and> rw_enabled row = boolToInt (rr_Enabled r)"
  by (cases row) (simp add: written_by_def)

lemma scanRule_written: "written_by r row \<Longrightarrow> scanRule G row = Inr (norm_record r)"
  by (simp add: written_by_def scanRule_def matchers.dec_enc webhooks.dec_enc norm_record_def boolToInt_def)

lemma scan_rows_written:
  "list_all2 written_by rs rows \<Longrightarrow> scan_rows G rows = Inr (map norm_record rs)"
  by (induction rule: list_all2_induct) (simp_all add: scanRule_written)

text \<open>
  A rule saved under a new name is read back as it was saved, its times set, its headers in
  key order and an empty header map turned to nil; a name or identifier already taken is refused and the table is kept.
\<close>

theorem SaveRule_GetRule:
  assumes "rules_inv rows" "webhook_ok (rr_Webhook rule)" "rr_ID rule \<noteq> []"
  shows "case SaveRule uuid now rule rows of
      Inl e \<Rightarrow> e = RuleUnique \<and> (rr_ID rule \<in> rw_id ` set rows \<or> rr_Name rule \<in> rw_name ` set rows)
    | Inr rows' \<Rightarrow> GetRule G (rr_ID rule) rows' = Inr (rule\<lparr>
          rr_CreatedAt := (if rr_CreatedAt rule = zero_time then now else rr_CreatedAt rule),
          rr_UpdatedAt := now,
          rr_Webhook := (rr_Webhook rule)\<lparr>wh_Headers := norm_headers (wh_Headers (rr_Webhook rule))\<rparr>\<rparr>)
        \<and> (\<forall>i. i \<noteq> rr_ID rule \<longrightarrow> GetRule G i rows' = GetRule G i rows)"
proof -
  define row where "row = \<lparr>rw_id = rr_ID rule, rw_name = rr_Name rule,
        rw_enabled = boolToInt (rr_Enabled rule), rw_match = match_json (rr_Match rule),
        rw_webhook = webhook_json (rr_Webhook rule), rw_position = rr_Position rule,
        rw_created_at = (if rr_CreatedAt rule = zero_time then now else rr_CreatedAt rule),
        rw_updated_at = now\<rparr>"
  define r' where "r' = rule\<lparr>rr_CreatedAt := (if rr_CreatedAt rule = zero_time then now else rr_CreatedAt rule),
    rr_UpdatedAt := now\<rparr>"
  have w: "written_by r' row" using assms(2) by (simp add: written_by_def r'_def row_def)
  have s: "SaveRule uuid now rule rows = insert_rule row rows"
    using assms(3) by (simp add: SaveRule_def row_def)
  show ?thesis
  proof (cases "rr_ID rule \<in> rw_id ` set rows \<or> rr_Name rule \<in> rw_name ` set rows")
    case True
    then show ?thesis unfolding s by (simp add: insert_rule_def row_def)
  next
    case False
    then have i: "insert_rule row rows = Inr (rows @ [row])" by (simp add: insert_rule_def row_def)
    from False have n: "row_of rw_id rows (rr_ID rule) = None" by (simp add: row_of_None_iff)
    have k: "rw_id row = rr_ID rule" by (simp add: row_def)
    have "GetRule G (rr_ID rule) (rows @ [row]) = Inr (norm_record r')"
      by (simp add: GetRule_def row_of_append n k scanRule_written [OF w])
    moreover have "GetRule G j (rows @ [row]) = GetRule G j rows" if "j \<noteq> rr_ID rule" for j
      using that by (simp add: GetRule_def row_of_append k split: option.split)
    ultimately show ?thesis
      by (simp add: s i norm_record_def r'_def norm_webhook_def)
  qed
qed

theorem SaveRule_GetRule_witness:
  "case SaveRule demo_uuids 7 (demo_record\<lparr>rr_ID := ''i9''\<rparr>) demo_rules of Inl _ \<Rightarrow> False
   | Inr rows' \<Rightarrow> (case GetRule ascii_lib ''i9'' rows' of Inl _ \<Rightarrow> False
       | Inr r \<Rightarrow> rr_Match r = rr_Match demo_record \<and> rr_UpdatedAt r = 7)"
proof -
  have f: "''i9'' \<notin> rw_id ` set demo_rules" "''alerts'' \<notin> rw_name ` set demo_rules"
    by (simp_all add: demo_rules_def new_rule_row_def demo_item_def)
  have "webhook_ok (rr_Webhook (demo_record\<lparr>rr_ID := ''i9''\<rparr>))"
    by (simp add: demo_record_def webhook_ok_def zero_webhook_def fits_int_def int64_id)
  then show ?thesis
    using SaveRule_GetRule [OF demo_rules_facts(1), where rule = "demo_record\<lparr>rr_ID := ''i9''\<rparr>" and uuid = demo_uuids
        and now = 7 and G = ascii_lib] f
    by (auto simp: demo_record_def split: sum.splits)
qed

text \<open>
  Over rows the program wrote, a reload succeeds and leaves in the engine exactly the enabled
  rules, ordered by position and then by creation time; the secret of a rule is found by its name
  exactly when the rule is enabled. If some enabled row does not decode, the reload fails and the
  engine keeps the rules it had.
\<close>

theorem reloadRules_enabled:
  assumes "rules_inv rows" "\<And>row. row \<in> set rows \<Longrightarrow> \<exists>r. written_by r row"
  shows "\<exists>rs. reloadRules G rows eng = (None, SetRules eng (map ToRule rs))
    \<and> map rr_ID rs = map rw_id (enabled_rows rows)
    \<and> sorted (map rr_Position rs)
    \<and> (\<forall>r row. row \<in> set rows \<and> written_by r row \<longrightarrow>
         SigningSecret (snd (reloadRules G rows eng)) (rr_Name r) =
           (if rr_Enabled r then (wh_SigningSecret (rr_Webhook r), True) else ([], False)))"
proof -
  have sub: "set (enabled_rows rows) = {row \<in> set rows. rw_enabled row = 1}" by (simp add: enabled_rows_def)
  obtain f where f: "\<And>row. row \<in> set rows \<Longrightarrow> written_by (f row) row" using assms(2) by metis
  define rs where "rs = map norm_record (map f (enabled_rows rows))"
  have "list_all2 written_by (map f (enabled_rows rows)) (enabled_rows rows)"
    unfolding list_all2_conv_all_nth using f sub nth_mem by fastforce
  then have scan: "ListEnabledRules G rows = Inr rs"
    unfolding ListEnabledRules_def rs_def by (rule scan_rows_written)
  have n: "rr_ID (norm_record (f row)) = rw_id row" "rr_Name (norm_record (f row)) = rw_name row"
    "rr_Position (norm_record (f row)) = rw_position row" if "row \<in> set rows" for row
    using written_by_fields [OF f [OF that]] by (simp_all add: norm_record_def)
  have ids: "map rr_ID rs = map rw_id (enabled_rows rows)" "map rr_Name rs = map rw_name (enabled_rows rows)"
    "map rr_Position rs = map rw_position (enabled_rows rows)"
    using n sub by (auto simp: rs_def)
  have "sorted (map rw_position (enabled_rows rows))" by (simp add: enabled_rows_def)
  with ids(3) have srt: "sorted (map rr_Position rs)" by simp
  have names: "x = y" if "x \<in> set rows" "y \<in> set rows" "rw_name x = rw_name y" for x y
    using that assms(1) key_distinct_inj [of rw_name rows] by (auto simp: rules_inv_def)
  have "distinct (enabled_rows rows)"
    using assms(1) by (auto simp: enabled_rows_def rules_inv_def key_distinct_def distinct_map)
  then have dist: "distinct (map ru_Name (map ToRule rs))"
    using names sub by (auto simp: rs_def distinct_map comp_def ToRule_def n inj_on_def)
  define eng' where "eng' = SetRules eng (map ToRule rs)"
  have eng: "reloadRules G rows eng = (None, eng')" by (simp add: reloadRules_def scan eng'_def)
  have "SigningSecret eng' (rr_Name r) = (if rr_Enabled r then (wh_SigningSecret (rr_Webhook r), True) else ([], False))"
    if row: "row \<in> set rows" "written_by r row" for r row
  proof (cases "rr_Enabled r")
    case True
    have "written_by (f row) row" using f row by blast
    then have sec: "scanRule G row = Inr (norm_record r)" "scanRule G row = Inr (norm_record (f row))"
      using row(2) scanRule_written by blast+
    from True row have "row \<in> set (enabled_rows rows)" by (simp add: sub written_by_def boolToInt_def)
    then have "ToRule (norm_record (f row)) \<in> set (map ToRule rs)" by (auto simp: rs_def)
    then have "ToRule (norm_record r) \<in> set (map ToRule rs)" using sec by simp
    from find_secret_found [OF dist this] True show ?thesis
      by (simp add: SigningSecret_def eng'_def SetRules_def ToRule_def norm_record_def norm_webhook_def)
  next
    case False
    have "rw_name row \<noteq> rw_name x" if "x \<in> set (enabled_rows rows)" for x
    proof
      assume "rw_name row = rw_name x"
      with names row that have "x = row" by (auto simp: sub)
      with that row False show False by (simp add: sub written_by_def boolToInt_def)
    qed
    then have "rw_name row \<notin> set (map rw_name (enabled_rows rows))" by auto
    then have "rr_Name r \<notin> rr_Name ` set rs"
      using written_by_fields [OF row(2)] by (simp add: ids(2) [symmetric])
    then have "rr_Name r \<notin> ru_Name ` set (map ToRule rs)" by (auto simp: ToRule_def)
    then have "find_secret (map ToRule rs) (rr_Name r) = ([], False)"
      by (induction rs) (auto simp: ToRule_def)
    with False show ?thesis by (simp add: SigningSecret_def eng'_def SetRules_def)
  qed
  with eng ids(1) srt show ?thesis unfolding eng'_def by auto
qed

definition demo_written :: "string \<Rightarrow> string \<Rightarrow> bool \<Rightarrow> RuleRecord" where
  "demo_written i n b = demo_record\<lparr>rr_ID := i, rr_Name := n, rr_Enabled := b,
     rr_Webhook := zero_webhook\<lparr>wh_SigningSecret := ''s''\<rparr>\<rparr>"

definition demo_row_of :: "RuleRecord \<Rightarrow> rule_row" where
  "demo_row_of r = \<lparr>rw_id = rr_ID r, rw_name = rr_Name r, rw_enabled = boolToInt (rr_Enabled r),
     rw_match = match_json (rr_Match r), rw_webhook = webhook_json (rr_Webhook r),
     rw_position = rr_Position r, rw_created_at = rr_CreatedAt r, rw_updated_at = rr_UpdatedAt r\<rparr>"

theorem reloadRules_enabled_witness:
  "let eng = snd (reloadRules ascii_lib
       [demo_row_of (demo_written ''i1'' ''on'' True), demo_row_of (demo_written ''i2'' ''off'' False)] NewEngine) in
   SigningSecret eng ''on'' = (''s'', True) \<and> SigningSecret eng ''off'' = ([], False)"
proof -
  let ?rows = "[demo_row_of (demo_written ''i1'' ''on'' True), demo_row_of (demo_written ''i2'' ''off'' False)]"
  have w: "written_by (demo_written i n b) (demo_row_of (demo_written i n b))" for i n b
    by (simp add: written_by_def demo_row_of_def demo_written_def webhook_ok_def zero_webhook_def)
  have "rules_inv ?rows" by (simp add: rules_inv_def demo_row_of_def demo_written_def)
  moreover have "\<exists>r. written_by r row" if "row \<in> set ?rows" for row using that w by auto
  ultimately have "\<forall>r row. row \<in> set ?rows \<and> written_by r row \<longrightarrow>
      SigningSecret (snd (reloadRules ascii_lib ?rows NewEngine)) (rr_Name r) =
        (if rr_Enabled r then (wh_SigningSecret (rr_Webhook r), True) else ([], False))"
    using reloadRules_enabled [of ?rows ascii_lib NewEngine] by blast
  from this [rule_format, of "demo_row_of (demo_written ''i1'' ''on'' True)" "demo_written ''i1'' ''on'' True"]
    this [rule_format, of "demo_row_of (demo_written ''i2'' ''off'' False)" "demo_written ''i2'' ''off'' False"] w
  show ?thesis by (simp add: demo_written_def)
qed

end
