(* ===== verification/SyncDocs.thy ===== *)
theory SyncDocs
  imports Prelude
begin

section \<open>The documentation site (\<open>site/scripts/sync-docs.mjs\<close>)\<close>

text \<open>
  The script that turns the README and \<open>docs/*.md\<close> into pages of the site. A JavaScript string is the
  list of its UTF-16 code units, and \<open>js\<close> writes an ASCII literal. Each regular expression of the
  script is a matcher: given the unit before the position (for \<open>\b\<close> and a multi-line \<open>^\<close>) and
  the rest of the text, it tells how many units match and what replaces them. \<open>path.posix\<close> is modelled
  on the segments of a path. A file is the string \<open>readFileSync\<close> decodes it to; the run yields the
  pages written below \<open>src/content/docs\<close> and the list of copied files.
\<close>

type_synonym jstr = "nat list"

definition js :: "string \<Rightarrow> jstr" where
  "js s = map of_char s"

subsection \<open>Strings and regular expressions\<close>

definition is_word :: "nat \<Rightarrow> bool" where
  "is_word u = (48 \<le> u \<and> u \<le> 57 \<or> 65 \<le> u \<and> u \<le> 90 \<or> u = 95 \<or> 97 \<le> u \<and> u \<le> 122)"

definition is_letter :: "nat \<Rightarrow> bool" where
  "is_letter u = (65 \<le> u \<and> u \<le> 90 \<or> 97 \<le> u \<and> u \<le> 122)"

text \<open>\<open>\s\<close>, which is also what \<open>trim\<close> removes, and the line terminators, which \<open>.\<close> excludes.\<close>

definition is_space :: "nat \<Rightarrow> bool" where
  "is_space u = (9 \<le> u \<and> u \<le> 13 \<or> u = 32 \<or> u = 160 \<or> u = 0x1680 \<or> 0x2000 \<le> u \<and> u \<le> 0x200A
     \<or> u = 0x2028 \<or> u = 0x2029 \<or> u = 0x202F \<or> u = 0x205F \<or> u = 0x3000 \<or> u = 0xFEFF)"

definition is_eol :: "nat \<Rightarrow> bool" where
  "is_eol u = (u = 10 \<or> u = 13 \<or> u = 0x2028 \<or> u = 0x2029)"

definition startsWith :: "jstr \<Rightarrow> jstr \<Rightarrow> bool" where
  "startsWith s p = (take (length p) s = p)"

definition endsWith :: "jstr \<Rightarrow> jstr \<Rightarrow> bool" where
  "endsWith s p = (length p \<le> length s \<and> drop (length s - length p) s = p)"

fun split_on :: "nat \<Rightarrow> jstr \<Rightarrow> jstr list" where
  "split_on c [] = [[]]"
| "split_on c (x # xs) =
     (if x = c then [] # split_on c xs
      else (case split_on c xs of [] \<Rightarrow> [[x]] | y # ys \<Rightarrow> (x # y) # ys))"

fun join_with :: "nat \<Rightarrow> jstr list \<Rightarrow> jstr" where
  "join_with c [] = []"
| "join_with c [x] = x"
| "join_with c (x # y # ys) = x @ c # join_with c (y # ys)"

definition trim :: "jstr \<Rightarrow> jstr" where
  "trim s = rev (dropWhile is_space (rev (dropWhile is_space s)))"

text \<open>The number of units before the first occurrence of a text.\<close>

fun find_at :: "jstr \<Rightarrow> jstr \<Rightarrow> nat option" where
  "find_at p [] = (if p = [] then Some 0 else None)"
| "find_at p (x # xs) = (if startsWith (x # xs) p then Some 0 else map_option Suc (find_at p xs))"

text \<open>A matcher, \<open>replace\<close> with a \<open>g\<close> flag, \<open>replace\<close> without, and the first match of \<open>match\<close>.\<close>

type_synonym 'a matcher = "nat option \<Rightarrow> jstr \<Rightarrow> (nat \<times> 'a) option"

fun replace_all :: "jstr matcher \<Rightarrow> nat \<Rightarrow> nat option \<Rightarrow> jstr \<Rightarrow> jstr" where
  "replace_all m k prev [] = []"
| "replace_all m (Suc k) prev (x # xs) = replace_all m k (Some x) xs"
| "replace_all m 0 prev (x # xs) =
     (case m prev (x # xs) of
        None \<Rightarrow> x # replace_all m 0 (Some x) xs
      | Some (n, r) \<Rightarrow> r @ replace_all m (n - 1) (Some x) xs)"

fun remove_first :: "'a matcher \<Rightarrow> nat option \<Rightarrow> jstr \<Rightarrow> jstr" where
  "remove_first m prev [] = []"
| "remove_first m prev (x # xs) =
     (case m prev (x # xs) of
        None \<Rightarrow> x # remove_first m (Some x) xs
      | Some (n, _) \<Rightarrow> drop n (x # xs))"

fun first_match :: "'a matcher \<Rightarrow> nat option \<Rightarrow> jstr \<Rightarrow> 'a option" where
  "first_match m prev [] = None"
| "first_match m prev (x # xs) =
     (case m prev (x # xs) of None \<Rightarrow> first_match m (Some x) xs | Some (_, a) \<Rightarrow> Some a)"

definition line_start :: "nat option \<Rightarrow> bool" where
  "line_start prev = (case prev of None \<Rightarrow> True | Some u \<Rightarrow> is_eol u)"

subsection \<open>\<open>path.posix\<close>\<close>

text \<open>The segments of \<open>normalize\<close>: the stack is reversed, and \<open>up\<close> allows \<open>..\<close> at the top.\<close>

fun norm_segments :: "bool \<Rightarrow> jstr list \<Rightarrow> jstr list \<Rightarrow> jstr list" where
  "norm_segments up stack [] = rev stack"
| "norm_segments up stack (p # ps) =
     (if p = [] \<or> p = js ''.'' then norm_segments up stack ps
      else if p = js ''..'' then
        (if stack \<noteq> [] \<and> hd stack \<noteq> js ''..'' then norm_segments up (tl stack) ps
         else if up then norm_segments up (p # stack) ps
         else norm_segments up stack ps)
      else norm_segments up (p # stack) ps)"

definition path_normalize :: "jstr \<Rightarrow> jstr" where
  "path_normalize p =
     (if p = [] then js ''.''
      else
        (let absolute = (hd p = 47);
             trailing = (last p = 47);
             q = join_with 47 (norm_segments (\<not> absolute) [] (split_on 47 p));
             q = (if q = [] \<and> \<not> absolute then js ''.'' else q);
             q = (if q \<noteq> [] \<and> trailing then q @ js ''/'' else q)
         in if absolute then js ''/'' @ q else q))"

definition path_join :: "jstr \<Rightarrow> jstr \<Rightarrow> jstr" where
  "path_join a b =
     (let joined = join_with 47 (filter (\<lambda>p. p \<noteq> []) [a, b])
      in if joined = [] then js ''.'' else path_normalize joined)"

subsection \<open>Constants (\<open>site/site.config.mjs\<close>)\<close>

definition BASE :: jstr where
  "BASE = js ''/mailrelay''"

definition REPO_URL :: jstr where
  "REPO_URL = js ''https://github.com/gowthamgts/mailrelay''"

definition blobURL :: jstr where
  "blobURL = REPO_URL @ js ''/blob/main/''"

definition editURL :: jstr where
  "editURL = REPO_URL @ js ''/edit/main/''"

definition page_names :: "jstr list \<Rightarrow> jstr list" where
  "page_names listing =
     map (\<lambda>f. take (length f - 3) f)
       (filter (\<lambda>f. endsWith f (js ''.md'') \<and> f \<noteq> js ''README.md'') listing)"

subsection \<open>Links\<close>

text \<open>\<open>/^([a-z]+:|#|\/)/i\<close>.\<close>

definition is_absolute_target :: "jstr \<Rightarrow> bool" where
  "is_absolute_target t =
     (startsWith t (js ''#'') \<or> startsWith t (js ''/'')
      \<or> takeWhile is_letter t \<noteq> [] \<and> startsWith (dropWhile is_letter t) (js '':''))"

text \<open>\<open>/^docs\/([\w-]+)\.md$/\<close>.\<close>

definition docs_page :: "jstr \<Rightarrow> jstr option" where
  "docs_page p =
     (let name = take (length p - 8) (drop 5 p) in
      if startsWith p (js ''docs/'') \<and> endsWith p (js ''.md'') \<and> 8 < length p
         \<and> list_all (\<lambda>u. is_word u \<or> u = 45) name
      then Some name else None)"

definition rewriteTarget :: "jstr list \<Rightarrow> jstr \<Rightarrow> jstr \<Rightarrow> jstr" where
  "rewriteTarget pages target fromDir =
     (if is_absolute_target target then target
      else
        (let parts = split_on 35 target;
             path = hd parts;
             repoPath = path_normalize (path_join fromDir path);
             anchor = (case tl parts of [] \<Rightarrow> [] | hash # _ \<Rightarrow> if hash = [] then [] else js ''#'' @ hash)
         in if repoPath = js ''README.md'' then BASE @ js ''/'' @ anchor
            else case docs_page repoPath of
              Some page \<Rightarrow>
                if page \<in> set pages then BASE @ js ''/'' @ page @ js ''/'' @ anchor
                else blobURL @ repoPath @ anchor
            | None \<Rightarrow>
                if startsWith repoPath (js ''docs/screenshots/'') then BASE @ js ''/'' @ drop 5 repoPath
                else blobURL @ repoPath @ anchor))"

text \<open>\<open>/\]\(([^)\s]+)\)/g\<close> and \<open>/\b(src|srcset)="([^"]+)"/g\<close>, with what replaces a match.\<close>

definition md_link :: "(jstr \<Rightarrow> jstr) \<Rightarrow> jstr matcher" where
  "md_link f prev s =
     (let t = takeWhile (\<lambda>u. u \<noteq> 41 \<and> \<not> is_space u) (drop 2 s) in
      if startsWith s (js '']('') \<and> t \<noteq> [] \<and> startsWith (drop (2 + length t) s) (js '')'')
      then Some (3 + length t, js '']('' @ f t @ js '')'') else None)"

definition attr_value :: "(jstr \<Rightarrow> jstr) \<Rightarrow> jstr \<Rightarrow> jstr \<Rightarrow> (nat \<times> jstr) option" where
  "attr_value f attr s =
     (let p = attr @ [61, 34];
          t = takeWhile (\<lambda>u. u \<noteq> 34) (drop (length p) s)
      in if startsWith s p \<and> t \<noteq> [] \<and> startsWith (drop (length p + length t) s) [34]
         then Some (length p + length t + 1, p @ f t @ [34]) else None)"

definition src_attr :: "(jstr \<Rightarrow> jstr) \<Rightarrow> jstr matcher" where
  "src_attr f prev s =
     (if (case prev of Some u \<Rightarrow> is_word u | None \<Rightarrow> False) then None
      else case attr_value f (js ''src'') s of Some r \<Rightarrow> Some r | None \<Rightarrow> attr_value f (js ''srcset'') s)"

definition rewriteLinks :: "jstr list \<Rightarrow> jstr \<Rightarrow> jstr \<Rightarrow> jstr" where
  "rewriteLinks pages md fromDir =
     (let f = (\<lambda>t. rewriteTarget pages t fromDir)
      in replace_all (src_attr f) 0 None (replace_all (md_link f) 0 None md))"

subsection \<open>Alerts\<close>

text \<open>
  Indexing the object literal \<open>asideTypes\<close> also finds what it inherits from \<open>Object.prototype\<close>, whose
  members are all true as conditions; the texts are those a template literal gives for them in V8.
\<close>

definition asideTypes :: "(jstr \<times> jstr) list" where
  "asideTypes =
     [(js ''NOTE'', js ''note''), (js ''TIP'', js ''tip''), (js ''IMPORTANT'', js ''caution''),
      (js ''WARNING'', js ''caution''), (js ''CAUTION'', js ''danger'')]"

definition native_text :: "string \<Rightarrow> jstr" where
  "native_text name = js (''function '' @ name @ ''() { [native code] }'')"

definition inherited_members :: "(jstr \<times> jstr) list" where
  "inherited_members =
     (js ''__proto__'', js ''[object Object]'') # (js ''constructor'', native_text ''Object'')
     # map (\<lambda>n. (js n, native_text n))
       [''toString'', ''toLocaleString'', ''valueOf'', ''hasOwnProperty'', ''isPrototypeOf'',
        ''propertyIsEnumerable'', ''__defineGetter__'', ''__defineSetter__'', ''__lookupGetter__'', ''__lookupSetter__'']"

definition aside_type :: "jstr \<Rightarrow> jstr option" where
  "aside_type name = map_of (asideTypes @ inherited_members) name"

text \<open>\<open>/^> \[!(\w+)\]\s*$/\<close> on one line.\<close>

definition alert_name :: "jstr \<Rightarrow> jstr option" where
  "alert_name line =
     (let s = drop 4 line; name = takeWhile is_word s; rest = drop (length name) s in
      if startsWith line (js ''> [!'') \<and> name \<noteq> [] \<and> startsWith rest (js '']'') \<and> list_all is_space (drop 1 rest)
      then Some name else None)"

text \<open>\<open>replace(/^> ?/, '')\<close>.\<close>

definition strip_quote :: "jstr \<Rightarrow> jstr" where
  "strip_quote line =
     (if startsWith line (js ''> '') then drop 2 line
      else if startsWith line (js ''>'') then drop 1 line else line)"

definition quoted :: "jstr \<Rightarrow> bool" where
  "quoted line = startsWith line (js ''>'')"

function convert_lines :: "jstr list \<Rightarrow> jstr list" where
  "convert_lines [] = []"
| "convert_lines (line # lines) =
     (case alert_name line of
        None \<Rightarrow> line # convert_lines lines
      | Some name \<Rightarrow>
          (case aside_type name of
             None \<Rightarrow> line # convert_lines lines
           | Some ty \<Rightarrow>
               (js '':::'' @ ty) # map strip_quote (takeWhile quoted lines) @ [js '':::'']
                 @ convert_lines (dropWhile quoted lines)))"
  by pat_completeness auto
termination
  by (relation "measure length") (auto simp: length_dropWhile_le less_Suc_eq_le)

definition convertAlerts :: "jstr \<Rightarrow> jstr" where
  "convertAlerts md = join_with 10 (convert_lines (split_on 10 md))"

subsection \<open>Frontmatter\<close>

text \<open>\<open>JSON.stringify\<close> of a string, with its escapes; a lone surrogate is escaped as well.\<close>

definition hex_unit :: "nat \<Rightarrow> nat" where
  "hex_unit n = (if n < 10 then 48 + n else 87 + n)"

definition hex4 :: "nat \<Rightarrow> jstr" where
  "hex4 u = [92, 117, hex_unit (u div 4096 mod 16), hex_unit (u div 256 mod 16), hex_unit (u div 16 mod 16), hex_unit (u mod 16)]"

definition escape_unit :: "nat \<Rightarrow> jstr" where
  "escape_unit u =
     (if u = 8 then [92, 98] else if u = 9 then [92, 116] else if u = 10 then [92, 110]
      else if u = 12 then [92, 102] else if u = 13 then [92, 114] else if u = 34 then [92, 34]
      else if u = 92 then [92, 92] else if u < 32 then hex4 u else [u])"

definition is_lead :: "nat \<Rightarrow> bool" where
  "is_lead u = (0xD800 \<le> u \<and> u \<le> 0xDBFF)"

definition is_trail :: "nat \<Rightarrow> bool" where
  "is_trail u = (0xDC00 \<le> u \<and> u \<le> 0xDFFF)"

fun quote_units :: "jstr \<Rightarrow> jstr" where
  "quote_units [] = []"
| "quote_units [u] = (if is_lead u \<or> is_trail u then hex4 u else escape_unit u)"
| "quote_units (u # v # s) =
     (if is_lead u \<and> is_trail v then u # v # quote_units s
      else (if is_lead u \<or> is_trail u then hex4 u else escape_unit u) @ quote_units (v # s))"

definition json_string :: "jstr \<Rightarrow> jstr" where
  "json_string s = 34 # quote_units s @ [34]"

text \<open>A field whose value is \<open>undefined\<close> is written as the text \<open>undefined\<close>.\<close>

definition stringify :: "jstr option \<Rightarrow> jstr" where
  "stringify v = (case v of None \<Rightarrow> js ''undefined'' | Some s \<Rightarrow> json_string s)"

definition frontmatter :: "(jstr \<times> jstr option) list \<Rightarrow> jstr" where
  "frontmatter attrs =
     js ''---'' @ [10] @ join_with 10 (map (\<lambda>(k, v). k @ js '': '' @ stringify v) attrs) @ [10] @ js ''---'' @ [10, 10]"

definition page_text :: "jstr list \<Rightarrow> (jstr \<times> jstr option) list \<Rightarrow> jstr \<Rightarrow> jstr \<Rightarrow> jstr" where
  "page_text pages attrs body fromDir =
     frontmatter attrs @ trim (convertAlerts (rewriteLinks pages body fromDir)) @ [10]"

type_synonym site_pages = "jstr \<Rightarrow> jstr option"

definition writePage ::
    "jstr list \<Rightarrow> jstr \<Rightarrow> (jstr \<times> jstr option) list \<Rightarrow> jstr \<Rightarrow> jstr \<Rightarrow> site_pages \<Rightarrow> site_pages" where
  "writePage pages slug attrs body fromDir out =
     out(slug @ js ''.md'' \<mapsto> page_text pages attrs body fromDir)"

subsection \<open>Titles\<close>

text \<open>\<open>/^# (.+)$/m\<close> and \<open>/^# .+\n/m\<close>.\<close>

definition title_line :: "jstr matcher" where
  "title_line prev s =
     (let t = takeWhile (\<lambda>u. \<not> is_eol u) (drop 2 s) in
      if line_start prev \<and> startsWith s (js ''# '') \<and> t \<noteq> [] then Some (2 + length t, t) else None)"

definition heading_line :: "jstr matcher" where
  "heading_line prev s =
     (case title_line prev s of
        None \<Rightarrow> None
      | Some (n, t) \<Rightarrow> if startsWith (drop n s) [10] then Some (Suc n, t) else None)"

datatype sync_error = NoTitle jstr

definition doc_page :: "jstr list \<Rightarrow> jstr \<Rightarrow> jstr \<Rightarrow> jstr \<Rightarrow> site_pages \<Rightarrow> site_pages" where
  "doc_page pages page title md out =
     writePage pages page
       [(js ''title'', Some title), (js ''editUrl'', Some (editURL @ js ''docs/'' @ page @ js ''.md''))]
       (remove_first heading_line None md) (js ''docs'') out"

fun write_docs ::
    "jstr list \<Rightarrow> (jstr \<Rightarrow> jstr) \<Rightarrow> jstr list \<Rightarrow> site_pages \<Rightarrow> sync_error option \<times> site_pages"
where
  "write_docs pages src [] out = (None, out)"
| "write_docs pages src (page # ps) out =
     (let md = src (page @ js ''.md'') in
      case first_match title_line None md of
        None \<Rightarrow> (Some (NoTitle page), out)
      | Some title \<Rightarrow> write_docs pages src ps (doc_page pages page title md out))"

subsection \<open>The home page\<close>

definition p_open :: jstr where
  "p_open = js ''<p align='' @ 34 # js ''center'' @ 34 # js ''>''"

definition p_close :: jstr where
  "p_close = js ''</p>''"

text \<open>How many units \<open>\s*\<close> takes.\<close>

definition spaces :: "jstr \<Rightarrow> nat" where
  "spaces s = length (takeWhile is_space s)"

text \<open>\<open>/<p align="center">([^<]+)<\/p>/\<close>, and the same followed by \<open>\s*\<close>.\<close>

definition tagline_match :: "jstr matcher" where
  "tagline_match prev s =
     (let n = length p_open; t = takeWhile (\<lambda>u. u \<noteq> 60) (drop n s); k = n + length t in
      if startsWith s p_open \<and> t \<noteq> [] \<and> startsWith (drop k s) p_close then Some (k + length p_close, t) else None)"

definition tagline_block :: "jstr matcher" where
  "tagline_block prev s =
     (case tagline_match prev s of None \<Rightarrow> None | Some (n, t) \<Rightarrow> Some (n + spaces (drop n s), t))"

text \<open>\<open>/^<p align="center">\s*<img src="assets\/logo\.png"[^]*?<\/p>\s*/\<close>, at the start of the text only.\<close>

definition logo_open :: jstr where
  "logo_open = js ''<img src='' @ 34 # js ''assets/logo.png'' @ [34]"

definition remove_logo :: "jstr \<Rightarrow> jstr" where
  "remove_logo s =
     (let n = length p_open; k = n + spaces (drop n s); i = k + length logo_open in
      if startsWith s p_open \<and> startsWith (drop k s) logo_open then
        (case find_at p_close (drop i s) of
           None \<Rightarrow> s
         | Some m \<Rightarrow> (let rest = drop (i + m + length p_close) s in drop (spaces rest) rest))
      else s)"

text \<open>\<open>/^<h1 align="center">.*<\/h1>\s*/m\<close>: \<open>.*\<close> is greedy, so the last closing tag of the line counts.\<close>

definition h1_open :: jstr where
  "h1_open = js ''<h1 align='' @ 34 # js ''center'' @ 34 # js ''>''"

fun last_at :: "jstr \<Rightarrow> jstr \<Rightarrow> nat option" where
  "last_at p [] = (if p = [] then Some 0 else None)"
| "last_at p (x # xs) =
     (case last_at p xs of
        Some i \<Rightarrow> Some (Suc i)
      | None \<Rightarrow> if startsWith (x # xs) p then Some 0 else None)"

definition h1_block :: "jstr matcher" where
  "h1_block prev s =
     (let n = length h1_open; line = takeWhile (\<lambda>u. \<not> is_eol u) (drop n s) in
      if line_start prev \<and> startsWith s h1_open then
        (case last_at (js ''</h1>'') line of
           None \<Rightarrow> None
         | Some m \<Rightarrow> (let k = n + m + 5 in Some (k + spaces (drop k s), [])))
      else None)"

text \<open>
  \<open>/<p align="center">(?:(?!<\/p>)[^])*badge(?:(?!<\/p>)[^])*<\/p>\s*/g\<close>: up to the first closing tag, with
  \<open>badge\<close> before it.
\<close>

definition badge_block :: "jstr matcher" where
  "badge_block prev s =
     (let n = length p_open in
      if startsWith s p_open then
        (case find_at p_close (drop n s) of
           None \<Rightarrow> None
         | Some m \<Rightarrow>
             if find_at (js ''badge'') (take m (drop n s)) = None then None
             else (let k = n + m + length p_close in Some (k + spaces (drop k s), [])))
      else None)"

definition readme_tagline :: "jstr \<Rightarrow> jstr option" where
  "readme_tagline readme = map_option trim (first_match tagline_match None readme)"

definition readme_body :: "jstr \<Rightarrow> jstr" where
  "readme_body readme =
     replace_all badge_block 0 None
       (remove_first tagline_block None (remove_first h1_block None (remove_logo readme)))"

definition home_page :: "jstr list \<Rightarrow> jstr \<Rightarrow> site_pages \<Rightarrow> site_pages" where
  "home_page pages readme out =
     (let tagline = readme_tagline readme in
      writePage pages (js ''index'')
        [(js ''title'', Some (js ''Introduction'')), (js ''description'', tagline),
         (js ''editUrl'', Some (editURL @ js ''README.md''))]
        ((case tagline of None \<Rightarrow> js ''undefined'' | Some t \<Rightarrow> t) @ [10, 10] @ readme_body readme) [] out)"

subsection \<open>The run\<close>

text \<open>
  The repository as the script reads it: the listings of \<open>docs\<close> and \<open>docs/screenshots\<close> and the text of
  a file in \<open>docs\<close> and of the README. The content folder is emptied first; an exception ends the run
  with what was written before it and without a copy.
\<close>

record doc_repo =
  dc_listing :: "jstr list"
  dc_text :: "jstr \<Rightarrow> jstr"
  dc_readme :: jstr
  dc_screenshots :: "jstr list"

definition static_copies :: "doc_repo \<Rightarrow> (jstr \<times> jstr) list" where
  "static_copies r =
     map (\<lambda>f. (js ''docs/screenshots/'' @ f, js ''site/public/screenshots/'' @ f)) (dc_screenshots r)
     @ [(js ''internal/webui/static/favicon.svg'', js ''site/public/favicon.svg''),
        (js ''assets/logo.png'', js ''site/src/assets/logo.png'')]"

definition sync :: "doc_repo \<Rightarrow> sync_error option \<times> site_pages \<times> (jstr \<times> jstr) list" where
  "sync r =
     (let pages = page_names (dc_listing r) in
      case write_docs pages (dc_text r) pages Map.empty of
        (Some err, out) \<Rightarrow> (Some err, out, [])
      | (None, out) \<Rightarrow> (None, home_page pages (dc_readme r) out, static_copies r))"

end
