(* ===== verification/SyncDocsProps.thy ===== *)
theory SyncDocsProps
  imports SyncDocs
begin

section \<open>Properties of the documentation script\<close>

text \<open>
  Where a link ends up, what an alert becomes, that a frontmatter value stays on its line and can be
  read back, and which pages a run writes or why it stops.
\<close>

subsection \<open>Strings\<close>

lemma startsWith_append [simp]: "startsWith (p @ s) p"
  by (simp add: startsWith_def)

lemma startsWith_iff: "startsWith s p \<longleftrightarrow> (\<exists>t. s = p @ t)"
  by (metis append_take_drop_id startsWith_def append_eq_conv_conj)

lemma endsWith_append [simp]: "endsWith (s @ p) p"
  by (simp add: endsWith_def)

lemma js_simps [simp]:
  "js [] = []" "js (c # cs) = of_char c # js cs"
  by (simp_all add: js_def)

lemma split_on_not_Nil [simp]: "split_on c s \<noteq> []"
  by (induction s) (auto split: list.split)

lemma split_on_free: "c \<notin> set s \<Longrightarrow> split_on c s = [s]"
  by (induction s) auto

lemma split_on_sep: "c \<notin> set s \<Longrightarrow> split_on c (s @ c # t) = s # split_on c t"
  by (induction s) auto

lemma join_with_Cons: "ys \<noteq> [] \<Longrightarrow> join_with c (x # ys) = x @ c # join_with c ys"
  by (cases ys) auto

lemma split_on_join:
  "xs \<noteq> [] \<Longrightarrow> \<forall>x\<in>set xs. c \<notin> set x \<Longrightarrow> split_on c (join_with c xs) = xs"
proof (induction xs)
  case (Cons x xs)
  then show ?case
    by (cases "xs = []") (auto simp: split_on_free split_on_sep join_with_Cons)
qed simp

lemma split_on_join_rest:
  "xs \<noteq> [] \<Longrightarrow> \<forall>x\<in>set xs. c \<notin> set x \<Longrightarrow> split_on c (join_with c xs @ c # t) = xs @ split_on c t"
proof (induction xs)
  case (Cons x xs)
  then show ?case
    by (cases "xs = []") (auto simp: split_on_free split_on_sep join_with_Cons)
qed simp

lemma join_split: "join_with c (split_on c s) = s"
proof (induction s)
  case (Cons x xs)
  then show ?case
    by (cases "split_on c xs"; cases "tl (split_on c xs)") (auto simp: join_with_Cons)
qed simp

subsection \<open>Links\<close>

lemma absolute_slash: "is_absolute_target (js ''/'' @ s)"
  by (simp add: is_absolute_target_def startsWith_def)

lemma absolute_base: "is_absolute_target (BASE @ s)"
  by (simp add: is_absolute_target_def startsWith_def BASE_def)

lemma absolute_blob: "is_absolute_target (blobURL @ s)"
  by (simp add: is_absolute_target_def startsWith_def blobURL_def REPO_URL_def is_letter_def)

lemma rewriteTarget_absolute: "is_absolute_target (rewriteTarget pages t d)"
proof (cases "is_absolute_target t")
  case False
  then show ?thesis
    by (auto simp: rewriteTarget_def Let_def absolute_base absolute_blob split: option.split)
qed (simp add: rewriteTarget_def)

text \<open>
  Whatever a link says, its rewritten form is absolute: a site route, a URL or an anchor. Rewriting
  it again, from any folder, leaves it alone, so the two passes of \<open>rewriteLinks\<close> cannot
  rewrite a link twice.
\<close>

theorem rewriteTarget_idempotent:
  "is_absolute_target (rewriteTarget pages t d)
   \<and> rewriteTarget pages' (rewriteTarget pages t d) d' = rewriteTarget pages t d"
  using rewriteTarget_absolute [of pages t d] rewriteTarget_def [of pages' "rewriteTarget pages t d" d']
  by simp

definition page_char :: "nat \<Rightarrow> bool" where
  "page_char u = (is_word u \<or> u = 45)"

lemma page_char_sep: "list_all page_char p \<Longrightarrow> 47 \<notin> set p \<and> 35 \<notin> set p \<and> 46 \<notin> set p \<and> 58 \<notin> set p"
  by (auto simp: list_all_iff page_char_def is_word_def)

lemma relative_page:
  assumes "list_all page_char p" "p \<noteq> []"
  shows "\<not> is_absolute_target (p @ js ''.md'' @ s)"
proof -
  have p: "\<forall>u\<in>set p. u \<noteq> 35 \<and> u \<noteq> 47 \<and> u \<noteq> 58" using page_char_sep [OF assms(1)] by blast
  have dot: "\<not> is_letter 46" by (simp add: is_letter_def)
  have "\<not> startsWith (dropWhile is_letter (p @ 46 # s')) [58]" for s'
    using p by (induction p) (simp_all add: startsWith_def dot)
  with p assms(2) show ?thesis
    by (cases p) (simp_all add: is_absolute_target_def startsWith_def)
qed

lemma normalize_docs:
  assumes "list_all page_char p" "p \<noteq> []"
  shows "path_normalize (js ''docs/'' @ p @ js ''.md'') = js ''docs/'' @ p @ js ''.md''"
proof -
  have p: "47 \<notin> set p" "46 \<notin> set p" using page_char_sep [OF assms(1)] by auto
  have "split_on 47 (js ''docs/'' @ p @ js ''.md'') = split_on 47 (js ''docs'' @ 47 # (p @ js ''.md''))" by simp
  also have "\<dots> = js ''docs'' # split_on 47 (p @ js ''.md'')" by (rule split_on_sep) simp
  also have "split_on 47 (p @ js ''.md'') = [p @ js ''.md'']" using p(1) by (simp add: split_on_free)
  finally have "split_on 47 (js ''docs/'' @ p @ js ''.md'') = [js ''docs'', p @ js ''.md'']" .
  moreover have "norm_segments True [] [js ''docs'', p @ js ''.md''] = [js ''docs'', p @ js ''.md'']"
    using assms(2) p(2) by (cases p) auto
  ultimately show ?thesis
    using assms(2) by (simp add: path_normalize_def Let_def)
qed

text \<open>
  A link in \<open>docs\<close> to a sibling page, with or without an anchor, becomes the route of that page on
  the site.
\<close>

theorem rewriteTarget_sibling:
  assumes "p \<in> set pages" "p \<noteq> []" "list_all page_char p" "35 \<notin> set hash"
  shows "rewriteTarget pages (p @ js ''.md'') (js ''docs'') = BASE @ js ''/'' @ p @ js ''/''
    \<and> (hash \<noteq> [] \<longrightarrow> rewriteTarget pages (p @ js ''.md#'' @ hash) (js ''docs'')
        = BASE @ js ''/'' @ p @ js ''/#'' @ hash)"
proof -
  have p: "35 \<notin> set p" using page_char_sep [OF assms(3)] by auto
  have join: "path_join (js ''docs'') (p @ js ''.md'') = js ''docs/'' @ p @ js ''.md''"
    using normalize_docs [OF assms(3,2)] by (simp add: path_join_def Let_def)
  have page: "docs_page (js ''docs/'' @ p @ js ''.md'') = Some p"
    using assms(2,3) endsWith_append [of "js ''docs/'' @ p" "js ''.md''"]
    by (simp add: docs_page_def Let_def startsWith_def page_char_def [abs_def])
  have readme: "js ''docs/'' @ p @ js ''.md'' \<noteq> js ''README.md''" by simp
  have s: "split_on 35 (p @ js ''.md'') = [p @ js ''.md'']"
    "split_on 35 (p @ js ''.md#'' @ hash) = [p @ js ''.md'', hash]"
    using p assms(4) split_on_sep [of 35 "p @ js ''.md''" hash] by (simp_all add: split_on_free)
  have md: "js ''.md'' @ 35 # hash = js ''.md#'' @ hash" "js ''/#'' = js ''/'' @ js ''#''" by simp_all
  show ?thesis
    using relative_page [OF assms(3,2), of "[]"] relative_page [OF assms(3,2), of "35 # hash"]
    by (simp add: rewriteTarget_def Let_def s join normalize_docs [OF assms(3,2)] page readme assms(1) md
        del: js_simps)
qed

theorem rewriteTarget_sibling_witness:
  "rewriteTarget [js ''self-hosting''] (js ''self-hosting.md#tls'') (js ''docs'') = js ''/mailrelay/self-hosting/#tls''"
proof -
  have "list_all page_char (js ''self-hosting'')" by (simp add: page_char_def is_word_def)
  then show ?thesis
    using rewriteTarget_sibling [of "js ''self-hosting''" "[js ''self-hosting'']" "js ''tls''"]
    by (simp add: BASE_def)
qed

subsection \<open>Alerts\<close>

lemma takeWhile_quoted: "\<forall>l\<in>set qs. quoted l \<Longrightarrow> (rest = [] \<or> \<not> quoted (hd rest)) \<Longrightarrow>
    takeWhile quoted (qs @ rest) = qs \<and> dropWhile quoted (qs @ rest) = rest"
  by (induction qs) (cases rest; auto)+

lemma convert_lines_plain:
  "\<forall>l\<in>set pre. alert_name l = None \<or> aside_type (the (alert_name l)) = None \<Longrightarrow>
   convert_lines (pre @ ls) = pre @ convert_lines ls"
  by (induction pre) (auto split: option.split)

text \<open>
  An alert of a known type with the quoted lines under it becomes an aside: its opening fence, the
  lines without their quote marks, its closing fence. The lines before it, which open no alert, stay,
  and conversion goes on after the block.
\<close>

theorem convert_lines_alert:
  assumes "\<forall>l\<in>set pre. alert_name l = None \<or> aside_type (the (alert_name l)) = None"
    and "alert_name line = Some name" "aside_type name = Some ty"
    and "\<forall>l\<in>set qs. quoted l" "rest = [] \<or> \<not> quoted (hd rest)"
  shows "convert_lines (pre @ line # qs @ rest) =
    pre @ (js '':::'' @ ty) # map strip_quote qs @ [js '':::''] @ convert_lines rest"
  using takeWhile_quoted [OF assms(4,5)] assms(2,3) by (simp add: convert_lines_plain [OF assms(1)])

theorem convert_lines_alert_witness:
  "convert_lines [js ''Text'', js ''> [!NOTE] '', js ''> a'', js ''>b'', [], js ''c''] =
   [js ''Text'', js '':::note'', js ''a'', js ''b'', js '':::'', [], js ''c'']"
proof -
  have "alert_name (js ''Text'') = None" "alert_name (js ''> [!NOTE] '') = Some (js ''NOTE'')"
    "aside_type (js ''NOTE'') = Some (js ''note'')" "quoted (js ''> a'')" "quoted (js ''>b'')" "\<not> quoted []"
    "alert_name [] = None" "alert_name (js ''c'') = None"
    "strip_quote (js ''> a'') = js ''a''" "strip_quote (js ''>b'') = js ''b''"
    by code_simp+
  then show ?thesis
    using convert_lines_alert [of "[js ''Text'']" "js ''> [!NOTE] ''" "js ''NOTE''" "js ''note''"
        "[js ''> a'', js ''>b'']" "[[], js ''c'']"]
    by simp
qed

text \<open>
  Alert names that \<open>asideTypes\<close> does not list are not all left alone: a name inherited from
  \<open>Object.prototype\<close> passes the check too, and the quote becomes an aside whose type is a function's
  source text.
\<close>

theorem convert_lines_inherited:
  "js ''toString'' \<notin> fst ` set asideTypes
   \<and> convert_lines [js ''> [!toString]'', js ''> a''] =
      [js '':::function toString() { [native code] }'', js ''a'', js '':::'']"
proof
  show "js ''toString'' \<notin> fst ` set asideTypes" by (simp add: asideTypes_def)
  show "convert_lines [js ''> [!toString]'', js ''> a''] =
      [js '':::function toString() { [native code] }'', js ''a'', js '':::'']" by code_simp
qed

subsection \<open>Frontmatter\<close>

text \<open>A reader of JSON strings: what stands between the quotes, with its escapes undone.\<close>

definition hex_value :: "nat \<Rightarrow> nat" where
  "hex_value h = (if h < 58 then h - 48 else h - 87)"

definition escapes :: "(nat \<times> nat) list" where
  "escapes = [(98, 8), (116, 9), (110, 10), (102, 12), (114, 13), (34, 34), (92, 92)]"

fun unquote :: "jstr \<Rightarrow> jstr option" where
  "unquote [] = Some []"
| "unquote (u # s) =
     (if u = 92 then
        (case s of
           [] \<Rightarrow> None
         | e # s' \<Rightarrow>
             if e = 117 then
               (case s' of
                  a # b # c # d # s'' \<Rightarrow>
                    map_option (Cons (4096 * hex_value a + 256 * hex_value b + 16 * hex_value c + hex_value d)) (unquote s'')
                | _ \<Rightarrow> None)
             else (case map_of escapes e of Some x \<Rightarrow> map_option (Cons x) (unquote s') | None \<Rightarrow> None))
      else if u = 34 \<or> u < 32 then None
      else map_option (Cons u) (unquote s))"

lemma hex_value_unit: "n < 16 \<Longrightarrow> hex_value (hex_unit n) = n"
  by (simp add: hex_value_def hex_unit_def)

lemma unquote_hex4: "u < 65536 \<Longrightarrow> unquote (hex4 u @ s) = map_option (Cons u) (unquote s)"
proof -
  assume u: "u < 65536"
  have l: "u div 4096 < 16" using u by (simp add: less_mult_imp_div_less)
  have "u = 16 * (u div 16) + u mod 16" "u div 16 = 16 * (u div 256) + u div 16 mod 16"
    "u div 256 = 16 * (u div 4096) + u div 256 mod 16"
    using div_mult2_eq [of u 16 16] div_mult2_eq [of u 256 16] by simp_all
  then have "4096 * (u div 4096) + 256 * (u div 256 mod 16) + 16 * (u div 16 mod 16) + u mod 16 = u"
    by linarith
  with l show ?thesis by (simp add: hex4_def hex_value_unit)
qed

lemma unquote_escape: "u < 65536 \<Longrightarrow> unquote (escape_unit u @ s) = map_option (Cons u) (unquote s)"
  by (simp add: escape_unit_def unquote_hex4 escapes_def)

lemma unquote_plain: "0xD800 \<le> u \<Longrightarrow> unquote (u # s) = map_option (Cons u) (unquote s)"
  by simp

lemma unquote_quote: "\<forall>u\<in>set s. u < 65536 \<Longrightarrow> unquote (quote_units s) = Some s"
proof (induction s rule: quote_units.induct)
  case (2 u)
  then show ?case
    using unquote_hex4 [of u "[]"] unquote_escape [of u "[]"] by simp
next
  case (3 u v s)
  then show ?case
    by (auto simp: unquote_hex4 unquote_escape unquote_plain is_lead_def is_trail_def simp del: unquote.simps(2))
qed simp

lemma escape_printable: "\<forall>x\<in>set (escape_unit u). 32 \<le> x"
  by (simp add: escape_unit_def hex4_def hex_unit_def)

lemma hex4_printable: "\<forall>x\<in>set (hex4 u). 32 \<le> x"
  by (simp add: hex4_def hex_unit_def)

lemma quote_printable: "\<forall>x\<in>set (quote_units s). 32 \<le> x"
  by (induction s rule: quote_units.induct)
    (use escape_printable hex4_printable in \<open>auto simp: is_lead_def is_trail_def\<close>)

lemma stringify_line: "10 \<notin> set (stringify v)"
  using quote_printable [of "the v"] by (cases v) (auto simp: stringify_def json_string_def)

definition field_line :: "jstr \<times> jstr option \<Rightarrow> jstr" where
  "field_line f = fst f @ js '': '' @ stringify (snd f)"

text \<open>
  A title or description, whatever characters it has, is written to the frontmatter as a string
  that a JSON (or YAML) reader gives back unchanged, between quotes.
\<close>

theorem json_string_roundtrip:
  assumes "list_all (\<lambda>u. u < 65536) s"
  shows "\<exists>q. json_string s = 34 # q @ [34] \<and> unquote q = Some s"
  using assms by (simp add: json_string_def list_all_iff unquote_quote)

theorem json_string_roundtrip_witness:
  "\<exists>q. json_string [34, 10, 0xD800, 65, 92] = 34 # q @ [34] \<and> unquote q = Some [34, 10, 0xD800, 65, 92]"
  by (rule json_string_roundtrip) simp

text \<open>
  No value can break out of the frontmatter: its lines are the opening fence, one line per field in
  order, the closing fence and an empty line before the body.
\<close>

theorem frontmatter_lines:
  assumes "attrs \<noteq> []" "list_all (\<lambda>f. 10 \<notin> set (fst f)) attrs"
  shows "split_on 10 (frontmatter attrs @ body) =
    js ''---'' # map field_line attrs @ [js ''---'', []] @ split_on 10 body"
proof -
  have f: "(\<lambda>(k, v). k @ js '': '' @ stringify v) = field_line"
    by (auto simp: field_line_def fun_eq_iff)
  let ?ls = "js ''---'' # map field_line attrs @ [js ''---'', []]"
  have j: "join_with 10 (xs @ [a, b]) = (if xs = [] then [] else join_with 10 xs @ [10]) @ a @ 10 # b" for xs a b
    by (induction xs) (auto simp: join_with_Cons)
  have "frontmatter attrs @ body = join_with 10 ?ls @ 10 # body"
    unfolding frontmatter_def f using assms(1) by (simp add: join_with_Cons j)
  moreover have "\<forall>x\<in>set ?ls. 10 \<notin> set x"
    using assms(2) stringify_line by (auto simp: field_line_def list_all_iff)
  ultimately show ?thesis using split_on_join_rest [of ?ls 10 body] by simp
qed

theorem frontmatter_lines_witness:
  "split_on 10 (frontmatter [(js ''title'', Some [35, 10, 45, 45, 45]), (js ''description'', None)] @ js ''x'') =
   [js ''---'', js ''title: '' @ [34, 35, 92, 110, 45, 45, 45, 34], js ''description: undefined'', js ''---'', [], js ''x'']"
proof -
  have e: "escape_unit 35 = [35]" "escape_unit 10 = [92, 110]" "escape_unit 45 = [45]"
    by (simp_all add: escape_unit_def)
  show ?thesis
    by (subst frontmatter_lines)
      (simp_all add: field_line_def stringify_def json_string_def is_lead_def is_trail_def e)
qed

subsection \<open>Pages\<close>

lemma takeWhile_line: "\<forall>u\<in>set t. \<not> is_eol u \<Longrightarrow> is_eol e \<Longrightarrow> takeWhile (\<lambda>u. \<not> is_eol u) (t @ e # s) = t"
  by (induction t) auto

lemma title_line_head:
  assumes "t \<noteq> []" "\<forall>u\<in>set t. \<not> is_eol u" "is_eol e"
  shows "title_line None (35 # 32 # t @ e # s) = Some (2 + length t, t)"
  using assms by (simp add: title_line_def Let_def line_start_def startsWith_def takeWhile_line)

text \<open>
  A document that starts with a heading line gets that heading as its title, and with a line feed
  after it the body is exactly what follows. A document with CRLF line ends keeps the heading in
  the body as well, unless a later line of it ends differently.
\<close>

theorem heading_becomes_title:
  assumes "t \<noteq> []" "list_all (\<lambda>u. \<not> is_eol u) t"
  shows "first_match title_line None (js ''# '' @ t @ 10 # body) = Some t
    \<and> remove_first heading_line None (js ''# '' @ t @ 10 # body) = body
    \<and> first_match title_line None (js ''# '' @ t @ 13 # 10 # body) = Some t
    \<and> (35 \<notin> set t \<union> set body \<longrightarrow>
        remove_first heading_line None (js ''# '' @ t @ 13 # 10 # body) = js ''# '' @ t @ 13 # 10 # body)"
proof -
  have t: "\<forall>u\<in>set t. \<not> is_eol u" using assms(2) by (simp add: list_all_iff)
  have e: "is_eol 10" "is_eol 13" by (simp_all add: is_eol_def)
  have no: "remove_first heading_line p s = s" if "35 \<notin> set s" for p s
    using that by (induction s arbitrary: p) (auto simp: heading_line_def title_line_def Let_def startsWith_def)
  have crlf: "heading_line None (35 # 32 # t @ 13 # 10 # body) = None"
    by (simp add: heading_line_def title_line_head [OF assms(1) t e(2)] startsWith_def)
  have keep: "remove_first heading_line None (35 # 32 # t @ 13 # 10 # body) = 35 # 32 # t @ 13 # 10 # body"
    if "35 \<notin> set t \<union> set body"
    using that no [of "32 # t @ 13 # 10 # body" "Some 35"] by (simp add: crlf del: remove_first.simps(2))
      (simp add: remove_first.simps(2) [of _ None] crlf)
  have lf: "heading_line None (35 # 32 # t @ 10 # body) = Some (Suc (Suc (Suc (length t))), t)"
    by (simp add: heading_line_def title_line_head [OF assms(1) t e(1)] startsWith_def)
  show ?thesis
    using keep by (simp add: lf title_line_head [OF assms(1) t e(1)] title_line_head [OF assms(1) t e(2)])
qed

theorem heading_becomes_title_witness:
  "remove_first heading_line None (js ''# Hi'' @ 10 # js ''x'') = js ''x''
   \<and> remove_first heading_line None (js ''# Hi'' @ 13 # 10 # js ''x'') = js ''# Hi'' @ 13 # 10 # js ''x''"
proof -
  have "list_all (\<lambda>u. \<not> is_eol u) (js ''Hi'')" "35 \<notin> set (js ''Hi'') \<union> set (js ''x'')"
    by (simp_all add: is_eol_def)
  then show ?thesis
    using heading_becomes_title [of "js ''Hi''" "js ''x''"] by simp
qed

definition titled :: "doc_repo \<Rightarrow> jstr \<Rightarrow> bool" where
  "titled r p = (first_match title_line None (dc_text r (p @ js ''.md'')) \<noteq> None)"

definition doc_text :: "doc_repo \<Rightarrow> jstr \<Rightarrow> jstr" where
  "doc_text r p =
     (let md = dc_text r (p @ js ''.md'') in
      page_text (page_names (dc_listing r))
        [(js ''title'', first_match title_line None md), (js ''editUrl'', Some (editURL @ js ''docs/'' @ p @ js ''.md''))]
        (remove_first heading_line None md) (js ''docs''))"

definition pages_out :: "doc_repo \<Rightarrow> jstr list \<Rightarrow> site_pages" where
  "pages_out r ps x = (if \<exists>p\<in>set ps. x = p @ js ''.md'' then Some (doc_text r (take (length x - 3) x)) else None)"

lemma write_docs_titled:
  "\<forall>p\<in>set ps. titled r p \<Longrightarrow>
   write_docs (page_names (dc_listing r)) (dc_text r) (ps @ qs) out =
   write_docs (page_names (dc_listing r)) (dc_text r) qs (out ++ pages_out r ps)"
proof (induction ps arbitrary: out)
  case Nil
  then show ?case by (simp add: pages_out_def [abs_def] map_add_def)
next
  case (Cons p ps)
  then obtain t where t: "first_match title_line None (dc_text r (p @ js ''.md'')) = Some t"
    by (auto simp: titled_def)
  have "out(p @ js ''.md'' \<mapsto> doc_text r p) ++ pages_out r ps = out ++ pages_out r (p # ps)"
    by (rule ext) (auto simp: pages_out_def map_add_def)
  with Cons t show ?case by (simp add: doc_page_def writePage_def doc_text_def)
qed

text \<open>
  When every document has a title, a run succeeds and the content folder holds exactly one page per
  document, made from that document, and the home page from the README, which replaces the page of
  a \<open>docs/index.md\<close>.
\<close>

lemma sync_titled:
  assumes "list_all (titled r) (page_names (dc_listing r))"
  shows "sync r = (None, home_page (page_names (dc_listing r)) (dc_readme r) (pages_out r (page_names (dc_listing r))),
      static_copies r)
    \<and> dom (fst (snd (sync r))) = {js ''index.md''} \<union> (\<lambda>p. p @ js ''.md'') ` set (page_names (dc_listing r))"
proof -
  let ?ps = "page_names (dc_listing r)"
  have "write_docs ?ps (dc_text r) ?ps Map.empty = (None, pages_out r ?ps)"
    using write_docs_titled [of ?ps r "[]" Map.empty] assms by (simp add: list_all_iff)
  then have s: "sync r = (None, home_page ?ps (dc_readme r) (pages_out r ?ps), static_copies r)"
    by (simp add: sync_def Let_def)
  have "dom (pages_out r ?ps) = (\<lambda>p. p @ js ''.md'') ` set ?ps"
    by (auto simp: pages_out_def dom_def split: if_splits)
  then show ?thesis by (simp add: s home_page_def writePage_def Let_def)
qed

definition demo_docs :: doc_repo where
  "demo_docs = \<lparr>dc_listing = [js ''README.md'', js ''a.md'', js ''b.txt''],
     dc_text = (\<lambda>_. js ''# A'' @ 10 # js ''see [b](b.txt)''), dc_readme = js ''x'', dc_screenshots = []\<rparr>"

text \<open>
  A document without a title stops the run with an error that names it: the pages of the documents
  before it are written, and nothing else, neither the home page nor a static file.
\<close>

theorem sync_stops_at_untitled:
  assumes "page_names (dc_listing r) = ps @ q # qs" "list_all (titled r) ps" "\<not> titled r q"
  shows "sync r = (Some (NoTitle q), pages_out r ps, [])"
  using write_docs_titled [of ps r "q # qs" Map.empty] assms
  by (simp add: sync_def Let_def list_all_iff titled_def)

theorem sync_stops_at_untitled_witness:
  "sync (demo_docs\<lparr>dc_text := (\<lambda>_. js ''A'')\<rparr>) = (Some (NoTitle (js ''a'')), Map.empty, [])"
proof -
  let ?r = "demo_docs\<lparr>dc_text := (\<lambda>_. js ''A'')\<rparr>"
  have "page_names (dc_listing ?r) = [] @ js ''a'' # []" "\<not> titled ?r (js ''a'')"
    by (simp_all add: page_names_def demo_docs_def endsWith_def titled_def title_line_def startsWith_def Let_def)
  then show ?thesis
    using sync_stops_at_untitled [of ?r "[]" "js ''a''" "[]"] by (simp add: pages_out_def [abs_def])
qed

end
