(* ===== verification/NetGuard.thy ===== *)
theory NetGuard
  imports Prelude "HOL-Library.Word"
begin

unbundle bit_operations_syntax

section \<open>The dial guard (\<open>internal/webhook/netguard.go\<close>)\<close>

text \<open>
  Which addresses a webhook may connect to. A \<open>net.IP\<close> is its list of bytes, of length 16 as
  \<open>net.ParseIP\<close> gives it (an IPv4 address in its mapped form) or of length 4; the predicates of
  \<open>net.IP\<close> are written out with the masks the library uses. \<open>parse_ip\<close> is \<open>net.ParseIP\<close>. The check runs
  for every address the dialer tries, after name resolution.
\<close>

type_synonym ip = "8 word list"

subsection \<open>\<open>net.IP\<close>\<close>

definition v4_prefix :: ip where
  "v4_prefix = replicate 10 0 @ [0xFF, 0xFF]"

definition To4 :: "ip \<Rightarrow> ip option" where
  "To4 i =
     (if length i = 4 then Some i
      else if length i = 16 \<and> take 12 i = v4_prefix then Some (drop 12 i) else None)"

definition IsLoopback :: "ip \<Rightarrow> bool" where
  "IsLoopback i = (case To4 i of Some b \<Rightarrow> b ! 0 = 127 | None \<Rightarrow> i = replicate 15 0 @ [1])"

definition IsPrivate :: "ip \<Rightarrow> bool" where
  "IsPrivate i =
     (case To4 i of
        Some b \<Rightarrow> b ! 0 = 10 \<or> b ! 0 = 172 \<and> b ! 1 AND 0xF0 = 16 \<or> b ! 0 = 192 \<and> b ! 1 = 168
      | None \<Rightarrow> length i = 16 \<and> i ! 0 AND 0xFE = 0xFC)"

definition IsLinkLocalUnicast :: "ip \<Rightarrow> bool" where
  "IsLinkLocalUnicast i =
     (case To4 i of
        Some b \<Rightarrow> b ! 0 = 169 \<and> b ! 1 = 254
      | None \<Rightarrow> length i = 16 \<and> i ! 0 = 0xFE \<and> i ! 1 AND 0xC0 = 0x80)"

definition IsLinkLocalMulticast :: "ip \<Rightarrow> bool" where
  "IsLinkLocalMulticast i =
     (case To4 i of
        Some b \<Rightarrow> b ! 0 = 224 \<and> b ! 1 = 0 \<and> b ! 2 = 0
      | None \<Rightarrow> length i = 16 \<and> i ! 0 = 0xFF \<and> i ! 1 AND 0x0F = 2)"

definition IsInterfaceLocalMulticast :: "ip \<Rightarrow> bool" where
  "IsInterfaceLocalMulticast i = (length i = 16 \<and> i ! 0 = 0xFF \<and> i ! 1 AND 0x0F = 1)"

definition IsMulticast :: "ip \<Rightarrow> bool" where
  "IsMulticast i =
     (case To4 i of Some b \<Rightarrow> b ! 0 AND 0xF0 = 0xE0 | None \<Rightarrow> length i = 16 \<and> i ! 0 = 0xFF)"

definition IsUnspecified :: "ip \<Rightarrow> bool" where
  "IsUnspecified i = (To4 i = Some [0, 0, 0, 0] \<or> i = replicate 16 0)"

text \<open>\<open>IPNet.Contains\<close> for a network given by its four bytes and mask.\<close>

definition Contains :: "ip \<times> ip \<Rightarrow> ip \<Rightarrow> bool" where
  "Contains net i =
     (case To4 i of
        None \<Rightarrow> False
      | Some b \<Rightarrow> list_all (\<lambda>k. fst net ! k AND snd net ! k = b ! k AND snd net ! k) [0..<4])"

subsection \<open>The guard\<close>

definition extraInternalNets :: "(ip \<times> ip) list" where
  "extraInternalNets = [([0, 0, 0, 0], [0xFF, 0, 0, 0]), ([100, 64, 0, 0], [0xFF, 0xC0, 0, 0])]"

definition isInternalIP :: "ip \<Rightarrow> bool" where
  "isInternalIP i =
     (if IsLoopback i \<or> IsPrivate i \<or> IsLinkLocalUnicast i \<or> IsLinkLocalMulticast i
         \<or> IsInterfaceLocalMulticast i \<or> IsMulticast i \<or> IsUnspecified i
      then True else list_ex (\<lambda>n. Contains n i) extraInternalNets)"

datatype dial_error = BadAddress | ErrPrivateAddress string

text \<open>\<open>net.SplitHostPort\<close>: the host, when the address has one and a port.\<close>

definition SplitHostPort :: "string \<Rightarrow> (string \<times> string) option" where
  "SplitHostPort hostport =
     (case LastSplit CHR '':'' hostport of
        None \<Rightarrow> None
      | Some (before, port) \<Rightarrow>
          if hd hostport = CHR ''['' then
            (case SplitN2 CHR '']'' hostport of
               None \<Rightarrow> None
             | Some (inner, after) \<Rightarrow>
                 if after \<noteq> CHR '':'' # port then None
                 else if CHR ''['' \<in> set (tl inner) \<or> CHR ''['' \<in> set port \<or> CHR '']'' \<in> set port then None
                 else Some (tl inner, port))
          else if CHR '':'' \<in> set before then None
          else if CHR ''['' \<in> set hostport \<or> CHR '']'' \<in> set hostport then None
          else Some (before, port))"

definition dial_control :: "(string \<Rightarrow> ip option) \<Rightarrow> bool \<Rightarrow> string \<Rightarrow> dial_error option" where
  "dial_control parse_ip allowPrivate address =
     (if allowPrivate then None
      else (case SplitHostPort address of
          None \<Rightarrow> Some BadAddress
        | Some (host, _) \<Rightarrow>
            (case parse_ip host of
               None \<Rightarrow> Some (ErrPrivateAddress host)
             | Some i \<Rightarrow> if isInternalIP i then Some (ErrPrivateAddress host) else None)))"

subsection \<open>Bytes under a mask\<close>

lemma byte_bound: "unat (b :: 8 word) < 256"
  using unsigned_less [of b, where ?'a = nat] by simp

lemma and_high_bits:
  fixes b :: "8 word"
  assumes "k \<le> 8"
  shows "unat (b AND push_bit k (mask (8 - k))) = 2 ^ k * (unat b div 2 ^ k)"
proof -
  have "b AND push_bit k (mask (8 - k)) = push_bit k (drop_bit k b)"
    using assms by (intro bit_word_eqI) (auto simp: bit_simps)
  moreover have "unat b div 2 ^ k * 2 ^ k < 256"
    using div_times_less_eq_dividend [of "unat b" "2 ^ k"] byte_bound [of b] by linarith
  moreover have "unat (push_bit k (drop_bit k b)) = take_bit 8 (push_bit k (drop_bit k (unat b)))"
    by (simp only: unsigned_push_bit_eq unsigned_drop_bit_eq)
      (simp add: take_bit_nat_eq_self byte_bound)
  ultimately show ?thesis
    by (simp add: push_bit_eq_mult drop_bit_eq_div take_bit_eq_mod mult.commute)
qed

lemma and_masks:
  fixes b :: "8 word"
  shows "unat (b AND 0xF0) = 16 * (unat b div 16)" "unat (b AND 0xC0) = 64 * (unat b div 64)"
    "unat (b AND 0xFE) = 2 * (unat b div 2)" "b AND 0xFF = b"
  using and_high_bits [of 4 b] and_high_bits [of 6 b] and_high_bits [of 1 b] and_high_bits [of 0 b]
  by (simp_all add: mask_numeral push_bit_numeral word_unat_eq_iff)

lemma byte_eq: "(b :: 8 word) = word_of_nat n \<longleftrightarrow> unat b = n" if "n < 256" for n
  using that by (auto simp: unat_of_nat)

lemma byte_masks:
  fixes b :: "8 word"
  shows "(unat (b AND 0xF0) = 16) = (16 \<le> unat b \<and> unat b \<le> 31)"
    and "(unat (b AND 0xF0) = 224) = (224 \<le> unat b \<and> unat b \<le> 239)"
    and "(b AND 0xC0 = 0x80) = (128 \<le> unat b \<and> unat b \<le> 191)"
    and "(0x40 = b AND 0xC0) = (64 \<le> unat b \<and> unat b \<le> 127)"
    and "(b AND 0xFE = 0xFC) = (unat b = 252 \<or> unat b = 253)"
  using byte_eq [of 128 "b AND 0xC0"]
    byte_eq [of 64 "b AND 0xC0"] byte_eq [of 252 "b AND 0xFE"]
  by (auto simp: and_masks)

lemma upt_four: "[0..<4] = [0, 1, 2, 3 :: nat]"
  by (simp add: upt_rec)

lemma v4_prefix_bytes: "v4_prefix = [0, 0, 0, 0, 0, 0, 0, 0, 0, 0, 0xFF, 0xFF]"
  by (simp add: v4_prefix_def numeral_eq_Suc)

lemma To4_zero: "To4 (replicate 16 0) = None"
proof -
  have "0xFF \<in> set v4_prefix" "0xFF \<notin> set (replicate 12 (0 :: 8 word))"
    by (simp_all add: v4_prefix_def)
  then have "replicate 12 0 \<noteq> v4_prefix" by metis
  then show ?thesis by (simp add: To4_def)
qed

lemma To4_mapped [simp]: "To4 (v4_prefix @ [a, b, c, d]) = Some [a, b, c, d]"
  by (simp add: To4_def v4_prefix_def)

subsection \<open>Properties\<close>

text \<open>The blocks of addresses that count as internal, by their numbers.\<close>

definition internal_v4 :: "nat \<Rightarrow> nat \<Rightarrow> bool" where
  "internal_v4 a b =
     (a = 0 \<or> a = 10 \<or> a = 127 \<or> 224 \<le> a \<and> a \<le> 239 \<or> a = 100 \<and> 64 \<le> b \<and> b \<le> 127
      \<or> a = 169 \<and> b = 254 \<or> a = 172 \<and> 16 \<le> b \<and> b \<le> 31 \<or> a = 192 \<and> b = 168)"

definition internal_v6 :: "ip \<Rightarrow> bool" where
  "internal_v6 i =
     (i = replicate 16 0 \<or> i = replicate 15 0 @ [1] \<or> unat (i ! 0) = 252 \<or> unat (i ! 0) = 253
      \<or> unat (i ! 0) = 254 \<and> 128 \<le> unat (i ! 1) \<and> unat (i ! 1) \<le> 191 \<or> unat (i ! 0) = 255)"

lemma unat_eq_byte:
  fixes b :: "8 word"
  shows "(b = 0) = (unat b = 0)" "(b = 10) = (unat b = 10)" "(b = 127) = (unat b = 127)"
    "(b = 0x10) = (unat b = 16)" "(b = 16) = (unat b = 16)" "(b = 0xFE) = (unat b = 254)"
    "(b = 0xFF) = (unat b = 255)" "(b = 169) = (unat b = 169)" "(b = 172) = (unat b = 172)"
    "(b = 192) = (unat b = 192)" "(b = 168) = (unat b = 168)" "(b = 224) = (unat b = 224)" "(b = 100) = (unat b = 100)"
  using byte_eq [of 10 b] byte_eq [of 127 b] byte_eq [of 16 b] byte_eq [of 254 b] byte_eq [of 255 b]
    byte_eq [of 169 b] byte_eq [of 172 b] byte_eq [of 192 b] byte_eq [of 168 b] byte_eq [of 224 b] byte_eq [of 100 b]
  by (simp_all add: unat_eq_0)

lemmas ip_predicates = IsLoopback_def IsPrivate_def IsLinkLocalUnicast_def IsLinkLocalMulticast_def
  IsInterfaceLocalMulticast_def IsMulticast_def IsUnspecified_def

lemma extra_nets_v4:
  "To4 i = Some [a, b, c, d] \<Longrightarrow>
   list_ex (\<lambda>n. Contains n i) extraInternalNets = (unat a = 0 \<or> unat a = 100 \<and> 64 \<le> unat b \<and> unat b \<le> 127)"
  by (simp add: extraInternalNets_def Contains_def upt_four byte_masks and_masks unat_eq_byte eq_commute [of _ a])

lemma internal_of_v4:
  assumes "To4 i = Some [a, b, c, d]" "length i = 16 \<longrightarrow> i ! 0 = 0"
  shows "isInternalIP i = internal_v4 (unat a) (unat b)"
proof -
  have multi: "\<not> IsInterfaceLocalMulticast i" using assms(2) by (auto simp: IsInterfaceLocalMulticast_def)
  have unspec: "i \<noteq> replicate 16 0" using assms(1) To4_zero by auto
  have "isInternalIP i \<longleftrightarrow>
      unat a = 127
      \<or> (unat a = 10 \<or> unat a = 172 \<and> 16 \<le> unat b \<and> unat b \<le> 31 \<or> unat a = 192 \<and> unat b = 168)
      \<or> unat a = 169 \<and> unat b = 254 \<or> (unat a = 224 \<and> unat b = 0 \<and> unat c = 0)
      \<or> (224 \<le> unat a \<and> unat a \<le> 239) \<or> (unat a = 0 \<and> unat b = 0 \<and> unat c = 0 \<and> unat d = 0)
      \<or> (unat a = 0 \<or> unat a = 100 \<and> 64 \<le> unat b \<and> unat b \<le> 127)"
    using assms(1) multi unspec
    by (simp add: isInternalIP_def extra_nets_v4 [OF assms(1)] multi IsLoopback_def IsPrivate_def
        IsLinkLocalUnicast_def IsLinkLocalMulticast_def IsMulticast_def IsUnspecified_def byte_masks unat_eq_byte
        del: neq0_conv)
      blast
  moreover have "unat a = 224 \<longrightarrow> 224 \<le> unat a \<and> unat a \<le> 239" by simp
  ultimately show ?thesis unfolding internal_v4_def by argo
qed

lemma internal_of_v6:
  assumes "To4 i = None" "length i = 16"
  shows "isInternalIP i = internal_v6 i"
proof -
  have "isInternalIP i \<longleftrightarrow>
      i = replicate 15 0 @ [1] \<or> (unat (i ! 0) = 252 \<or> unat (i ! 0) = 253)
      \<or> unat (i ! 0) = 254 \<and> 128 \<le> unat (i ! 1) \<and> unat (i ! 1) \<le> 191
      \<or> unat (i ! 0) = 255 \<and> i ! 1 AND 0x0F = 2 \<or> unat (i ! 0) = 255 \<and> i ! 1 AND 0x0F = 1
      \<or> unat (i ! 0) = 255 \<or> i = replicate 16 0"
    using assms
    by (simp add: isInternalIP_def ip_predicates byte_masks unat_eq_byte extraInternalNets_def Contains_def)
  then show ?thesis unfolding internal_v6_def by blast
qed

text \<open>
  C32: The guard's predicates and masks single out exactly the internal blocks: of the IPv4 addresses, 0/8,
  10/8, 127/8, 100.64/10, 169.254/16, 172.16/12, 192.168/16 and 224/4, also in their IPv6-mapped
  form; of the others ::, ::1, fc00::/7, fe80::/10 and ff00::/8.
\<close>

theorem isInternalIP_blocks:
  "isInternalIP (v4_prefix @ [a, b, c, d]) = internal_v4 (unat a) (unat b)
   \<and> isInternalIP [a, b, c, d] = internal_v4 (unat a) (unat b)
   \<and> (length i = 16 \<and> take 12 i \<noteq> v4_prefix \<longrightarrow> isInternalIP i = internal_v6 i)"
  using internal_of_v4 [of "v4_prefix @ [a, b, c, d]" a b c d] internal_of_v4 [of "[a, b, c, d]" a b c d]
    internal_of_v6 [of i]
  by (simp add: To4_def v4_prefix_bytes)

theorem isInternalIP_blocks_witness:
  "isInternalIP [0xFE, 0x80, 0, 0, 0, 0, 0, 0, 0, 0, 0, 0, 0, 0, 0, 1] \<and> isInternalIP [10, 1, 2, 3]
   \<and> \<not> isInternalIP [8, 8, 8, 8]"
  using isInternalIP_blocks [of 10 1 2 3 "[0xFE, 0x80, 0, 0, 0, 0, 0, 0, 0, 0, 0, 0, 0, 0, 0, 1]"]
    isInternalIP_blocks [of 8 8 8 8 "[]"]
  by (simp add: internal_v4_def internal_v6_def v4_prefix_bytes)

text \<open>
  C31: Unless private networks are allowed, the dialer connects only to an address with a host and a port
  whose host is an IP address outside the internal blocks, which for an IPv4 address, mapped or not,
  are told from its first two bytes; a name that was not resolved, or an address that does not parse,
  is refused.
\<close>

theorem dial_control_public:
  assumes "dial_control parse_ip False address = None"
  shows "\<exists>host port i. SplitHostPort address = Some (host, port) \<and> parse_ip host = Some i \<and> \<not> isInternalIP i
    \<and> (\<forall>a b c d. i = [a, b, c, d] \<or> i = v4_prefix @ [a, b, c, d] \<longrightarrow> \<not> internal_v4 (unat a) (unat b))"
proof -
  obtain host port i where "SplitHostPort address = Some (host, port)" "parse_ip host = Some i" "\<not> isInternalIP i"
    using assms by (auto simp: dial_control_def split: option.splits if_splits)
  moreover have "\<not> internal_v4 (unat a) (unat b)" if "i = [a, b, c, d] \<or> i = v4_prefix @ [a, b, c, d]" for a b c d
    using that \<open>\<not> isInternalIP i\<close> internal_of_v4 [of i a b c d] by (auto simp: To4_def v4_prefix_bytes)
  ultimately show ?thesis by blast
qed

definition demo_parse_ip :: "string \<Rightarrow> ip option" where
  "demo_parse_ip host = (if host = ''8.8.8.8'' then Some (v4_prefix @ [8, 8, 8, 8]) else None)"

theorem dial_control_public_witness:
  "\<exists>host port i. SplitHostPort ''8.8.8.8:443'' = Some (host, port) \<and> demo_parse_ip host = Some i \<and> \<not> isInternalIP i"
proof -
  have "SplitHostPort ''8.8.8.8:443'' = Some (''8.8.8.8'', ''443'')" by code_simp
  moreover have "\<not> isInternalIP (v4_prefix @ [8, 8, 8, 8])"
    using internal_of_v4 [OF To4_mapped, of 8 8 8 8] by (simp add: internal_v4_def nth_append v4_prefix_def)
  ultimately have "dial_control demo_parse_ip False ''8.8.8.8:443'' = None"
    by (simp add: dial_control_def demo_parse_ip_def)
  from dial_control_public [OF this] show ?thesis by blast
qed

end
