(* ===== verification/HttpSec.thy ===== *)
theory HttpSec
  imports Models NetGuard
begin

section \<open>HTTP security (\<open>internal/httpcsrf\<close>, \<open>internal/httpauth\<close>, \<open>cmd/mailrelay/main.go\<close>)\<close>

text \<open>
  The middlewares around the web UI in the order \<open>main\<close> stacks them: CSRF outermost, then login, then
  the security headers, then the mux. A handler takes the user the login middleware attached, the
  request and the response written so far. Signed cookies are the session library's: \<open>mg_session\<close> and
  \<open>mg_pending\<close> are what \<open>store.Get\<close> finds in the request under the two cookie names, \<open>None\<close> when the
  cookie is missing or its signature is wrong. The OpenID Connect library is \<open>mg_exchange\<close> and \<open>mg_verify\<close>, and
  \<open>mg_secure\<close> is the store's Secure option.
\<close>

record cookie =
  ck_name :: string
  ck_value :: string
  ck_secure :: bool
  ck_samesite :: string

record User =
  us_Subject :: string
  us_Email :: string
  us_Name :: string
  us_Provider :: string

record pending =
  pn_state :: string
  pn_nonce :: string
  pn_next :: string

text \<open>\<open>rq_form\<close> is \<open>FormValue\<close>, \<open>rq_query\<close> the parsed query, \<open>rq_csrf\<close> the CSRF cookie if there is one.\<close>

record http_req =
  rq_method :: string
  rq_path :: string
  rq_uri :: string
  rq_host :: string
  rq_tls :: bool
  rq_proto :: string
  rq_csrf :: "string option"
  rq_token_header :: string
  rq_form :: "string \<Rightarrow> string"
  rq_query :: "string \<Rightarrow> string"

record http_out =
  ho_status :: int
  ho_headers :: "string \<Rightarrow> string option"
  ho_cookies :: "cookie list"
  ho_pending :: "pending option"
  ho_session :: "User option"
  ho_logged_out :: bool
  ho_location :: string

text \<open>A response that an application extends by what its handlers change.\<close>

type_synonym 'o handler = "User option \<Rightarrow> http_req \<Rightarrow> 'o http_out_scheme \<Rightarrow> 'o http_out_scheme"

definition new_response :: http_out where
  "new_response = \<lparr>ho_status = 0, ho_headers = Map.empty, ho_cookies = [], ho_pending = None, ho_session = None,
     ho_logged_out = False, ho_location = []\<rparr>"

definition http_error :: "int \<Rightarrow> 'o http_out_scheme \<Rightarrow> 'o http_out_scheme" where
  "http_error st w = w\<lparr>ho_status := st\<rparr>"

definition redirect :: "string \<Rightarrow> int \<Rightarrow> 'o http_out_scheme \<Rightarrow> 'o http_out_scheme" where
  "redirect u st w = w\<lparr>ho_status := st, ho_location := u\<rparr>"

definition set_cookie :: "cookie \<Rightarrow> 'o http_out_scheme \<Rightarrow> 'o http_out_scheme" where
  "set_cookie c w = w\<lparr>ho_cookies := ho_cookies w @ [c]\<rparr>"

subsection \<open>CSRF tokens\<close>

definition csrf_cookie_name :: string where
  "csrf_cookie_name = ''mailrelay_csrf''"

definition IsSecure :: "'z golib_scheme \<Rightarrow> http_req \<Rightarrow> bool" where
  "IsSecure G r = (rq_tls r \<or> EqualFold G (rq_proto r) ''https'')"

text \<open>\<open>token\<close> is what \<open>randomToken\<close> would give, empty when the random source fails.\<close>

definition EnsureToken :: "string \<Rightarrow> http_req \<Rightarrow> bool \<Rightarrow> 'o http_out_scheme \<Rightarrow> string \<times> 'o http_out_scheme" where
  "EnsureToken token r secure w =
     (case rq_csrf r of
        Some v \<Rightarrow> if v \<noteq> [] then (v, w)
          else (token, set_cookie \<lparr>ck_name = csrf_cookie_name, ck_value = token, ck_secure = secure, ck_samesite = ''Lax''\<rparr> w)
      | None \<Rightarrow> (token, set_cookie \<lparr>ck_name = csrf_cookie_name, ck_value = token, ck_secure = secure, ck_samesite = ''Lax''\<rparr> w))"

definition Validate_csrf :: "http_req \<Rightarrow> bool" where
  "Validate_csrf r =
     (case rq_csrf r of
        None \<Rightarrow> False
      | Some want \<Rightarrow>
          if want = [] then False
          else if rq_token_header r \<noteq> [] then rq_token_header r = want
          else if rq_form r ''csrf_token'' \<noteq> [] then rq_form r ''csrf_token'' = want
          else False)"

definition unsafe_method :: "string \<Rightarrow> bool" where
  "unsafe_method m = (m = ''POST'' \<or> m = ''PUT'' \<or> m = ''PATCH'' \<or> m = ''DELETE'')"

definition csrfMiddleware :: "'z golib_scheme \<Rightarrow> string \<Rightarrow> 'o handler \<Rightarrow> 'o handler" where
  "csrfMiddleware G token next u r w =
     (let secure = IsSecure G r in
      if unsafe_method (rq_method r) then
        if HasPrefix (rq_path r) ''/auth/'' then next u r w
        else
          (let (_, w) = EnsureToken token r secure w in
           if \<not> Validate_csrf r then http_error 403 w else next u r w)
      else (let (_, w) = EnsureToken token r secure w in next u r w))"

definition squote :: "string \<Rightarrow> string" where
  "squote s = CHR 0x27 # s @ [CHR 0x27]"

definition content_policy :: string where
  "content_policy =
     ''default-src '' @ squote ''self'' @ ''; script-src '' @ squote ''self'' @ '' '' @ squote ''unsafe-inline''
     @ ''; style-src '' @ squote ''self'' @ '' '' @ squote ''unsafe-inline'' @ ''; img-src '' @ squote ''self''
     @ '' data:; connect-src '' @ squote ''self'' @ ''; frame-ancestors '' @ squote ''self''
     @ ''; base-uri '' @ squote ''self'' @ ''; form-action '' @ squote ''self''"

definition withSecurityHeaders :: "'o handler \<Rightarrow> 'o handler" where
  "withSecurityHeaders next u r w =
     next u r (w\<lparr>ho_headers := (ho_headers w)(''X-Content-Type-Options'' \<mapsto> ''nosniff'',
       ''Referrer-Policy'' \<mapsto> ''no-referrer'', ''X-Frame-Options'' \<mapsto> ''DENY'',
       ''Content-Security-Policy'' \<mapsto>
         content_policy)\<rparr>)"

subsection \<open>Login\<close>

record id_token =
  it_Subject :: string
  it_Nonce :: string
  it_claims :: "(string \<times> bool option \<times> string) option"

text \<open>\<open>mg_url\<close> is \<open>url.Parse\<close>: scheme, host and path.\<close>

record manager =
  mg_cfg :: HTTPAuthConfig
  mg_provider :: string
  mg_session :: "string \<Rightarrow> http_req \<Rightarrow> User option"
  mg_pending :: "http_req \<Rightarrow> pending option"
  mg_exchange :: "string \<Rightarrow> string option"
  mg_verify :: "string \<Rightarrow> id_token option"
  mg_url :: "string \<Rightarrow> (string \<times> string \<times> string) option"
  mg_auth_url :: "string \<Rightarrow> string \<Rightarrow> string \<Rightarrow> string"
  mg_save_ok :: bool
  mg_secure :: bool

text \<open>
  \<open>NewManager\<close>: what it refuses, and of what it builds the issuer, the scopes and the provider's name.
  \<open>discovery\<close> is the error of \<open>oidc.NewProvider\<close> for an issuer.
\<close>

datatype auth_error =
  NoProviders | CredentialsRequired | GithubUnsupported | IssuerRequired string | BadRedirectURL string
| DiscoveryFailed string string

fun merge_scopes :: "string list \<Rightarrow> string list \<Rightarrow> string list" where
  "merge_scopes scopes [] = scopes"
| "merge_scopes scopes (s # ss) = merge_scopes (if s \<in> set scopes then scopes else scopes @ [s]) ss"

definition issuer_of :: "'z golib_scheme \<Rightarrow> HTTPAuthProviderConfig \<Rightarrow> (auth_error, string) result" where
  "issuer_of G p =
     (let issuer = TrimSpace (hp_IssuerURL p) in
      if issuer \<noteq> [] then Inr issuer
      else if ToLower G (hp_Name p) = ''google'' then Inr ''https://accounts.google.com''
      else if ToLower G (hp_Name p) = ''github'' then Inl GithubUnsupported
      else Inl (IssuerRequired (hp_Name p)))"

definition valid_redirect_url :: "(string \<Rightarrow> (string \<times> string \<times> string) option) \<Rightarrow> string \<Rightarrow> bool" where
  "valid_redirect_url url u =
     (case url u of None \<Rightarrow> False
      | Some (scheme, host, _) \<Rightarrow> (scheme = ''http'' \<or> scheme = ''https'') \<and> host \<noteq> [])"

definition NewManager ::
    "'z golib_scheme \<Rightarrow> (string \<Rightarrow> (string \<times> string \<times> string) option) \<Rightarrow> (string \<Rightarrow> string option)
      \<Rightarrow> HTTPAuthConfig \<Rightarrow> (auth_error, (string \<times> string list \<times> string) option) result" where
  "NewManager G url discovery cfg =
     (if \<not> ha_Enabled cfg then Inr None
      else (case ha_Providers cfg of
          [] \<Rightarrow> Inl NoProviders
        | p # _ \<Rightarrow>
            if hp_ClientID p = [] \<or> hp_ClientSecret p = [] then Inl CredentialsRequired
            else (case issuer_of G p of
                Inl e \<Rightarrow> Inl e
              | Inr issuer \<Rightarrow>
                  if ha_RedirectURL cfg \<noteq> [] \<and> \<not> valid_redirect_url url (ha_RedirectURL cfg)
                  then Inl (BadRedirectURL (ha_RedirectURL cfg))
                  else (case discovery issuer of
                      Some e \<Rightarrow> Inl (DiscoveryFailed issuer e)
                    | None \<Rightarrow> Inr (Some (issuer, merge_scopes [''openid'', ''email'', ''profile''] (hp_Scopes p),
                        if hp_Name p = [] then issuer else hp_Name p))))))"

definition sameSiteFromConfig :: "'z golib_scheme \<Rightarrow> string \<Rightarrow> string" where
  "sameSiteFromConfig G v =
     (if ToLower G v = ''strict'' then ''Strict'' else if ToLower G v = ''none'' then ''None'' else ''Lax'')"

definition strip_brackets :: "string \<Rightarrow> string" where
  "strip_brackets s =
     (let b = (\<lambda>c. c = CHR ''['' \<or> c = CHR '']'') in rev (dropWhile b (rev (dropWhile b s))))"

definition isLoopbackHost :: "'z golib_scheme \<Rightarrow> (string \<Rightarrow> ip option) \<Rightarrow> string \<Rightarrow> bool" where
  "isLoopbackHost G parse_ip hostport =
     (let host = (case SplitHostPort hostport of Some (h, _) \<Rightarrow> h | None \<Rightarrow> hostport);
          host = strip_brackets host
      in if EqualFold G host ''localhost'' then True
         else (case parse_ip host of None \<Rightarrow> False | Some i \<Rightarrow> IsLoopback i))"

definition shouldUseSecureCookie :: "'z golib_scheme \<Rightarrow> (string \<Rightarrow> ip option) \<Rightarrow> HTTPAuthConfig \<Rightarrow> HTTPConfig \<Rightarrow> bool" where
  "shouldUseSecureCookie G parse_ip cfg httpCfg =
     (case ha_CookieSecure cfg of Some b \<Rightarrow> b | None \<Rightarrow> \<not> isLoopbackHost G parse_ip (hc_Addr httpCfg))"

definition sessionCookieName :: "manager \<Rightarrow> string" where
  "sessionCookieName m = (if ha_CookieName (mg_cfg m) \<noteq> [] then ha_CookieName (mg_cfg m) else ''mailrelay_session'')"

definition callbackURL :: "'z golib_scheme \<Rightarrow> (string \<Rightarrow> ip option) \<Rightarrow> manager \<Rightarrow> http_req \<Rightarrow> string" where
  "callbackURL G parse_ip m r =
     (if ha_RedirectURL (mg_cfg m) \<noteq> [] then ha_RedirectURL (mg_cfg m)
      else (let scheme = (if \<not> rq_tls r \<and> isLoopbackHost G parse_ip (rq_host r) then ''http'' else ''https'')
            in scheme @ ''://'' @ rq_host r @ ''/auth/callback''))"

definition stateCookieSameSite :: "'z golib_scheme \<Rightarrow> manager \<Rightarrow> string" where
  "stateCookieSameSite G m =
     (if sameSiteFromConfig G (ha_CookieSameSite (mg_cfg m)) = ''None'' then ''None'' else ''Lax'')"

definition safeRedirect :: "(string \<Rightarrow> (string \<times> string \<times> string) option) \<Rightarrow> string \<Rightarrow> string" where
  "safeRedirect url u =
     (if u = [] \<or> hd u \<noteq> CHR ''/'' then ''/''
      else if 1 < length u \<and> (u ! 1 = CHR ''/'' \<or> u ! 1 = CHR 0x5C) then ''/''
      else if ContainsAny u [CHR 0x0D, CHR 0x0A, CHR 0x09] then ''/''
      else (case url u of
          None \<Rightarrow> ''/''
        | Some (scheme, host, path) \<Rightarrow>
            if scheme \<noteq> [] \<or> host \<noteq> [] then ''/''
            else if HasPrefix path ''/auth/'' then ''/'' else u))"

definition emailAllowed :: "'z golib_scheme \<Rightarrow> string \<Rightarrow> string list \<Rightarrow> bool" where
  "emailAllowed G email allowedDomains =
     (let email = ToLower G (TrimSpace email) in
      case LastSplit CHR ''@'' email of
        None \<Rightarrow> False
      | Some (local, domain) \<Rightarrow>
          if local = [] \<or> domain = [] then False
          else list_ex (\<lambda>d. EqualFold G (TrimSpace d) domain) allowedDomains)"

text \<open>
  \<open>startLogin\<close>, with the two random strings as options. The answer goes to the provider and the
  pending login into its cookie.
\<close>

definition startLogin ::
    "'z golib_scheme \<Rightarrow> (string \<Rightarrow> ip option) \<Rightarrow> manager \<Rightarrow> string option \<times> string option \<Rightarrow> string
      \<Rightarrow> http_req \<Rightarrow> 'o http_out_scheme \<Rightarrow> 'o http_out_scheme" where
  "startLogin G parse_ip m rnd next r w =
     (case fst rnd of None \<Rightarrow> http_error 500 w | Some state \<Rightarrow>
      (case snd rnd of None \<Rightarrow> http_error 500 w | Some nonce \<Rightarrow>
        if \<not> mg_save_ok m then http_error 500 w
        else redirect (mg_auth_url m (callbackURL G parse_ip m r) state nonce) 302
          (w\<lparr>ho_pending := Some \<lparr>pn_state = state, pn_nonce = nonce, pn_next = safeRedirect (mg_url m) next\<rparr>\<rparr>)))"

definition AuthMiddleware ::
    "'z golib_scheme \<Rightarrow> (string \<Rightarrow> ip option) \<Rightarrow> manager option \<Rightarrow> string option \<times> string option
      \<Rightarrow> (http_req \<Rightarrow> bool) \<Rightarrow> 'o handler \<Rightarrow> 'o handler" where
  "AuthMiddleware G parse_ip mgr rnd allow next u r w =
     (case mgr of
        None \<Rightarrow> next u r w
      | Some m \<Rightarrow>
          if allow r then next u r w
          else (case mg_session m (sessionCookieName m) r of
              Some v \<Rightarrow> next (Some v) r w
            | None \<Rightarrow>
                (let dest = (if rq_method r = ''GET'' then rq_uri r else ''/'')
                 in startLogin G parse_ip m rnd dest r w)))"

definition clearStateCookie :: "'z golib_scheme \<Rightarrow> manager \<Rightarrow> 'o http_out_scheme \<Rightarrow> 'o http_out_scheme" where
  "clearStateCookie G m w =
     w\<lparr>ho_pending := None,
       ho_cookies := ho_cookies w @ [\<lparr>ck_name = ''mailrelay_auth_state'', ck_value = [], ck_secure = mg_secure m,
         ck_samesite = stateCookieSameSite G m\<rparr>]\<rparr>"

text \<open>\<open>CallbackHandler\<close>: each early return of the code is a branch.\<close>

definition CallbackHandler :: "'z golib_scheme \<Rightarrow> manager \<Rightarrow> 'o handler" where
  "CallbackHandler G m u r w =
     (if rq_query r ''error'' \<noteq> [] then http_error 401 (clearStateCookie G m w)
      else if rq_query r ''state'' = [] \<or> rq_query r ''code'' = [] then http_error 400 w
      else case mg_pending m r of
        None \<Rightarrow> http_error 400 w
      | Some p \<Rightarrow>
          if pn_state p = [] \<or> pn_state p \<noteq> rq_query r ''state'' \<or> pn_nonce p = [] then http_error 400 w
          else
            (let w = clearStateCookie G m w in
             case mg_exchange m (rq_query r ''code'') of
               None \<Rightarrow> http_error 401 w
             | Some raw \<Rightarrow>
                 if raw = [] then http_error 401 w
                 else (case mg_verify m raw of
                     None \<Rightarrow> http_error 401 w
                   | Some tok \<Rightarrow>
                       if it_Nonce tok \<noteq> pn_nonce p then http_error 401 w
                       else (case it_claims tok of
                           None \<Rightarrow> http_error 401 w
                         | Some (email, email_verified, name) \<Rightarrow>
                             if length (ha_AllowedEmailDomains (mg_cfg m)) > 0
                                \<and> (email_verified \<noteq> Some True
                                   \<or> \<not> emailAllowed G email (ha_AllowedEmailDomains (mg_cfg m)))
                             then http_error 403 w
                             else if \<not> mg_save_ok m then http_error 500 w
                             else redirect (safeRedirect (mg_url m) (pn_next p)) 303
                               (w\<lparr>ho_session := Some \<lparr>us_Subject = it_Subject tok, us_Email = email,
                                  us_Name = name, us_Provider = mg_provider m\<rparr>\<rparr>)))))"

definition LogoutHandler :: "'o handler" where
  "LogoutHandler u r w = redirect ''/'' 303 (w\<lparr>ho_session := None, ho_logged_out := True\<rparr>)"

definition LoginHandler ::
    "'z golib_scheme \<Rightarrow> (string \<Rightarrow> ip option) \<Rightarrow> manager \<Rightarrow> string option \<times> string option \<Rightarrow> 'o handler" where
  "LoginHandler G parse_ip m rnd u r w = startLogin G parse_ip m rnd (rq_query r ''next'') r w"

subsection \<open>The stack in \<open>main\<close>\<close>

definition allow_public :: "bool \<Rightarrow> http_req \<Rightarrow> bool" where
  "allow_public protectMetrics r =
     (if rq_method r = ''GET'' \<and> rq_path r = ''/healthz'' then True
      else if rq_method r = ''GET'' \<and> rq_path r = ''/metrics'' \<and> \<not> protectMetrics then True
      else HasPrefix (rq_path r) ''/auth/'')"

definition rootHandler ::
    "'z golib_scheme \<Rightarrow> (string \<Rightarrow> ip option) \<Rightarrow> HTTPConfig \<Rightarrow> manager option \<Rightarrow> string option \<times> string option
      \<Rightarrow> string \<Rightarrow> 'o handler \<Rightarrow> http_req \<Rightarrow> 'o http_out_scheme \<Rightarrow> 'o http_out_scheme" where
  "rootHandler G parse_ip cfg mgr rnd token mux r w =
     csrfMiddleware G token
       (AuthMiddleware G parse_ip mgr rnd (allow_public (hc_ProtectMetrics cfg)) (withSecurityHeaders mux))
       None r w"

end
