(* ===== verification/HttpSecProps.thy ===== *)
theory HttpSecProps
  imports HttpSec
begin

section \<open>HTTP security: what the middlewares guarantee\<close>

text \<open>
  Non-interference forms: a response that does not depend on the mux is one the application was not
  asked for. The session created by a login is traced to the pending login it answers.
\<close>

subsection \<open>CSRF\<close>

definition csrf_ok :: "http_req \<Rightarrow> bool" where
  "csrf_ok r = (\<exists>want. rq_csrf r = Some want \<and> want \<noteq> []
     \<and> (if rq_token_header r \<noteq> [] then rq_token_header r else rq_form r ''csrf_token'') = want)"

lemma Validate_csrf_iff: "Validate_csrf r = csrf_ok r"
  by (auto simp: Validate_csrf_def csrf_ok_def split: option.splits)

lemma EnsureToken_w: "snd (EnsureToken t r s w) = w\<lparr>ho_cookies := ho_cookies (snd (EnsureToken t r s w))\<rparr>"
  by (auto simp: EnsureToken_def set_cookie_def split: option.splits)

text \<open>
  A state-changing request outside the login endpoints reaches the handlers behind the CSRF check
  exactly when it carries a token, in the header or else in the form, equal to its non-empty CSRF
  cookie; otherwise it is answered with 403 whatever those handlers are.
\<close>

theorem csrf_protects:
  assumes "unsafe_method (rq_method r)" "\<not> HasPrefix (rq_path r) ''/auth/''"
  shows "csrfMiddleware G token next u r w =
    (let w' = snd (EnsureToken token r (IsSecure G r) w) in
     if csrf_ok r then next u r w' else http_error 403 w')"
  using assms by (simp add: csrfMiddleware_def Let_def Validate_csrf_iff case_prod_beta)

definition demo_req :: "string \<Rightarrow> string \<Rightarrow> http_req" where
  "demo_req method path = \<lparr>rq_method = method, rq_path = path, rq_uri = path, rq_host = ''relay.test'', rq_tls = True,
     rq_proto = [], rq_csrf = Some ''tok'', rq_token_header = [], rq_form = (\<lambda>_. []), rq_query = (\<lambda>_. [])\<rparr>"

theorem csrf_protects_witness:
  "csrfMiddleware ascii_lib ''new'' (\<lambda>_ _ w. w\<lparr>ho_status := 200\<rparr>) None (demo_req ''POST'' ''/rules'') new_response = http_error 403 new_response"
proof -
  have "unsafe_method (rq_method (demo_req ''POST'' ''/rules''))"
    "\<not> HasPrefix (rq_path (demo_req ''POST'' ''/rules'')) ''/auth/''" by code_simp+
  then show ?thesis
    using csrf_protects [of "demo_req ''POST'' ''/rules''" ascii_lib "''new''" "\<lambda>_ _ w. w\<lparr>ho_status := 200\<rparr>" None new_response]
    by (simp add: csrf_ok_def EnsureToken_def demo_req_def)
qed

subsection \<open>Login\<close>

text \<open>
  C30: With login enabled, a request without a session reaches the application only for the public
  paths: for any other, the response is the same whatever the application does.
\<close>

theorem login_required:
  assumes "mg_session m (sessionCookieName m) r = None" "\<not> allow_public (hc_ProtectMetrics cfg) r"
  shows "rootHandler G parse_ip cfg (Some m) rnd token mux r w = rootHandler G parse_ip cfg (Some m) rnd token mux' r w"
  using assms by (simp add: rootHandler_def csrfMiddleware_def AuthMiddleware_def Let_def case_prod_beta)

definition demo_auth_config :: HTTPAuthConfig where
  "demo_auth_config = \<lparr>ha_Enabled = True, ha_Providers = [], ha_AllowedEmailDomains = [''x.test''], ha_CookieName = [],
     ha_CookieSecure = None, ha_CookieDomain = [], ha_CookieSameSite = ''strict'', ha_SessionTTL = 0,
     ha_SessionSecret = [], ha_RedirectURL = []\<rparr>"

definition demo_url :: "string \<Rightarrow> (string \<times> string \<times> string) option" where
  "demo_url u = (if HasPrefix u ''/'' then Some ([], [], u) else None)"

definition demo_manager :: manager where
  "demo_manager = \<lparr>mg_cfg = demo_auth_config, mg_provider = ''idp'', mg_session = (\<lambda>_ _. None),
     mg_pending = (\<lambda>r. Some \<lparr>pn_state = ''s1'', pn_nonce = ''n1'', pn_next = ''/emails''\<rparr>),
     mg_exchange = (\<lambda>c. if c = ''good'' then Some ''jwt'' else None),
     mg_verify = (\<lambda>t. Some \<lparr>it_Subject = ''42'', it_Nonce = ''n1'', it_claims = Some (''a@X.test'', Some True, ''A'')\<rparr>),
     mg_url = demo_url, mg_auth_url = (\<lambda>cb s n. ''https://idp.test/?'' @ s), mg_save_ok = True, mg_secure = True\<rparr>"

definition demo_http :: HTTPConfig where
  "demo_http = \<lparr>hc_Addr = '':8080'', hc_Auth = demo_auth_config, hc_ProtectMetrics = True\<rparr>"

theorem login_required_witness:
  "rootHandler ascii_lib (\<lambda>_. None) demo_http (Some demo_manager) (Some ''s'', Some ''n'') ''t''
     (\<lambda>_ _ w. w\<lparr>ho_status := 200\<rparr>) (demo_req ''GET'' ''/metrics'') new_response =
   rootHandler ascii_lib (\<lambda>_. None) demo_http (Some demo_manager) (Some ''s'', Some ''n'') ''t''
     (\<lambda>_ _ w. w\<lparr>ho_status := 500\<rparr>) (demo_req ''GET'' ''/metrics'') new_response"
proof -
  have "mg_session demo_manager (sessionCookieName demo_manager) (demo_req ''GET'' ''/metrics'') = None"
    by (simp add: demo_manager_def)
  moreover have "\<not> allow_public (hc_ProtectMetrics demo_http) (demo_req ''GET'' ''/metrics'')"
    by code_simp
  ultimately show ?thesis by (rule login_required)
qed

text \<open>
  The security headers are on every response of the application but not on the answers the outer
  middlewares give themselves: a request refused for its CSRF token, or sent to the login, is
  answered without any of them.
\<close>

theorem refusals_lack_security_headers:
  assumes "unsafe_method (rq_method r) \<and> \<not> HasPrefix (rq_path r) ''/auth/'' \<and> \<not> csrf_ok r
    \<or> mg_session m (sessionCookieName m) r = None \<and> \<not> allow_public (hc_ProtectMetrics cfg) r"
  shows "ho_headers (rootHandler G parse_ip cfg (Some m) rnd token mux r new_response) = Map.empty"
  using assms
  by (auto simp: rootHandler_def csrfMiddleware_def AuthMiddleware_def Validate_csrf_iff case_prod_beta
      startLogin_def http_error_def redirect_def new_response_def EnsureToken_def set_cookie_def Let_def
      split: option.split)

theorem refusals_lack_security_headers_witness:
  "ho_headers (rootHandler ascii_lib (\<lambda>_. None) demo_http (Some demo_manager) (Some ''s'', Some ''n'') ''t''
     (\<lambda>_ _ w. w\<lparr>ho_status := 200\<rparr>) (demo_req ''GET'' ''/rules'') new_response) ''X-Frame-Options'' = None"
proof -
  have "mg_session demo_manager (sessionCookieName demo_manager) (demo_req ''GET'' ''/rules'') = None"
    by (simp add: demo_manager_def)
  moreover have "\<not> allow_public (hc_ProtectMetrics demo_http) (demo_req ''GET'' ''/rules'')" by code_simp
  ultimately show ?thesis
    using refusals_lack_security_headers [of "demo_req ''GET'' ''/rules''" demo_manager demo_http, where G = ascii_lib]
    by simp
qed

definition email_domain_allowed :: "'z golib_scheme \<Rightarrow> string \<Rightarrow> string list \<Rightarrow> bool" where
  "email_domain_allowed G email domains =
     (\<exists>local domain d. ToLower G (TrimSpace email) = local @ CHR ''@'' # domain \<and> CHR ''@'' \<notin> set domain
        \<and> local \<noteq> [] \<and> domain \<noteq> [] \<and> d \<in> set domains \<and> EqualFold G (TrimSpace d) domain)"

lemma emailAllowed_iff: "emailAllowed G email domains = email_domain_allowed G email domains"
proof (cases "LastSplit CHR ''@'' (ToLower G (TrimSpace email))")
  case None
  then have "CHR ''@'' \<notin> set (ToLower G (TrimSpace email))" by (simp add: LastSplit_None_iff)
  with None show ?thesis by (auto simp: emailAllowed_def email_domain_allowed_def Let_def)
next
  case (Some p)
  obtain a b where p: "p = (a, b)" by (cases p)
  from Some p have ab: "ToLower G (TrimSpace email) = local @ CHR ''@'' # domain \<and> CHR ''@'' \<notin> set domain
      \<longleftrightarrow> local = a \<and> domain = b" for local domain
    using LastSplit_Some_iff [of "CHR ''@''" "ToLower G (TrimSpace email)" local domain] by auto
  have "email_domain_allowed G email domains \<longleftrightarrow>
      (\<exists>local domain d. (local = a \<and> domain = b) \<and> local \<noteq> [] \<and> domain \<noteq> [] \<and> d \<in> set domains
        \<and> EqualFold G (TrimSpace d) domain)"
    unfolding email_domain_allowed_def ab [symmetric] conj_assoc ..
  then have "email_domain_allowed G email domains \<longleftrightarrow>
      a \<noteq> [] \<and> b \<noteq> [] \<and> (\<exists>d\<in>set domains. EqualFold G (TrimSpace d) b)" by auto
  with Some p show ?thesis by (simp add: emailAllowed_def Let_def list_ex_iff)
qed

text \<open>
  C11: A login ends in a session only when the request answers a login this browser started (its signed
  cookie holds the same non-empty state), the provider gave a verified token with that login's
  nonce, and, when domains are configured, the token has a verified address in one of them.
\<close>

theorem session_needs_verified_login:
  assumes "ho_session (CallbackHandler G m u r w) = Some user" "ho_session w = None"
  shows "\<exists>p raw tok email verified name.
     mg_pending m r = Some p \<and> pn_state p \<noteq> [] \<and> rq_query r ''state'' = pn_state p \<and> pn_nonce p \<noteq> []
     \<and> mg_exchange m (rq_query r ''code'') = Some raw \<and> mg_verify m raw = Some tok \<and> it_Nonce tok = pn_nonce p
     \<and> it_claims tok = Some (email, verified, name) \<and> us_Subject user = it_Subject tok \<and> us_Email user = email
     \<and> (ha_AllowedEmailDomains (mg_cfg m) \<noteq> [] \<longrightarrow>
          verified = Some True \<and> email_domain_allowed G email (ha_AllowedEmailDomains (mg_cfg m)))"
  using assms
  by (auto simp: CallbackHandler_def http_error_def clearStateCookie_def redirect_def Let_def emailAllowed_iff
      split: if_splits option.splits)

definition demo_callback :: http_req where
  "demo_callback = (demo_req ''GET'' ''/auth/callback'')
     \<lparr>rq_query := (\<lambda>k. if k = ''state'' then ''s1'' else if k = ''code'' then ''good'' else [])\<rparr>"

theorem session_needs_verified_login_witness:
  "email_domain_allowed ascii_lib ''a@X.test'' [''x.test'']"
proof -
  have "emailAllowed ascii_lib ''a@X.test'' [''x.test'']" by code_simp
  then have s: "ho_session (CallbackHandler ascii_lib demo_manager None demo_callback new_response) =
      Some \<lparr>us_Subject = ''42'', us_Email = ''a@X.test'', us_Name = ''A'', us_Provider = ''idp''\<rparr>"
    by (simp add: CallbackHandler_def demo_manager_def demo_callback_def demo_auth_config_def Let_def redirect_def)
  have "ho_session new_response = None" by (simp add: new_response_def)
  from session_needs_verified_login [OF s this] show ?thesis
    by (auto simp: demo_manager_def demo_auth_config_def)
qed

text \<open>
  C35: After a login the browser is only sent to a path on this site: one slash that no second slash or
  backslash follows, and no line break or tab a browser would drop. Applying the check again changes
  nothing, so the value kept in the cookie is the one used.
\<close>

theorem safeRedirect_local:
  "(\<exists>rest. safeRedirect url u = CHR ''/'' # rest
      \<and> (rest = [] \<or> hd rest \<noteq> CHR ''/'' \<and> hd rest \<noteq> CHR 0x5C)
      \<and> \<not> ContainsAny (CHR ''/'' # rest) [CHR 0x0D, CHR 0x0A, CHR 0x09])
   \<and> safeRedirect url (safeRedirect url u) = safeRedirect url u"
proof -
  have root: "safeRedirect url ''/'' = ''/''"
    by (auto simp: safeRedirect_def ContainsAny_def split: option.split)
  have "safeRedirect url u = ''/'' \<or> safeRedirect url u = u" by (auto simp: safeRedirect_def split: option.split)
  then have "safeRedirect url (safeRedirect url u) = safeRedirect url u" using root by auto
  moreover have "\<exists>rest. safeRedirect url u = CHR ''/'' # rest
      \<and> (rest = [] \<or> hd rest \<noteq> CHR ''/'' \<and> hd rest \<noteq> CHR 0x5C)
      \<and> \<not> ContainsAny (CHR ''/'' # rest) [CHR 0x0D, CHR 0x0A, CHR 0x09]"
    by (cases u; cases "tl u") (auto simp: safeRedirect_def ContainsAny_def split: option.split)
  ultimately show ?thesis by blast
qed

end
