(* ===== verification/MailParser.thy ===== *)
theory MailParser
  imports Models
begin

section \<open>Parsing messages (\<open>internal/smtp/parser.go\<close>)\<close>

text \<open>
  From the bytes of a message to a \<open>ParsedEmail\<close>. The header reader, the strict address parser, the
  decoder of encoded words, the media type parser, the multipart reader and the base64 reader are the
  Go library's and fields of \<open>maillib\<close>: \<open>mime_parts\<close> lists what successive \<open>NextPart\<close> calls give before
  the end (\<open>Inl\<close> an error). Quoted-printable and the loose address scan are the program's own and
  written out. Reading from memory does not fail.
\<close>

record mime_part =
  mp_header :: "(string \<times> string list) list"
  mp_filename :: string
  mp_body :: string

record maillib = golib +
  read_message :: "string \<Rightarrow> ((string \<times> string list) list \<times> string) option"
  strict_addresses :: "string \<Rightarrow> string list option"
  decode_words :: "string \<Rightarrow> string option"
  media_type :: "string \<Rightarrow> (string \<times> (string \<times> string) list) option"
  mime_parts :: "string \<Rightarrow> string \<Rightarrow> (string, mime_part) result list"
  base64_read :: "string \<Rightarrow> string option"

definition header_get :: "(string \<times> string list) list \<Rightarrow> string \<Rightarrow> string" where
  "header_get h k = (case header_values h k of [] \<Rightarrow> [] | v # _ \<Rightarrow> v)"

definition param_get :: "(string \<times> string) list \<Rightarrow> string \<Rightarrow> string" where
  "param_get ps k = (case map_of ps k of None \<Rightarrow> [] | Some v \<Rightarrow> v)"

text \<open>
  A concrete library for examples: a message is its first line, the sender, and a body; strict
  addresses have no angle bracket, there is no encoded word and no multipart.
\<close>

definition demo_mail :: maillib where
  "demo_mail = \<lparr>uni_lower = uni_lower ascii_lib, uni_fold = uni_fold ascii_lib, re_compile = re_compile ascii_lib,
     go_quote = go_quote ascii_lib,
     read_message = (\<lambda>raw. map_option (\<lambda>(f, b). ([(''From'', [f])], b)) (SplitN2 CHR ''!'' raw)),
     strict_addresses = (\<lambda>v. if CHR ''<'' \<in> set v then None else Some [v]), decode_words = Some,
     media_type = (\<lambda>v. Some (v, [])), mime_parts = (\<lambda>_ _. []), base64_read = Some\<rparr>"

subsection \<open>Headers\<close>

definition decodeHeader :: "'z maillib_scheme \<Rightarrow> string \<Rightarrow> string" where
  "decodeHeader M v = (case decode_words M v of Some d \<Rightarrow> d | None \<Rightarrow> v)"

text \<open>The class of \<open>looseAddrRe\<close>: no ASCII white space, bracket, quote, separator or at sign.\<close>

definition loose_char :: "char \<Rightarrow> bool" where
  "loose_char c =
     (c \<notin> set [CHR 0x09, CHR 0x0A, CHR 0x0C, CHR 0x0D, CHR '' '', CHR ''<'', CHR ''>'', CHR ''('', CHR '')'',
        CHR ''['', CHR '']'', CHR 0x22, CHR '','', CHR '';'', CHR '':'', CHR ''@''])"

text \<open>All matches of \<open>looseAddrRe\<close>, leftmost first: a run of the class can only match as a whole.\<close>

function loose_addresses :: "string \<Rightarrow> string list" where
  "loose_addresses s =
     (case dropWhile (\<lambda>c. \<not> loose_char c) s of
        [] \<Rightarrow> []
      | c # cs \<Rightarrow>
          (let local = takeWhile loose_char (c # cs); rest = dropWhile loose_char (c # cs) in
           case rest of
             [] \<Rightarrow> []
           | at # after \<Rightarrow>
               (let domain = takeWhile loose_char after in
                if at = CHR ''@'' \<and> domain \<noteq> []
                then (local @ at # domain) # loose_addresses (dropWhile loose_char after)
                else loose_addresses after)))"
  by pat_completeness auto
termination
proof (relation "measure length", goal_cases)
  case 1
  then show ?case by simp
next
  case (2 s c cs local rest at after domain)
  have "length (dropWhile loose_char after) \<le> length after" by (rule length_dropWhile_le)
  also have "length after < length rest" using 2(4) by simp
  also have "length rest = length (dropWhile loose_char (c # cs))" using 2(3) by (rule arg_cong)
  also have "\<dots> \<le> length (c # cs)" by (rule length_dropWhile_le)
  also have "\<dots> \<le> length s" using 2 length_dropWhile_le [of "\<lambda>c. \<not> loose_char c" s] by simp
  finally show ?case by simp
next
  case (3 s c cs local rest at after domain)
  have "length after < length rest" using 3(4) by simp
  also have "length rest = length (dropWhile loose_char (c # cs))" using 3(3) by (rule arg_cong)
  also have "\<dots> \<le> length (c # cs)" by (rule length_dropWhile_le)
  also have "\<dots> \<le> length s" using 3 length_dropWhile_le [of "\<lambda>c. \<not> loose_char c" s] by simp
  finally show ?case by simp
qed

declare loose_addresses.simps [simp del]

text \<open>The address in one segment that ended at a closing angle bracket.\<close>

definition bracketed :: "string \<Rightarrow> string list" where
  "bracketed seg =
     (case LastSplit CHR ''<'' seg of
        None \<Rightarrow> []
      | Some (_, after) \<Rightarrow> (case loose_addresses after of [] \<Rightarrow> [] | m # _ \<Rightarrow> [m]))"

definition parseAddressList :: "'z maillib_scheme \<Rightarrow> string \<Rightarrow> string list" where
  "parseAddressList M v =
     (if TrimSpace v = [] then []
      else (case strict_addresses M v of
          Some list \<Rightarrow> list
        | None \<Rightarrow>
            (let out = concat (map bracketed (Split CHR ''>'' v))
             in if length out > 0 then out else loose_addresses v)))"

subsection \<open>Bodies\<close>

definition unhex :: "char \<Rightarrow> nat option" where
  "unhex c =
     (let n = byte_of c in
      if 48 \<le> n \<and> n \<le> 57 then Some (n - 48)
      else if 65 \<le> n \<and> n \<le> 70 then Some (n - 65 + 10)
      else if 97 \<le> n \<and> n \<le> 102 then Some (n - 97 + 10)
      else None)"

fun decodeQPLine :: "string \<Rightarrow> string" where
  "decodeQPLine (c # h # l # cs) =
     (if c = CHR ''='' then
        (case (unhex h, unhex l) of
           (Some a, Some b) \<Rightarrow> char_of (16 * a + b) # decodeQPLine cs
         | _ \<Rightarrow> c # decodeQPLine (h # l # cs))
      else c # decodeQPLine (h # l # cs))"
| "decodeQPLine s = s"

definition TrimRightCR :: "string \<Rightarrow> string" where
  "TrimRightCR s = rev (dropWhile (\<lambda>c. c = CHR 0x0D) (rev s))"

fun qp_lines :: "string list \<Rightarrow> string" where
  "qp_lines [] = []"
| "qp_lines (line # lines) =
     (let line = TrimRightCR line in
      if HasSuffix line ''='' then decodeQPLine (butlast line) @ qp_lines lines
      else decodeQPLine line @ (if lines \<noteq> [] then [CHR 0x0A] else []) @ qp_lines lines)"

definition quoted_printable :: "string \<Rightarrow> string" where
  "quoted_printable data = qp_lines (Split CHR 0x0A data)"

definition decodeBody :: "'z maillib_scheme \<Rightarrow> string \<Rightarrow> string \<Rightarrow> string option" where
  "decodeBody M body encoding =
     (let e = ToLower M (TrimSpace encoding) in
      if e = ''base64'' then base64_read M body
      else if e = ''quoted-printable'' then Some (quoted_printable body)
      else Some body)"

text \<open>\<open>base64.StdEncoding.EncodeToString\<close>.\<close>

definition b64_digit :: "nat \<Rightarrow> char" where
  "b64_digit n =
     (if n < 26 then char_of (65 + n) else if n < 52 then char_of (71 + n) else if n < 62 then char_of (n - 4)
      else if n = 62 then CHR ''+'' else CHR ''/'')"

fun b64_encode :: "string \<Rightarrow> string" where
  "b64_encode [] = []"
| "b64_encode [a] =
     (let n = byte_of a in [b64_digit (n div 4), b64_digit (n mod 4 * 16), CHR ''='', CHR ''=''])"
| "b64_encode [a, b] =
     (let n = 256 * byte_of a + byte_of b in
      [b64_digit (n div 1024), b64_digit (n div 16 mod 64), b64_digit (n mod 16 * 4), CHR ''=''])"
| "b64_encode (a # b # c # cs) =
     (let n = 65536 * byte_of a + 256 * byte_of b + byte_of c in
      b64_digit (n div 262144) # b64_digit (n div 4096 mod 64) # b64_digit (n div 64 mod 64) # b64_digit (n mod 64)
      # b64_encode cs)"

subsection \<open>Messages\<close>

definition add_attachment :: "string \<Rightarrow> string \<Rightarrow> string \<Rightarrow> ParsedEmail \<Rightarrow> ParsedEmail" where
  "add_attachment filename mediaType data e =
     e\<lparr>pe_Attachments := pe_Attachments e
         @ [\<lparr>at_Filename = filename, at_ContentType = mediaType, at_Content = b64_encode data\<rparr>]\<rparr>"

definition part_filename :: "'z maillib_scheme \<Rightarrow> mime_part \<Rightarrow> string" where
  "part_filename M p =
     (let disposition = header_get (mp_header p) ''Content-Disposition'' in
      if mp_filename p = [] \<and> disposition \<noteq> [] then
        (case media_type M disposition of Some (_, ps) \<Rightarrow> param_get ps ''filename'' | None \<Rightarrow> [])
      else mp_filename p)"

text \<open>A part that is not a multipart itself.\<close>

definition leaf_part :: "'z maillib_scheme \<Rightarrow> mime_part \<Rightarrow> string \<Rightarrow> ParsedEmail \<Rightarrow> ParsedEmail" where
  "leaf_part M p mediaType e =
     (let filename = part_filename M p;
          disposition = header_get (mp_header p) ''Content-Disposition'';
          body = decodeBody M (mp_body p) (header_get (mp_header p) ''Content-Transfer-Encoding'')
      in case body of
           None \<Rightarrow> e
         | Some data \<Rightarrow>
             if filename \<noteq> [] \<or> HasPrefix disposition ''attachment'' then add_attachment filename mediaType data e
             else if HasPrefix mediaType ''text/html'' then e\<lparr>pe_HTMLBody := data\<rparr>
             else if HasPrefix mediaType ''text/plain'' then e\<lparr>pe_TextBody := data\<rparr>
             else add_attachment filename mediaType data e)"

definition content_type :: "(string \<times> string list) list \<Rightarrow> string" where
  "content_type h = (let ct = header_get h ''Content-Type'' in if ct = [] then ''text/plain'' else ct)"

text \<open>
  \<open>parseMultipart\<close>. The body of a part is a proper part of the text that holds it, as the delimiter
  lines are not in it; the length test states that for the recursion.
\<close>

function parse_parts ::
    "'z maillib_scheme \<Rightarrow> nat \<Rightarrow> (string, mime_part) result list \<Rightarrow> ParsedEmail \<Rightarrow> (string, ParsedEmail) result"
where
  "parse_parts M n [] e = Inr e"
| "parse_parts M n (Inl err # ps) e = Inl err"
| "parse_parts M n (Inr p # ps) e =
     (case media_type M (content_type (mp_header p)) of
        None \<Rightarrow> parse_parts M n ps e
      | Some (mediaType, params) \<Rightarrow>
          if HasPrefix mediaType ''multipart/'' then
            (if length (mp_body p) < n then
               (case parse_parts M (length (mp_body p)) (mime_parts M (param_get params ''boundary'') (mp_body p)) e of
                  Inl err \<Rightarrow> Inl err
                | Inr e' \<Rightarrow> parse_parts M n ps e')
             else Inl ''part longer than its container'')
          else parse_parts M n ps (leaf_part M p mediaType e))"
  by pat_completeness auto
termination
  by (relation "inv_image (less_than <*lex*> less_than) (\<lambda>(M, n, ps, e). (n, length ps))") auto

definition parseMultipart ::
    "'z maillib_scheme \<Rightarrow> string \<Rightarrow> string \<Rightarrow> ParsedEmail \<Rightarrow> (string, ParsedEmail) result" where
  "parseMultipart M body boundary e = parse_parts M (length body) (mime_parts M boundary body) e"

definition empty_email :: ParsedEmail where
  "empty_email = \<lparr>pe_From = [], pe_To = [], pe_CC = [], pe_Subject = [], pe_TextBody = [], pe_HTMLBody = [],
     pe_Headers = [], pe_Attachments = [], pe_AuthResult = None, pe_EnvelopeFrom = [], pe_EnvelopeTo = []\<rparr>"

definition ParseEmail :: "'z maillib_scheme \<Rightarrow> string \<Rightarrow> (string, ParsedEmail) result" where
  "ParseEmail M raw =
     (case read_message M raw of
        None \<Rightarrow> Inl ''reading message''
      | Some (h, body) \<Rightarrow>
          (let e = empty_email\<lparr>pe_Headers := h,
                 pe_From := (case parseAddressList M (header_get h ''From'') of [] \<Rightarrow> [] | a # _ \<Rightarrow> a),
                 pe_To := parseAddressList M (header_get h ''To''),
                 pe_CC := parseAddressList M (header_get h ''Cc''),
                 pe_Subject := decodeHeader M (header_get h ''Subject'')\<rparr>
           in case media_type M (content_type h) of
                None \<Rightarrow> Inr (e\<lparr>pe_TextBody := body\<rparr>)
              | Some (mediaType, params) \<Rightarrow>
                  if HasPrefix mediaType ''multipart/'' then
                    (case parseMultipart M body (param_get params ''boundary'') e of
                       Inl err \<Rightarrow> Inl (''parsing multipart: '' @ err)
                     | Inr e' \<Rightarrow> Inr e')
                  else (case decodeBody M body (header_get h ''Content-Transfer-Encoding'') of
                      None \<Rightarrow> Inl ''decoding body''
                    | Some data \<Rightarrow>
                        if HasPrefix mediaType ''text/html'' then Inr (e\<lparr>pe_HTMLBody := data\<rparr>)
                        else Inr (e\<lparr>pe_TextBody := data\<rparr>))))"

end
