(* ===== verification/MailParserProps.thy ===== *)
theory MailParserProps
  imports MailParser
begin

section \<open>Parsing messages: round trips and address extraction\<close>

text \<open>
  What a sender encodes is what the parser recovers: quoted-printable with soft and hard line breaks,
  and the base64 in which attachments are kept. The loose scan only yields addresses.
\<close>

subsection \<open>Quoted-printable\<close>

lemma Split_free: "c \<notin> set s \<Longrightarrow> Split c s = [s]"
  by (induction s) auto

lemma Split_sep: "c \<notin> set s \<Longrightarrow> Split c (s @ c # t) = s # Split c t"
  by (induction s) auto

definition hex_upper :: "nat \<Rightarrow> char" where
  "hex_upper n = (if n < 10 then char_of (48 + n) else char_of (55 + n))"

definition qp_byte :: "char \<Rightarrow> string" where
  "qp_byte c =
     (if 32 \<le> byte_of c \<and> byte_of c \<le> 126 \<and> c \<noteq> CHR ''='' then [c]
      else [CHR ''='', hex_upper (byte_of c div 16), hex_upper (byte_of c mod 16)])"

definition qp_encode :: "string \<Rightarrow> string" where
  "qp_encode s = concat (map qp_byte s)"

lemma unhex_upper: "n < 16 \<Longrightarrow> unhex (hex_upper n) = Some n"
  by (simp add: unhex_def hex_upper_def Let_def)

lemma byte_lt: "byte_of c < 256"
  using nat_of_char_less_256 [of c] .

lemma byte_div: "byte_of c div 16 < 16" "byte_of c div 4 < 64" "byte_of c div 64 < 4"
  by (rule less_mult_imp_div_less, simp)+

lemma char_of_61: "char_of (61 :: nat) = CHR ''=''"
  by code_simp

lemma decode_plain: "c \<noteq> CHR ''='' \<Longrightarrow> decodeQPLine (c # s) = c # decodeQPLine s"
  by (cases s; cases "tl s") auto

lemma decode_qp_encode: "decodeQPLine (qp_encode s) = s"
proof (induction s)
  case (Cons c s)
  have "16 * (byte_of c div 16) + byte_of c mod 16 = byte_of c" by simp
  with Cons show ?case
    by (auto simp: qp_encode_def qp_byte_def decode_plain unhex_upper byte_div char_of_61)
qed (simp add: qp_encode_def)

lemma byte_hex_upper: "n < 16 \<Longrightarrow> byte_of (hex_upper n) = (if n < 10 then 48 + n else 55 + n)"
  by (simp add: hex_upper_def)

lemma qp_byte_chars: "x \<in> set (qp_byte c) \<Longrightarrow> 32 \<le> byte_of x"
  by (auto simp: qp_byte_def byte_hex_upper byte_div split: if_splits)

lemma qp_encode_chars: "x \<in> set (qp_encode s) \<Longrightarrow> 32 \<le> byte_of x"
  by (auto simp: qp_encode_def dest: qp_byte_chars)

lemma qp_encode_no_break: "CHR 0x0A \<notin> set (qp_encode s)" "CHR 0x0D \<notin> set (qp_encode s)"
  using qp_encode_chars [of "CHR 0x0A" s] qp_encode_chars [of "CHR 0x0D" s] by auto

lemma qp_byte_last: "\<exists>u x. qp_byte c = u @ [x] \<and> x \<noteq> CHR ''=''"
proof (cases "32 \<le> byte_of c \<and> byte_of c \<le> 126 \<and> c \<noteq> CHR ''=''")
  case True
  then show ?thesis by (intro exI [of _ "[]"] exI [of _ c]) (simp add: qp_byte_def)
next
  case False
  have "byte_of (hex_upper (byte_of c mod 16)) \<noteq> byte_of (CHR ''='')" by (simp add: byte_hex_upper)
  then have "hex_upper (byte_of c mod 16) \<noteq> CHR ''=''" by metis
  with False show ?thesis
    by (intro exI [of _ "[CHR ''='', hex_upper (byte_of c div 16)]"] exI [of _ "hex_upper (byte_of c mod 16)"])
      (auto simp: qp_byte_def)
qed

lemma qp_encode_suffix: "\<not> HasSuffix (qp_encode s) ''=''"
proof (cases s rule: rev_cases)
  case (snoc t c)
  then show ?thesis using qp_byte_last [of c] by (auto simp: qp_encode_def HasSuffix_iff)
qed (simp add: qp_encode_def HasSuffix_iff)

lemma TrimRightCR_line: "CHR 0x0D \<notin> set s \<Longrightarrow> TrimRightCR s = s \<and> TrimRightCR (s @ [CHR 0x0D]) = s"
  by (cases s rule: rev_cases) (auto simp: TrimRightCR_def)

lemma qp_line_hard: "qp_lines (qp_encode s # ls) = s @ (if ls \<noteq> [] then [CHR 0x0A] else []) @ qp_lines ls"
  by (simp add: TrimRightCR_line qp_encode_no_break qp_encode_suffix decode_qp_encode)

lemma qp_line_hard_cr:
  "qp_lines ((qp_encode s @ [CHR 0x0D]) # ls) = s @ (if ls \<noteq> [] then [CHR 0x0A] else []) @ qp_lines ls"
  by (simp add: TrimRightCR_line qp_encode_no_break qp_encode_suffix decode_qp_encode)

lemma qp_line_soft: "qp_lines ((qp_encode s @ ''='' @ [CHR 0x0D]) # ls) = s @ qp_lines ls"
proof -
  have "CHR 0x0D \<notin> set (qp_encode s @ ''='')" by (simp add: qp_encode_no_break)
  from conjunct2 [OF TrimRightCR_line [OF this]] show ?thesis
    by (simp add: HasSuffix_iff decode_qp_encode)
qed

text \<open>
  C33: Whatever the bytes, a line encoded in quoted-printable decodes to itself wherever the encoder puts
  its soft line breaks, and the lines of an encoded text come back joined by line feeds.
\<close>

theorem quoted_printable_roundtrip:
  "quoted_printable (Join (map qp_encode chunks) (''='' @ [CHR 0x0D, CHR 0x0A])) = concat chunks
   \<and> quoted_printable (Join (map qp_encode chunks) [CHR 0x0D, CHR 0x0A]) = Join chunks [CHR 0x0A]"
proof (induction chunks rule: induct_list012)
  case 1
  then show ?case by (simp add: quoted_printable_def TrimRightCR_def HasSuffix_def Let_def)
next
  case (2 x)
  then show ?case
    by (simp add: quoted_printable_def Split_free qp_encode_no_break qp_line_hard del: qp_lines.simps(2))
next
  case (3 x y ys)
  let ?r = "Join (map qp_encode (y # ys))"
  have free: "CHR 0x0A \<notin> set (qp_encode x @ ''='' @ [CHR 0x0D])" "CHR 0x0A \<notin> set (qp_encode x @ [CHR 0x0D])"
    by (simp_all add: qp_encode_no_break)
  have "quoted_printable (qp_encode x @ ''='' @ [CHR 0x0D, CHR 0x0A] @ t) = x @ quoted_printable t" for t
    using Split_sep [OF free(1), of t] qp_line_soft [of x "Split CHR 0x0A t"]
    by (simp add: quoted_printable_def del: qp_lines.simps)
  moreover have "quoted_printable (qp_encode x @ [CHR 0x0D, CHR 0x0A] @ t) = x @ CHR 0x0A # quoted_printable t" for t
    using Split_sep [OF free(2), of t] qp_line_hard_cr [of x "Split CHR 0x0A t"]
    by (simp add: quoted_printable_def del: qp_lines.simps)
  ultimately show ?case using 3 by simp
qed

subsection \<open>Attachments\<close>

definition b64_value :: "char \<Rightarrow> nat option" where
  "b64_value c =
     (let n = byte_of c in
      if 65 \<le> n \<and> n \<le> 90 then Some (n - 65) else if 97 \<le> n \<and> n \<le> 122 then Some (n - 71)
      else if 48 \<le> n \<and> n \<le> 57 then Some (n + 4) else if n = 43 then Some 62 else if n = 47 then Some 63 else None)"

fun b64_decode :: "string \<Rightarrow> string option" where
  "b64_decode [] = Some []"
| "b64_decode (a # b # c # d # cs) =
     (case (b64_value a, b64_value b, b64_value c, b64_value d) of
        (Some x, Some y, Some z, Some t) \<Rightarrow>
          (case b64_decode cs of None \<Rightarrow> None
           | Some r \<Rightarrow> Some (char_of (4 * x + y div 16) # char_of (y mod 16 * 16 + z div 4) # char_of (z mod 4 * 64 + t) # r))
      | (Some x, Some y, Some z, None) \<Rightarrow>
          if d = CHR ''='' \<and> cs = [] then Some [char_of (4 * x + y div 16), char_of (y mod 16 * 16 + z div 4)] else None
      | (Some x, Some y, None, None) \<Rightarrow>
          if c = CHR ''='' \<and> d = CHR ''='' \<and> cs = [] then Some [char_of (4 * x + y div 16)] else None
      | _ \<Rightarrow> None)"
| "b64_decode _ = None"

lemma three_bytes:
  fixes a b c :: nat
  assumes "b < 256" "c < 256"
  shows "(65536 * a + 256 * b + c) div 262144 = a div 4"
    "(65536 * a + 256 * b + c) div 4096 = 16 * a + b div 16"
    "(65536 * a + 256 * b + c) div 64 = 1024 * a + 4 * b + c div 64"
    "(65536 * a + 256 * b + c) mod 64 = c mod 64"
proof -
  have 1: "(65536 * a + 256 * b + c) div 256 = 256 * a + b" using assms by simp
  have 2: "(256 * a + b) div 256 = a" using assms by simp
  show "(65536 * a + 256 * b + c) div 262144 = a div 4"
    using div_mult2_eq [of "65536 * a + 256 * b + c" 256 1024] div_mult2_eq [of "256 * a + b" 256 4] 1 2 by simp
  show "(65536 * a + 256 * b + c) div 4096 = 16 * a + b div 16"
    using div_mult2_eq [of "65536 * a + 256 * b + c" 256 16] 1 by simp
  have e: "65536 * a + 256 * b + c = c + 64 * (1024 * a + 4 * b)" by simp
  show "(65536 * a + 256 * b + c) div 64 = 1024 * a + 4 * b + c div 64"
    unfolding e by (subst div_mult_self2) simp_all
  show "(65536 * a + 256 * b + c) mod 64 = c mod 64" unfolding e by (rule mod_mult_self2)
qed

lemma sextet_ab: "(b :: nat) < 256 \<Longrightarrow> (16 * a + b div 16) mod 64 = a mod 4 * 16 + b div 16"
proof -
  assume "b < 256" then have b: "b div 16 < 16" by (simp add: less_mult_imp_div_less)
  have "16 * a + b div 16 = (a mod 4 * 16 + b div 16) + 64 * (a div 4)"
    using div_mult_mod_eq [of a 4] by linarith
  then have "(16 * a + b div 16) mod 64 = (a mod 4 * 16 + b div 16) mod 64" by (metis mod_mult_self2)
  moreover have "a mod 4 < 4" by simp
  ultimately show ?thesis using b by simp
qed

lemma sextet_bc: "(c :: nat) < 256 \<Longrightarrow> (1024 * a + 4 * b + c div 64) mod 64 = b mod 16 * 4 + c div 64"
proof -
  assume "c < 256" then have c: "c div 64 < 4" by (simp add: less_mult_imp_div_less)
  have "4 * b = b mod 16 * 4 + 64 * (b div 16)" using div_mult_mod_eq [of b 16] by presburger
  then have "1024 * a + 4 * b + c div 64 = (b mod 16 * 4 + c div 64) + 64 * (16 * a + b div 16)"
    by simp
  then have "(1024 * a + 4 * b + c div 64) mod 64 = (b mod 16 * 4 + c div 64) mod 64" by (metis mod_mult_self2)
  moreover have "b mod 16 < 16" by simp
  ultimately show ?thesis using c by simp
qed

lemma sextet_bounds:
  fixes k m :: nat
  shows "m < 16 \<Longrightarrow> k mod 4 * 16 + m < 64" "m < 4 \<Longrightarrow> k mod 16 * 4 + m < 64" "k mod 4 * 16 < 64" "k mod 16 * 4 < 64"
proof -
  have "k mod 4 < 4" "k mod 16 < 16" by simp_all
  then show "m < 16 \<Longrightarrow> k mod 4 * 16 + m < 64" "m < 4 \<Longrightarrow> k mod 16 * 4 + m < 64" "k mod 4 * 16 < 64" "k mod 16 * 4 < 64"
    by linarith+
qed

lemma two_bytes:
  fixes a b :: nat
  assumes "b < 256"
  shows "(256 * a + b) div 1024 = a div 4" "(256 * a + b) div 16 = 16 * a + b div 16"
    "(256 * a + b) mod 16 = b mod 16"
proof -
  have "(256 * a + b) div 256 = a" using assms by simp
  then show "(256 * a + b) div 1024 = a div 4" using div_mult2_eq [of "256 * a + b" 256 4] by simp
  have e: "256 * a + b = b + 16 * (16 * a)" by simp
  show "(256 * a + b) div 16 = 16 * a + b div 16" unfolding e by (subst div_mult_self2) simp_all
  show "(256 * a + b) mod 16 = b mod 16" unfolding e by (rule mod_mult_self2)
qed

lemma b64_value_digit: "n < 64 \<Longrightarrow> b64_value (b64_digit n) = Some n"
  by (auto simp: b64_value_def b64_digit_def Let_def)

lemma b64_value_pad: "b64_value CHR ''='' = None"
  by (simp add: b64_value_def)

text \<open>
  The content an attachment carries to the webhook is standard base64 of exactly the bytes of the
  decoded part.
\<close>

theorem b64_roundtrip: "b64_decode (b64_encode s) = Some s"
proof (induction s rule: b64_encode.induct)
  case (2 a)
  then show ?case by (simp add: b64_value_digit b64_value_pad byte_div sextet_bounds Let_def)
next
  case (3 a b)
  then show ?case
    by (simp add: two_bytes sextet_ab b64_value_digit b64_value_pad byte_div sextet_bounds Let_def)
next
  case (4 a b c cs)
  then show ?case
    by (simp add: three_bytes sextet_ab sextet_bc b64_value_digit byte_div sextet_bounds Let_def)
qed simp

subsection \<open>Addresses\<close>

definition loose_address :: "string \<Rightarrow> bool" where
  "loose_address a = (\<exists>local domain. a = local @ CHR ''@'' # domain \<and> local \<noteq> [] \<and> domain \<noteq> []
     \<and> list_all loose_char local \<and> list_all loose_char domain)"

lemma list_all_takeWhile: "list_all p (takeWhile p s)"
  by (induction s) auto

lemma loose_addresses_sound: "a \<in> set (loose_addresses s) \<Longrightarrow> loose_address a"
proof (induction s rule: loose_addresses.induct)
  case (1 s)
  show ?case
  proof (cases "dropWhile (\<lambda>c. \<not> loose_char c) s")
    case Nil
    with "1.prems" show ?thesis by (simp add: loose_addresses.simps [of s])
  next
    case (Cons c cs)
    then have c: "loose_char c" using hd_dropWhile [of "\<lambda>c. \<not> loose_char c" s] by simp
    show ?thesis
    proof (cases "dropWhile loose_char (c # cs)")
      case Nil
      with Cons "1.prems" show ?thesis by (simp add: loose_addresses.simps [of s] del: dropWhile.simps)
    next
      fix at after
      assume r: "dropWhile loose_char (c # cs) = at # after"
      note ih = "1.IH" [OF Cons refl refl r refl]
      show ?thesis
      proof (cases "at = CHR ''@'' \<and> takeWhile loose_char after \<noteq> []")
        case True
        have head: "loose_address (takeWhile loose_char (c # cs) @ at # takeWhile loose_char after)"
          using True c unfolding loose_address_def
          by (intro exI [of _ "takeWhile loose_char (c # cs)"] exI [of _ "takeWhile loose_char after"])
            (simp add: list_all_takeWhile)
        have "loose_addresses s = (takeWhile loose_char (c # cs) @ at # takeWhile loose_char after)
            # loose_addresses (dropWhile loose_char after)"
          using Cons r True by (simp add: loose_addresses.simps [of s] Let_def del: dropWhile.simps takeWhile.simps)
        with "1.prems" head ih(1) [OF True] show ?thesis by auto
      next
        case False
        have "loose_addresses s = loose_addresses after"
          using Cons r False by (auto simp: loose_addresses.simps [of s] Let_def simp del: dropWhile.simps takeWhile.simps)
        with "1.prems" ih(2) [OF False] show ?thesis by simp
      qed
    qed
  qed
qed

lemma bracketed_sound: "a \<in> set (bracketed seg) \<Longrightarrow> loose_address a"
  using loose_addresses_sound [of a "snd (the (LastSplit CHR ''<'' seg))"]
  by (cases "LastSplit CHR ''<'' seg"; cases "loose_addresses (snd (the (LastSplit CHR ''<'' seg)))")
    (auto simp: bracketed_def)

text \<open>
  When a header does not parse strictly, every address taken from it has a local part and a domain
  without white space, brackets, quotes or separators, so it can be matched against and cannot break
  the text it is put in.
\<close>

theorem parseAddressList_fallback:
  assumes "strict_addresses M v = None" "a \<in> set (parseAddressList M v)"
  shows "loose_address a"
  using assms by (auto simp: parseAddressList_def Let_def bracketed_sound loose_addresses_sound split: if_splits)

theorem parseAddressList_fallback_witness:
  "parseAddressList demo_mail ''A, B <a@x.test> junk'' = [''a@x.test''] \<and> loose_address ''a@x.test''"
proof -
  have "dropWhile (\<lambda>c. \<not> loose_char c) ''a@x.test'' = ''a@x.test''" "takeWhile loose_char ''a@x.test'' = ''a''"
    "dropWhile loose_char ''a@x.test'' = ''@x.test''" "takeWhile loose_char ''x.test'' = ''x.test''"
    "dropWhile loose_char ''x.test'' = []"
    by code_simp+
  then have "loose_addresses ''a@x.test'' = [''a@x.test'']"
    by (simp add: loose_addresses.simps [of "''a@x.test''"] loose_addresses.simps [of "[]"])
  moreover have "TrimSpace ''A, B <a@x.test> junk'' \<noteq> []" "strict_addresses demo_mail ''A, B <a@x.test> junk'' = None"
    "Split CHR ''>'' ''A, B <a@x.test> junk'' = [''A, B <a@x.test'', '' junk'']"
    "LastSplit CHR ''<'' ''A, B <a@x.test'' = Some (''A, B '', ''a@x.test'')" "LastSplit CHR ''<'' '' junk'' = None"
    by code_simp+
  ultimately have p: "parseAddressList demo_mail ''A, B <a@x.test> junk'' = [''a@x.test'']"
    by (simp add: parseAddressList_def bracketed_def)
  then show ?thesis
    using parseAddressList_fallback [of demo_mail "''A, B <a@x.test> junk''" "''a@x.test''"]
      \<open>strict_addresses demo_mail ''A, B <a@x.test> junk'' = None\<close> by simp
qed

end
