(* ===== verification/MailAuth.thy ===== *)
theory MailAuth
  imports MailParser NetGuard
begin

section \<open>Authenticating senders (\<open>internal/smtp/auth.go\<close>)\<close>

text \<open>
  The ARC headers, alignment and \<open>VerifyAuth\<close>. The three protocol libraries are fields of \<open>authlib\<close>:
  \<open>spf_check\<close>, the verified signatures of \<open>dkim.Verify\<close> (domain and success), and the record of
  \<open>dmarc.Lookup\<close> (whether SPF and DKIM alignment are strict; \<open>None\<close> for any error). Metrics and logs
  are left out; an enforcement failure is a constructor of \<open>auth_failure\<close> with the sender.
\<close>

datatype spf_result = SpfPass | SpfFail | SpfSoftFail | SpfNeutral | SpfNone | SpfTempError | SpfPermError

record authlib = maillib +
  std_addresses :: "string \<Rightarrow> string list option"
  spf_check :: "ip \<Rightarrow> string \<Rightarrow> string \<Rightarrow> spf_result"
  dkim_verify :: "string \<Rightarrow> (string \<times> bool) list"
  dmarc_lookup :: "string \<Rightarrow> (bool \<times> bool) option"

subsection \<open>ARC\<close>

record arc_chain =
  arc_passed :: bool
  arc_spf :: auth_check
  arc_dkim :: auth_check
  arc_dmarc :: auth_check

definition no_arc :: arc_chain where
  "no_arc = \<lparr>arc_passed = False, arc_spf = [], arc_dkim = [], arc_dmarc = []\<rparr>"

text \<open>\<open>strconv.Atoi\<close>.\<close>

fun digits_value :: "nat \<Rightarrow> string \<Rightarrow> nat option" where
  "digits_value n [] = Some n"
| "digits_value n (c # cs) =
     (if 48 \<le> byte_of c \<and> byte_of c \<le> 57 then digits_value (10 * n + (byte_of c - 48)) cs else None)"

definition Atoi :: "string \<Rightarrow> int option" where
  "Atoi s =
     (let neg = HasPrefix s ''-''; t = (if neg \<or> HasPrefix s ''+'' then tl s else s) in
      if t = [] then None
      else (case digits_value 0 t of
          None \<Rightarrow> None
        | Some n \<Rightarrow>
            (let v = (if neg then - int n else int n) in
             if - (2 ^ 63) \<le> v \<and> v < 2 ^ 63 then Some v else None)))"

text \<open>The values of the parts \<open>key=\<close> of a lower-cased header, trimmed, in order.\<close>

fun params_of :: "string \<Rightarrow> string list \<Rightarrow> string list" where
  "params_of pre [] = []"
| "params_of pre (part # parts) =
     (let part = TrimSpace part in
      if HasPrefix part pre then TrimSpace (drop (length pre) part) # params_of pre parts
      else params_of pre parts)"

definition arcIntParam :: "'z golib_scheme \<Rightarrow> string \<Rightarrow> string \<Rightarrow> int" where
  "arcIntParam G s key =
     (case List.map_filter Atoi (params_of (key @ ''='') (Split CHR '';'' (ToLower G s))) of
        [] \<Rightarrow> 0 | n # _ \<Rightarrow> n)"

definition arcStringParam :: "'z golib_scheme \<Rightarrow> string \<Rightarrow> string \<Rightarrow> string" where
  "arcStringParam G s key =
     (case params_of (key @ ''='') (Split CHR '';'' (ToLower G s)) of [] \<Rightarrow> [] | v # _ \<Rightarrow> v)"

definition authResultValue :: "'z golib_scheme \<Rightarrow> string \<Rightarrow> string \<Rightarrow> auth_check" where
  "authResultValue G s method =
     (let lower = ToLower G s; prefix = method @ ''='' in
      case Index lower prefix of
        None \<Rightarrow> AuthNone
      | Some idx \<Rightarrow>
          if idx > 0 \<and> lower ! (idx - 1) \<notin> set [CHR '' '', CHR 0x09, CHR 0x0A, CHR '';''] then AuthNone
          else
            (let val = takeWhile (\<lambda>c. c \<notin> set [CHR '' '', CHR 0x09, CHR 0x0A, CHR 0x0D, CHR '';'', CHR ''(''])
                         (drop (idx + length prefix) lower);
                 v = TrimSpace val
             in if v = ''pass'' then AuthPass
                else if v = ''fail'' \<or> v = ''softfail'' then AuthFail
                else AuthNone))"

definition valid_seal :: "'z golib_scheme \<Rightarrow> string \<Rightarrow> bool" where
  "valid_seal G seal =
     (let i = arcIntParam G seal ''i''; cv = arcStringParam G seal ''cv'' in
      i > 0 \<and> (EqualFold G cv ''pass'' \<or> i = 1 \<and> EqualFold G cv ''none''))"

definition maxValidInstance :: "'z golib_scheme \<Rightarrow> string list \<Rightarrow> int" where
  "maxValidInstance G seals =
     foldl (\<lambda>m seal. if valid_seal G seal \<and> arcIntParam G seal ''i'' > m then arcIntParam G seal ''i'' else m) 0 seals"

definition checkARCChain :: "'z maillib_scheme \<Rightarrow> string \<Rightarrow> arc_chain" where
  "checkARCChain M raw =
     (case read_message M raw of
        None \<Rightarrow> no_arc
      | Some (h, _) \<Rightarrow>
          (let seals = header_values h ''Arc-Seal'' in
           if list_ex (\<lambda>seal. EqualFold M (arcStringParam M seal ''cv'') ''fail'') seals then no_arc
           else if maxValidInstance M seals = 0 then no_arc
           else (case find (\<lambda>aar. arcIntParam M aar ''i'' = 1) (header_values h ''Arc-Authentication-Results'') of
               None \<Rightarrow> no_arc\<lparr>arc_passed := True\<rparr>
             | Some aar \<Rightarrow> \<lparr>arc_passed = True, arc_spf = authResultValue M aar ''spf'',
                 arc_dkim = authResultValue M aar ''dkim'', arc_dmarc = authResultValue M aar ''dmarc''\<rparr>)))"

subsection \<open>Domains and alignment\<close>

definition parseHeaderFromDomain :: "'z authlib_scheme \<Rightarrow> string \<Rightarrow> string" where
  "parseHeaderFromDomain L raw =
     (case read_message L raw of
        None \<Rightarrow> []
      | Some (h, _) \<Rightarrow>
          (let fromHdr = header_get h ''From'' in
           if fromHdr = [] then []
           else (case std_addresses L fromHdr of
               None \<Rightarrow> []
             | Some [] \<Rightarrow> []
             | Some (a # _) \<Rightarrow> (case domain_of L a of Some d \<Rightarrow> d | None \<Rightarrow> []))))"

definition orgDomain :: "'z golib_scheme \<Rightarrow> string \<Rightarrow> string" where
  "orgDomain G domain =
     (let parts = Split CHR ''.'' (ToLower G domain) in
      if length parts \<le> 2 then ToLower G domain else Join (drop (length parts - 2) parts) ''.'')"

definition domainAligns :: "'z golib_scheme \<Rightarrow> string \<Rightarrow> string \<Rightarrow> bool \<Rightarrow> bool" where
  "domainAligns G checkDomain fromDomain relaxed =
     (let a = ToLower G checkDomain; b = ToLower G fromDomain in
      if a = b then True else if relaxed then orgDomain G a = orgDomain G b else False)"

subsection \<open>\<open>VerifyAuth\<close>\<close>

datatype auth_failure = SPFFailed string | DKIMFailed string | DMARCFailed string

datatype remote_addr = TCPAddr "ip option" | OtherAddr string

definition remote_ip :: "(string \<Rightarrow> ip option) \<Rightarrow> remote_addr \<Rightarrow> ip option" where
  "remote_ip parse_ip addr =
     (case addr of TCPAddr i \<Rightarrow> i
      | OtherAddr s \<Rightarrow> parse_ip (case SplitHostPort s of Some (host, _) \<Rightarrow> host | None \<Rightarrow> []))"

definition spf_value :: "spf_result \<Rightarrow> auth_check" where
  "spf_value r =
     (case r of SpfPass \<Rightarrow> AuthPass | SpfNeutral \<Rightarrow> AuthNone | SpfNone \<Rightarrow> AuthNone | SpfTempError \<Rightarrow> AuthNone
      | SpfPermError \<Rightarrow> AuthNone | SpfFail \<Rightarrow> AuthFail | SpfSoftFail \<Rightarrow> AuthFail)"

definition spf_step :: "'z authlib_scheme \<Rightarrow> arc_chain \<Rightarrow> AuthConfig \<Rightarrow> ip option \<Rightarrow> string \<Rightarrow> string \<Rightarrow> auth_check" where
  "spf_step L arc cfg i domain from =
     (case i of
        None \<Rightarrow> AuthNone
      | Some a \<Rightarrow>
          if \<not> mode_Enabled (ac_SPF cfg) \<or> domain = [] then AuthNone
          else if arc_passed arc \<and> arc_spf arc \<noteq> AuthNone then arc_spf arc
          else spf_value (spf_check L a domain from))"

definition dkim_pass_domains :: "'z authlib_scheme \<Rightarrow> AuthConfig \<Rightarrow> string \<Rightarrow> string list" where
  "dkim_pass_domains L cfg raw =
     (if mode_Enabled (ac_DKIM cfg) then map (\<lambda>(d, _). ToLower L d) (filter snd (dkim_verify L raw)) else [])"

definition dkim_step :: "'z authlib_scheme \<Rightarrow> AuthConfig \<Rightarrow> string \<Rightarrow> auth_check" where
  "dkim_step L cfg raw =
     (if \<not> mode_Enabled (ac_DKIM cfg) then AuthNone
      else if dkim_verify L raw = [] then AuthNone
      else if list_ex snd (dkim_verify L raw) then AuthPass else AuthFail)"

definition dmarc_step ::
    "'z authlib_scheme \<Rightarrow> arc_chain \<Rightarrow> AuthConfig \<Rightarrow> auth_check \<Rightarrow> string list \<Rightarrow> string \<Rightarrow> string \<Rightarrow> auth_check" where
  "dmarc_step L arc cfg spf passDomains envelopeDomain hdrDomain =
     (if \<not> mode_Enabled (ac_DMARC cfg) \<or> hdrDomain = [] then AuthNone
      else if arc_passed arc \<and> arc_dmarc arc \<noteq> AuthNone then arc_dmarc arc
      else (case dmarc_lookup L hdrDomain of
          None \<Rightarrow> AuthNone
        | Some (spfStrict, dkimStrict) \<Rightarrow>
            (let spfAligned = (spf = AuthPass \<and> domainAligns L envelopeDomain hdrDomain (\<not> spfStrict));
                 dkimAligned = list_ex (\<lambda>d. domainAligns L d hdrDomain (\<not> dkimStrict)) passDomains
             in if spfAligned \<or> dkimAligned then AuthPass else AuthFail)))"

definition envelope_domain :: "string \<Rightarrow> string" where
  "envelope_domain from = (case SplitN2 CHR ''@'' from of Some (_, d) \<Rightarrow> d | None \<Rightarrow> [])"

definition header_domain :: "'z authlib_scheme \<Rightarrow> string \<Rightarrow> string \<Rightarrow> string" where
  "header_domain L from raw =
     (let d = parseHeaderFromDomain L raw in if d = [] then envelope_domain from else d)"

definition VerifyAuth ::
    "'z authlib_scheme \<Rightarrow> (string \<Rightarrow> ip option) \<Rightarrow> AuthConfig \<Rightarrow> remote_addr \<Rightarrow> string \<Rightarrow> string
      \<Rightarrow> AuthResult \<times> auth_failure option" where
  "VerifyAuth L parse_ip cfg addr from raw =
     (let envelopeDomain = envelope_domain from;
          hdrDomain = header_domain L from raw;
          arc = checkARCChain L raw;
          result = \<lparr>ar_TLS = False, ar_SPF = AuthNone, ar_DKIM = AuthNone, ar_DMARC = AuthNone,
            ar_ARC = (if arc_passed arc then AuthPass else AuthNone)\<rparr>;
          spf = spf_step L arc cfg (remote_ip parse_ip addr) envelopeDomain from;
          result = result\<lparr>ar_SPF := spf\<rparr>
      in if mode_Enforced (ac_SPF cfg) \<and> spf = AuthFail then (result, Some (SPFFailed from))
         else
           (let dkim = dkim_step L cfg raw; result = result\<lparr>ar_DKIM := dkim\<rparr> in
            if mode_Enforced (ac_DKIM cfg) \<and> dkim = AuthFail then (result, Some (DKIMFailed from))
            else
              (let dmarc = dmarc_step L arc cfg spf (dkim_pass_domains L cfg raw) envelopeDomain hdrDomain;
                   result = result\<lparr>ar_DMARC := dmarc\<rparr>
               in if mode_Enforced (ac_DMARC cfg) \<and> dmarc = AuthFail then (result, Some (DMARCFailed from))
                  else (result, None))))"

subsection \<open>Properties\<close>

text \<open>A library for examples: the headers of every message, the SPF result of every domain, strict DMARC.\<close>

definition demo_auth :: "(string \<times> string list) list \<Rightarrow> spf_result \<Rightarrow> authlib" where
  "demo_auth h res = \<lparr>uni_lower = uni_lower ascii_lib, uni_fold = uni_fold ascii_lib, re_compile = re_compile ascii_lib,
     go_quote = go_quote ascii_lib, read_message = (\<lambda>raw. Some (h, raw)), strict_addresses = (\<lambda>v. Some [v]),
     decode_words = Some, media_type = (\<lambda>v. Some (v, [])), mime_parts = (\<lambda>_ _. []), base64_read = Some,
     std_addresses = (\<lambda>v. Some [v]), spf_check = (\<lambda>_ _ _. res), dkim_verify = (\<lambda>_. []),
     dmarc_lookup = (\<lambda>_. Some (True, True))\<rparr>"

definition demo_enforce :: AuthConfig where
  "demo_enforce = \<lparr>ac_SPF = AuthModeEnforce, ac_DKIM = AuthModeLog, ac_DMARC = AuthModeEnforce\<rparr>"

text \<open>
  A message is refused exactly when an enforced check has failed, and the refusal names the first
  such check in the order SPF, DKIM, DMARC; a mode that only logs never refuses.
\<close>

theorem VerifyAuth_enforces:
  "case VerifyAuth L parse_ip cfg addr from raw of
     (r, None) \<Rightarrow> \<not> (mode_Enforced (ac_SPF cfg) \<and> ar_SPF r = AuthFail)
        \<and> \<not> (mode_Enforced (ac_DKIM cfg) \<and> ar_DKIM r = AuthFail)
        \<and> \<not> (mode_Enforced (ac_DMARC cfg) \<and> ar_DMARC r = AuthFail)
   | (r, Some (SPFFailed f)) \<Rightarrow> f = from \<and> mode_Enforced (ac_SPF cfg) \<and> ar_SPF r = AuthFail
   | (r, Some (DKIMFailed f)) \<Rightarrow> f = from \<and> mode_Enforced (ac_DKIM cfg) \<and> ar_DKIM r = AuthFail
        \<and> \<not> (mode_Enforced (ac_SPF cfg) \<and> ar_SPF r = AuthFail)
   | (r, Some (DMARCFailed f)) \<Rightarrow> f = from \<and> mode_Enforced (ac_DMARC cfg) \<and> ar_DMARC r = AuthFail
        \<and> \<not> (mode_Enforced (ac_SPF cfg) \<and> ar_SPF r = AuthFail)
        \<and> \<not> (mode_Enforced (ac_DKIM cfg) \<and> ar_DKIM r = AuthFail)"
  by (simp add: VerifyAuth_def Let_def)

text \<open>
  C12: Without ARC headers, and with DMARC enforced for a sender domain that publishes a record, a
  message gets through only when SPF passed for an envelope domain aligned with the header's, or a
  DKIM signature of an aligned domain verified.
\<close>

theorem dmarc_requires_alignment:
  assumes "snd (VerifyAuth L parse_ip cfg addr from raw) = None"
    and "mode_Enforced (ac_DMARC cfg)" "\<not> arc_passed (checkARCChain L raw)"
    and "header_domain L from raw \<noteq> []" "dmarc_lookup L (header_domain L from raw) = Some (spfStrict, dkimStrict)"
  shows "(\<exists>i local d. remote_ip parse_ip addr = Some i \<and> SplitN2 CHR ''@'' from = Some (local, d)
        \<and> spf_check L i d from = SpfPass \<and> domainAligns L d (header_domain L from raw) (\<not> spfStrict))
    \<or> (\<exists>d. (d, True) \<in> set (dkim_verify L raw) \<and> domainAligns L (ToLower L d) (header_domain L from raw) (\<not> dkimStrict))"
proof -
  define env where "env = envelope_domain from"
  define arc where "arc = checkARCChain L raw"
  define spf where "spf = spf_step L arc cfg (remote_ip parse_ip addr) env from"
  have "dmarc_step L arc cfg spf (dkim_pass_domains L cfg raw) env (header_domain L from raw) \<noteq> AuthFail"
    using assms(1,2)
    by (auto simp: VerifyAuth_def env_def arc_def spf_def Let_def split: if_splits)
  moreover have "mode_Enabled (ac_DMARC cfg)" using assms(2) by (simp add: mode_Enabled_def mode_Enforced_def)
  ultimately have "spf = AuthPass \<and> domainAligns L env (header_domain L from raw) (\<not> spfStrict)
      \<or> list_ex (\<lambda>d. domainAligns L d (header_domain L from raw) (\<not> dkimStrict)) (dkim_pass_domains L cfg raw)"
    using assms(3-5) by (auto simp: dmarc_step_def arc_def Let_def split: if_splits)
  then show ?thesis
  proof
    assume s: "spf = AuthPass \<and> domainAligns L env (header_domain L from raw) (\<not> spfStrict)"
    then obtain i where i: "remote_ip parse_ip addr = Some i" "env \<noteq> []" "spf_check L i env from = SpfPass"
      using assms(3)
      by (auto simp: spf_def spf_step_def spf_value_def arc_def split: option.splits if_splits spf_result.splits)
    then obtain local where "SplitN2 CHR ''@'' from = Some (local, env)"
      by (auto simp: env_def envelope_domain_def split: option.splits)
    with s i show ?thesis by blast
  next
    assume "list_ex (\<lambda>d. domainAligns L d (header_domain L from raw) (\<not> dkimStrict)) (dkim_pass_domains L cfg raw)"
    then show ?thesis by (auto simp: dkim_pass_domains_def list_ex_iff split: if_splits)
  qed
qed

lemma seal_first: "EqualFold G ''none'' ''fail'' = False" "EqualFold G ''none'' ''pass'' = False" "EqualFold G ''none'' ''none'' = True"
  by (simp_all add: EqualFold_def ascii_lower_def)

lemma forged_seal:
  "arcStringParam G ''i=1; cv=none'' ''cv'' = ''none'' \<and> arcIntParam G ''i=1; cv=none'' ''i'' = 1"
proof -
  have "is_ascii ''i=1; cv=none''" "map ascii_lower ''i=1; cv=none'' = ''i=1; cv=none''" by code_simp+
  then have l: "ToLower G ''i=1; cv=none'' = ''i=1; cv=none''" by (simp add: ToLower_ascii)
  have "params_of ''cv='' (Split CHR '';'' ''i=1; cv=none'') = [''none'']"
    "List.map_filter Atoi (params_of ''i='' (Split CHR '';'' ''i=1; cv=none'')) = [1]" by code_simp+
  then show ?thesis by (simp add: arcStringParam_def arcIntParam_def l)
qed

text \<open>
  The ARC headers are believed without their signatures. A sender who adds the single header line
  \<open>ARC-Seal: i=1; cv=none\<close> and no results passes enforced SPF and enforced DMARC whatever the SPF
  record of the domain and its DMARC record say; the recorded SPF and DMARC results are empty.
\<close>

theorem arc_seal_alone_bypasses:
  assumes "read_message L raw = Some (h, body)"
    and "header_values h ''Arc-Seal'' = [''i=1; cv=none'']" "header_values h ''Arc-Authentication-Results'' = []"
    and "\<not> mode_Enforced (ac_DKIM cfg)"
  shows "snd (VerifyAuth L parse_ip cfg addr from raw) = None"
proof -
  have arc: "checkARCChain L raw = no_arc\<lparr>arc_passed := True\<rparr>"
    using assms(1-3) forged_seal [of L]
    by (simp add: checkARCChain_def maxValidInstance_def valid_seal_def seal_first)
  have "spf_step L (checkARCChain L raw) cfg i d f \<noteq> AuthFail" for i d f
    by (auto simp: spf_step_def arc no_arc_def split: option.split)
  moreover have "dmarc_step L (checkARCChain L raw) cfg s ds e d \<noteq> AuthFail" for s ds e d
    by (auto simp: dmarc_step_def arc no_arc_def)
  ultimately show ?thesis using assms(4) by (simp add: VerifyAuth_def Let_def)
qed

theorem arc_seal_alone_bypasses_witness:
  "snd (VerifyAuth (demo_auth [(''Arc-Seal'', [''i=1; cv=none'']), (''From'', [''ceo@bank.test''])] SpfFail) (\<lambda>_. None)
     demo_enforce (TCPAddr (Some [192, 0, 2, 1])) ''ceo@bank.test'' ''x'') = None"
proof -
  let ?h = "[(''Arc-Seal'', [''i=1; cv=none'']), (''From'', [''ceo@bank.test''])]"
  have "header_values ?h ''Arc-Seal'' = [''i=1; cv=none'']" "header_values ?h ''Arc-Authentication-Results'' = []"
    "\<not> mode_Enforced (ac_DKIM demo_enforce)" by code_simp+
  moreover have "read_message (demo_auth ?h SpfFail) ''x'' = Some (?h, ''x'')" by (simp add: demo_auth_def)
  ultimately show ?thesis using arc_seal_alone_bypasses by blast
qed

theorem dmarc_requires_alignment_witness:
  "\<exists>local d. SplitN2 CHR ''@'' ''a@bank.test'' = Some (local, d)
     \<and> domainAligns (demo_auth [] SpfPass) d ''bank.test'' False"
proof -
  let ?L = "demo_auth [] SpfPass"
  have hdr: "header_domain ?L ''a@bank.test'' ''x'' = ''bank.test''"
    by (simp add: header_domain_def envelope_domain_def parseHeaderFromDomain_def demo_auth_def header_get_def header_values_def)
  have arc: "checkARCChain ?L ''x'' = no_arc"
    by (simp add: checkARCChain_def demo_auth_def header_values_def maxValidInstance_def)
  have env: "envelope_domain ''a@bank.test'' = ''bank.test''" by (simp add: envelope_domain_def)
  have same: "domainAligns G d d b" for G :: "'z golib_scheme" and d b by (simp add: domainAligns_def)
  have lib: "dkim_verify ?L = (\<lambda>_. [])" "dmarc_lookup ?L = (\<lambda>_. Some (True, True))" "spf_check ?L = (\<lambda>_ _ _. SpfPass)"
    by (simp_all add: demo_auth_def)
  have "snd (VerifyAuth ?L (\<lambda>_. None) demo_enforce (TCPAddr (Some [8, 8, 8, 8])) ''a@bank.test'' ''x'') = None"
    by (simp add: VerifyAuth_def Let_def hdr arc env spf_step_def dkim_step_def dmarc_step_def dkim_pass_domains_def lib
        same remote_ip_def spf_value_def no_arc_def mode_Enabled_def demo_enforce_def)
  from dmarc_requires_alignment [OF this, of True True] show ?thesis
    by (simp add: hdr arc lib demo_enforce_def mode_Enforced_def no_arc_def)
qed

end
