(* ===== verification/Smtp.thy ===== *)
theory Smtp
  imports MailAuth GoPath
begin

section \<open>The SMTP server (\<open>internal/smtp/server.go\<close>)\<close>

text \<open>
  The session the SMTP library drives: it calls \<open>Mail\<close>, \<open>Rcpt\<close>, \<open>Data\<close> and \<open>Reset\<close> in the order of the
  client's commands, which is left open here. The handlers the server is built with work on a state
  \<open>'s\<close> of their own; the locale \<open>email_sink\<close> states what the server relies on when it answers OK. A nil
  error is \<open>SmtpOK\<close>; metrics and logs are left out.
\<close>

datatype reply = SmtpOK | ReadFailed | SmtpError int "int \<times> int \<times> int" string

record session =
  ss_tls :: bool
  ss_remote :: remote_addr
  ss_from :: string
  ss_to :: "string list"

type_synonym ('e, 's) email_handler = "ParsedEmail \<Rightarrow> string \<Rightarrow> 's \<Rightarrow> 'e option \<times> 's"
type_synonym 's rejection_handler = "string \<Rightarrow> string list \<Rightarrow> AuthResult \<Rightarrow> string \<Rightarrow> string \<Rightarrow> 's \<Rightarrow> 's"

record ('e, 's) server =
  sv_cfg :: SMTPConfig
  sv_authCfg :: AuthConfig
  sv_handler :: "('e, 's) email_handler"
  sv_rejectionHandler :: "'s rejection_handler option"

definition SetAuthConfig :: "AuthConfig \<Rightarrow> ('e, 's) server \<Rightarrow> ('e, 's) server" where
  "SetAuthConfig cfg srv = srv\<lparr>sv_authCfg := cfg\<rparr>"

definition SetRejectionHandler :: "'s rejection_handler \<Rightarrow> ('e, 's) server \<Rightarrow> ('e, 's) server" where
  "SetRejectionHandler h srv = srv\<lparr>sv_rejectionHandler := Some h\<rparr>"

definition NewSession :: "bool \<Rightarrow> remote_addr \<Rightarrow> session" where
  "NewSession encrypted addr = \<lparr>ss_tls = encrypted, ss_remote = addr, ss_from = [], ss_to = []\<rparr>"

definition Reset_session :: "session \<Rightarrow> session" where
  "Reset_session s = s\<lparr>ss_from := [], ss_to := []\<rparr>"

definition matchRecipient :: "'z golib_scheme \<Rightarrow> string \<Rightarrow> string list \<Rightarrow> bool" where
  "matchRecipient G recipient patterns =
     list_ex (\<lambda>p. path_match (ToLower G p) (ToLower G recipient) = Some True) patterns"

definition Mail :: "SMTPConfig \<Rightarrow> string \<Rightarrow> session \<Rightarrow> reply \<times> session" where
  "Mail cfg from s =
     (if sc_RequireTLS cfg \<and> \<not> ss_tls s then (SmtpError 530 (5, 7, 0) ''Must issue STARTTLS first'', s)
      else (SmtpOK, s\<lparr>ss_from := from\<rparr>))"

definition Rcpt :: "'z golib_scheme \<Rightarrow> SMTPConfig \<Rightarrow> string \<Rightarrow> session \<Rightarrow> reply \<times> session" where
  "Rcpt G cfg to s =
     (if length (sc_AllowedRecipients cfg) > 0 \<and> \<not> matchRecipient G to (sc_AllowedRecipients cfg)
      then (SmtpError 550 (5, 7, 1) ''Recipient not allowed'', s)
      else (SmtpOK, s\<lparr>ss_to := ss_to s @ [to]\<rparr>))"

definition failure_text :: "auth_failure \<Rightarrow> string" where
  "failure_text f =
     (case f of SPFFailed from \<Rightarrow> ''SPF check failed for '' @ from
      | DKIMFailed from \<Rightarrow> ''DKIM check failed for '' @ from
      | DMARCFailed from \<Rightarrow> ''DMARC check failed for '' @ from)"

text \<open>\<open>raw\<close> is what could be read of the message, \<open>None\<close> after a read error.\<close>

definition Data ::
    "'z authlib_scheme \<Rightarrow> (string \<Rightarrow> ip option) \<Rightarrow> ('e, 's) server \<Rightarrow> string option \<Rightarrow> session \<Rightarrow> 's \<Rightarrow> reply \<times> 's" where
  "Data L parse_ip srv raw s st =
     (case raw of
        None \<Rightarrow> (ReadFailed, st)
      | Some rawData \<Rightarrow>
          (case VerifyAuth L parse_ip (sv_authCfg srv) (ss_remote s) (ss_from s) rawData of
             (r, Some f) \<Rightarrow>
               (let authResult = r\<lparr>ar_TLS := ss_tls s\<rparr>;
                    st = (case sv_rejectionHandler srv of
                        None \<Rightarrow> st
                      | Some h \<Rightarrow> h (ss_from s) (ss_to s) authResult rawData (failure_text f) st)
                in (SmtpError 550 (5, 7, 1) (failure_text f), st))
           | (r, None) \<Rightarrow>
               (case ParseEmail L rawData of
                  Inl _ \<Rightarrow> (SmtpError 550 (5, 6, 0) ''Failed to parse email'', st)
                | Inr e \<Rightarrow>
                    (let email = e\<lparr>pe_EnvelopeFrom := ss_from s, pe_EnvelopeTo := ss_to s,
                           pe_AuthResult := Some (r\<lparr>ar_TLS := ss_tls s\<rparr>)\<rparr>
                     in case sv_handler srv email rawData st of
                          (Some _, st) \<Rightarrow> (SmtpError 451 (4, 3, 0) ''Unable to queue email; try again later'', st)
                        | (None, st) \<Rightarrow> (SmtpOK, st)))))"

datatype tls_error = PairIncomplete | CertificateRequired | CertificateUnreadable string

text \<open>\<open>load\<close> is the error of \<open>tls.LoadX509KeyPair\<close>; success tells whether STARTTLS is offered.\<close>

definition configureTLS :: "(string \<Rightarrow> string \<Rightarrow> string option) \<Rightarrow> SMTPConfig \<Rightarrow> (tls_error, bool) result" where
  "configureTLS load cfg =
     (if (sc_TLSCert cfg = []) \<noteq> (sc_TLSKey cfg = []) then Inl PairIncomplete
      else if sc_TLSCert cfg = [] then
        if sc_RequireTLS cfg then Inl CertificateRequired else Inr False
      else (case load (sc_TLSCert cfg) (sc_TLSKey cfg) of
          Some e \<Rightarrow> Inl (CertificateUnreadable e) | None \<Rightarrow> Inr True))"

subsection \<open>Sessions\<close>

datatype session_call = CallMail string | CallRcpt string | CallData "string option" | CallReset

fun session_step ::
    "'z authlib_scheme \<Rightarrow> (string \<Rightarrow> ip option) \<Rightarrow> ('e, 's) server \<Rightarrow> session_call \<Rightarrow> session \<times> 's \<Rightarrow> reply \<times> session \<times> 's"
where
  "session_step L parse_ip srv (CallMail from) (s, st) = (let (r, s') = Mail (sv_cfg srv) from s in (r, s', st))"
| "session_step L parse_ip srv (CallRcpt to) (s, st) = (let (r, s') = Rcpt L (sv_cfg srv) to s in (r, s', st))"
| "session_step L parse_ip srv (CallData raw) (s, st) = (let (r, st') = Data L parse_ip srv raw s st in (r, s, st'))"
| "session_step L parse_ip srv CallReset (s, st) = (SmtpOK, Reset_session s, st)"

fun run_session ::
    "'z authlib_scheme \<Rightarrow> (string \<Rightarrow> ip option) \<Rightarrow> ('e, 's) server \<Rightarrow> session_call list \<Rightarrow> session \<times> 's \<Rightarrow> session \<times> 's"
where
  "run_session L parse_ip srv [] x = x"
| "run_session L parse_ip srv (c # cs) x = run_session L parse_ip srv cs (snd (session_step L parse_ip srv c x))"

text \<open>The session invariant: only allowed recipients, and no sender without the TLS the server requires.\<close>

definition session_inv :: "'z golib_scheme \<Rightarrow> SMTPConfig \<Rightarrow> session \<Rightarrow> bool" where
  "session_inv G cfg s \<longleftrightarrow>
     (sc_AllowedRecipients cfg \<noteq> [] \<longrightarrow> list_all (\<lambda>to. matchRecipient G to (sc_AllowedRecipients cfg)) (ss_to s))
     \<and> (sc_RequireTLS cfg \<and> \<not> ss_tls s \<longrightarrow> ss_from s = [])"

lemma session_inv_new [intro]: "session_inv G cfg (NewSession tls addr)"
  by (simp add: session_inv_def NewSession_def)

lemma session_inv_step:
  assumes "session_inv L (sv_cfg srv) s"
  shows "session_inv L (sv_cfg srv) (fst (snd (session_step L parse_ip srv c (s, st))))"
  using assms
  by (cases c) (auto simp: session_inv_def Mail_def Rcpt_def Reset_session_def split: prod.split)

lemma session_inv_run:
  "session_inv L (sv_cfg srv) (fst x) \<Longrightarrow> session_inv L (sv_cfg srv) (fst (run_session L parse_ip srv cs x))"
proof (induction cs arbitrary: x)
  case (Cons c cs)
  then show ?case using session_inv_step [of L srv "fst x" parse_ip c "snd x"] by simp
qed simp

lemma session_tls_step: "ss_tls (fst (snd (session_step L parse_ip srv c (s, st)))) = ss_tls s"
  by (cases c) (auto simp: Mail_def Rcpt_def Reset_session_def split: prod.split)

lemma session_tls_run: "ss_tls (fst (run_session L parse_ip srv cs x)) = ss_tls (fst x)"
proof (induction cs arbitrary: x)
  case (Cons c cs)
  then show ?case using session_tls_step [of L parse_ip srv c "fst x" "snd x"] by simp
qed simp

subsection \<open>What the server relies on\<close>

text \<open>
  \<open>kept st e\<close> says that the email has been taken over; the handler promises it whenever it returns nil,
  and both handlers keep the invariant of their state.
\<close>

locale email_sink =
  fixes handle :: "('e, 's) email_handler"
    and reject :: "'s rejection_handler"
    and inv :: "'s \<Rightarrow> bool"
    and kept :: "'s \<Rightarrow> ParsedEmail \<Rightarrow> bool"
  assumes handle_inv: "inv st \<Longrightarrow> handle e raw st = (err, st') \<Longrightarrow> inv st'"
    and handle_keeps: "inv st \<Longrightarrow> handle e raw st = (None, st') \<Longrightarrow> kept st' e"
    and reject_inv: "inv st \<Longrightarrow> inv (reject from to r raw reason st)"
begin

lemma Data_inv:
  assumes "sv_handler srv = handle" "sv_rejectionHandler srv = Some reject" "inv st"
  shows "inv (snd (Data L parse_ip srv raw s st))"
  using assms
  by (auto simp: Data_def Let_def split: option.splits prod.splits sum.splits intro: reject_inv handle_inv)

lemma Data_ok:
  assumes "sv_handler srv = handle" "inv st" "Data L parse_ip srv raw s st = (SmtpOK, st')"
  shows "\<exists>rawData e r. raw = Some rawData \<and> ParseEmail L rawData = Inr e
    \<and> VerifyAuth L parse_ip (sv_authCfg srv) (ss_remote s) (ss_from s) rawData = (r, None)
    \<and> kept st' (e\<lparr>pe_EnvelopeFrom := ss_from s, pe_EnvelopeTo := ss_to s, pe_AuthResult := Some (r\<lparr>ar_TLS := ss_tls s\<rparr>)\<rparr>)"
  using assms
  by (auto simp: Data_def Let_def split: option.splits prod.splits sum.splits dest: handle_keeps)

lemma run_inv:
  assumes "sv_handler srv = handle" "sv_rejectionHandler srv = Some reject"
  shows "inv (snd x) \<Longrightarrow> inv (snd (run_session L parse_ip srv cs x))"
proof (induction cs arbitrary: x)
  case (Cons c cs)
  have "inv (snd (snd (session_step L parse_ip srv c (s, st))))" if "inv st" for s st
    using that Data_inv [OF assms that, of L parse_ip _ s] by (cases c) (auto simp: case_prod_beta)
  with Cons show ?case by (cases x) simp
qed simp

text \<open>Whatever was called before, an OK to DATA means the message was kept with its envelope.\<close>

lemma accepted_kept:
  assumes "sv_handler srv = handle" "sv_rejectionHandler srv = Some reject" "inv st"
    and "run_session L parse_ip srv cs (NewSession tls addr, st) = (s, st1)"
    and "Data L parse_ip srv raw s st1 = (SmtpOK, st2)"
  shows "\<exists>rawData e r. raw = Some rawData \<and> ParseEmail L rawData = Inr e
    \<and> VerifyAuth L parse_ip (sv_authCfg srv) (ss_remote s) (ss_from s) rawData = (r, None)
    \<and> kept st2 (e\<lparr>pe_EnvelopeFrom := ss_from s, pe_EnvelopeTo := ss_to s, pe_AuthResult := Some (r\<lparr>ar_TLS := ss_tls s\<rparr>)\<rparr>)
    \<and> session_inv L (sv_cfg srv) s \<and> ss_tls s = tls"
proof -
  have new: "session_inv L (sv_cfg srv) (NewSession tls addr)" by (rule session_inv_new)
  have "inv st1" using run_inv [OF assms(1,2), of "(NewSession tls addr, st)" L parse_ip cs] assms(3,4) by simp
  moreover have "session_inv L (sv_cfg srv) s"
    using session_inv_run [of L srv "(NewSession tls addr, st)" parse_ip cs] new assms(4) by simp
  moreover have "ss_tls s = tls"
    using session_tls_run [of L parse_ip srv cs "(NewSession tls addr, st)"] assms(4) by (simp add: NewSession_def)
  ultimately show ?thesis using Data_ok [OF assms(1) _ assms(5)] by blast
qed

end

end
