(* ===== verification/Relay.thy ===== *)
theory Relay
  imports Smtp Dispatch Engine StoreInv RuleStore
begin

section \<open>The program (\<open>cmd/mailrelay/main.go\<close>)\<close>

text \<open>
  The two handlers \<open>main\<close> gives the SMTP server, over the state they share: the database (\<open>None\<close> when the
  program runs without one), the directory of raw messages, and the engine. They are shown to be an
  \<open>email_sink\<close>. Also the retention sweep with its files and the hot-reloadable settings. A call draws its
  identifiers and its time from the environment \<open>call_env\<close>.
\<close>

record call_env =
  ce_uuid :: "nat \<Rightarrow> string"
  ce_now :: int
  ce_write_ok :: bool

text \<open>
  \<open>rl_direct\<close> lists the emails handed to \<open>Dispatch\<close> when there is no database, \<open>rl_notified\<close> counts the
  notifications of the event bus, which exists only with a database.
\<close>

record relay =
  rl_db :: "deliverySnapshot db option"
  rl_files :: "string \<Rightarrow> string option"
  rl_direct :: "(ParsedEmail \<times> Rule list) list"
  rl_notified :: nat
  rl_calls :: nat

record relay_config =
  rl_engine :: Engine
  rl_retry :: RetryConfig
  rl_rawEmailDir :: string
  rl_env :: "nat \<Rightarrow> call_env"

datatype handler_error = SavingEmail sql_error | EnqueueingDeliveries sql_error

definition notify :: "relay \<Rightarrow> relay" where
  "notify s = (if rl_db s = None then s else s\<lparr>rl_notified := rl_notified s + 1\<rparr>)"

definition eml_name :: "string \<Rightarrow> string" where
  "eml_name i = i @ ''.eml''"

definition write_raw :: "relay_config \<Rightarrow> call_env \<Rightarrow> string \<Rightarrow> string \<Rightarrow> relay \<Rightarrow> relay" where
  "write_raw C env i rawData s =
     (if rl_rawEmailDir C \<noteq> [] \<and> length rawData > 0 \<and> ce_write_ok env
      then s\<lparr>rl_files := (rl_files s)(eml_name i \<mapsto> rawData)\<rparr> else s)"

definition received_record :: "string \<Rightarrow> int \<Rightarrow> ParsedEmail \<Rightarrow> EmailRecord" where
  "received_record i now email =
     \<lparr>er_ID = i, er_ReceivedAt = now, er_EnvelopeFrom = pe_EnvelopeFrom email, er_EnvelopeTo = pe_EnvelopeTo email,
      er_HeaderFrom = pe_From email, er_HeaderTo = pe_To email, er_Subject = pe_Subject email,
      er_Status = EmailStatusReceived, er_RejectionReason = [], er_ParsedEmail = Some email,
      er_AuthResult = pe_AuthResult email\<rparr>"

definition buildHandler :: "'z weblib_scheme \<Rightarrow> relay_config \<Rightarrow> (handler_error, relay) email_handler" where
  "buildHandler W C email rawData s =
     (let env = rl_env C (rl_calls s);
          s = s\<lparr>rl_calls := rl_calls s + 1\<rparr>;
          emailID = ce_uuid env 0;
          matched = Match W (rl_engine C) email
      in case rl_db s of
           None \<Rightarrow>
             (if matched = [] then (None, notify s)
              else (None, notify (s\<lparr>rl_direct := rl_direct s @ [(email, matched)]\<rparr>)))
         | Some db \<Rightarrow>
             (case SaveEmail (ce_uuid env) (ce_now env) (received_record emailID (ce_now env) email) db of
                Inl err \<Rightarrow> (Some (SavingEmail err), s)
              | Inr db1 \<Rightarrow>
                  (let s = write_raw C env emailID rawData (s\<lparr>rl_db := Some db1\<rparr>) in
                   if matched = [] then
                     (None, notify (s\<lparr>rl_db := Some (UpdateEmailStatus emailID EmailStatusDropped db1)\<rparr>))
                   else (case Enqueue W (rl_retry C) (\<lambda>k. ce_uuid env (Suc k)) (ce_now env) emailID email matched db1 of
                       (Some err, db2) \<Rightarrow> (Some (EnqueueingDeliveries err), s\<lparr>rl_db := Some db2\<rparr>)
                     | (None, db2) \<Rightarrow> (None, notify (s\<lparr>rl_db := Some db2\<rparr>))))))"

definition rejected_email :: "'m maillib_scheme \<Rightarrow> string \<Rightarrow> string list \<Rightarrow> AuthResult \<Rightarrow> string \<Rightarrow> ParsedEmail" where
  "rejected_email M from to authResult rawData =
     (case ParseEmail M rawData of Inr e \<Rightarrow> e | Inl _ \<Rightarrow> empty_email)
       \<lparr>pe_EnvelopeFrom := from, pe_EnvelopeTo := to, pe_AuthResult := Some authResult\<rparr>"

text \<open>Registered only when there is a database; a failure to save is logged and the file still written.\<close>

definition buildRejectionHandler :: "'m maillib_scheme \<Rightarrow> relay_config \<Rightarrow> relay rejection_handler" where
  "buildRejectionHandler M C from to authResult rawData reason s =
     (case rl_db s of
        None \<Rightarrow> s
      | Some db \<Rightarrow>
          (let env = rl_env C (rl_calls s);
               s = s\<lparr>rl_calls := rl_calls s + 1\<rparr>;
               emailID = ce_uuid env 0;
               e = rejected_email M from to authResult rawData;
               rec = (received_record emailID (ce_now env) e)
                 \<lparr>er_Status := EmailStatusRejected, er_RejectionReason := reason\<rparr>;
               s = (case SaveEmail (ce_uuid env) (ce_now env) rec db of
                   Inl _ \<Rightarrow> s | Inr db1 \<Rightarrow> s\<lparr>rl_db := Some db1\<rparr>)
           in notify (write_raw C env emailID rawData s)))"

subsection \<open>Retention\<close>

text \<open>The days are kept in an \<open>atomic.Int32\<close>: a conversion that keeps the low 32 bits.\<close>

definition int32 :: "int \<Rightarrow> int" where
  "int32 x = signed_take_bit 31 x"

definition cleanupOnce :: "relay_config \<Rightarrow> int \<Rightarrow> int \<Rightarrow> relay \<Rightarrow> relay" where
  "cleanupOnce C now days s =
     (if days \<le> 0 then s
      else (case rl_db s of
          None \<Rightarrow> s
        | Some db \<Rightarrow>
            (let (expiredIDs, db') = CleanupExpired now days db;
                 s = s\<lparr>rl_db := Some db'\<rparr>
             in if rl_rawEmailDir C = [] then s
                else s\<lparr>rl_files := (\<lambda>f. if f \<in> eml_name ` set expiredIDs then None else rl_files s f)\<rparr>)))"

subsection \<open>Settings\<close>

definition setLogLevel :: "string \<Rightarrow> string" where
  "setLogLevel level =
     (if level = ''debug'' then ''DEBUG'' else if level = ''warn'' then ''WARN''
      else if level = ''error'' then ''ERROR'' else ''INFO'')"

definition applySettings :: "AppConfig \<Rightarrow> AppConfig \<Rightarrow> AppConfig" where
  "applySettings dst src =
     dst\<lparr>cfg_LogLevel := cfg_LogLevel src, cfg_Auth := cfg_Auth src, cfg_Retry := cfg_Retry src,
         cfg_WebUI := (cfg_WebUI dst)\<lparr>wu_RetentionDays := wu_RetentionDays (cfg_WebUI src)\<rparr>\<rparr>"

end
