(* ===== verification/RelayProps.thy ===== *)
theory RelayProps
  imports Relay StoreProps
begin

section \<open>The program: what an accepted message is worth\<close>

text \<open>
  The handlers of \<open>main\<close> are an \<open>email_sink\<close>, so an OK to DATA means that the email is in the database
  with a pending delivery for each rule it matches. And a sweep removes emails and their raw files
  together.
\<close>

subsection \<open>The state\<close>

definition relay_inv :: "relay \<Rightarrow> bool" where
  "relay_inv s = (case rl_db s of None \<Rightarrow> True | Some db \<Rightarrow> store_inv db)"

definition queued_for :: "'s db \<Rightarrow> string \<Rightarrow> string \<Rightarrow> string \<Rightarrow> 's \<Rightarrow> bool" where
  "queued_for db eid batch rule snap =
     (\<exists>d\<in>set (t_deliveries db). \<exists>q\<in>set (t_queue db). q_email_id q = eid \<and> q_batch_id q = batch \<and> dl_email_id d = eid
        \<and> dl_id d = q_delivery_id q \<and> dl_rule_name d = rule \<and> dl_status d = DPending \<and> q_snapshot q = Some snap)"

definition stored_email :: "'z weblib_scheme \<Rightarrow> relay_config \<Rightarrow> deliverySnapshot db \<Rightarrow> ParsedEmail \<Rightarrow> bool" where
  "stored_email W C db e =
     (\<exists>r\<in>set (t_emails db). em_parsed_email r = Some e \<and> em_envelope_to r = pe_EnvelopeTo e
        \<and> (let matched = Match W (rl_engine C) e in
           if matched = [] then em_status r = EmailStatusDropped
           else em_status r = EmailStatusReceived
             \<and> (\<forall>rule\<in>set matched. queued_for db (em_id r) (em_delivery_batch r) (ru_Name rule) (snapshot_of W (rl_retry C) e rule))))"

definition relay_kept :: "'z weblib_scheme \<Rightarrow> relay_config \<Rightarrow> relay \<Rightarrow> ParsedEmail \<Rightarrow> bool" where
  "relay_kept W C s e =
     (case rl_db s of
        None \<Rightarrow> Match W (rl_engine C) e = [] \<or> (e, Match W (rl_engine C) e) \<in> set (rl_direct s)
      | Some db \<Rightarrow> stored_email W C db e)"

lemma notify_simps [simp]:
  "rl_db (notify s) = rl_db s" "rl_direct (notify s) = rl_direct s" "rl_files (notify s) = rl_files s"
  by (simp_all add: notify_def)

lemma write_raw_db [simp]: "rl_db (write_raw C env i raw s) = rl_db s"
  by (simp add: write_raw_def)

lemma relay_inv_notify [simp]: "relay_inv (notify s) = relay_inv s"
  by (simp add: relay_inv_def)

lemma relay_inv_write_raw [simp]: "relay_inv (write_raw C env i raw s) = relay_inv s"
  by (simp add: relay_inv_def)

lemma store_inv_SaveEmail: "store_inv db \<Longrightarrow> SaveEmail u now r db = Inr db' \<Longrightarrow> store_inv db'"
  unfolding SaveEmail_def by (rule store_inv_insert_email)

lemma store_inv_Enqueue: "store_inv db \<Longrightarrow> Enqueue W g u now i e rules db = (err, db') \<Longrightarrow> store_inv db'"
  using store_inv_EnqueueDeliveries [of db u i _ now] by (metis Enqueue_def snd_conv)

lemma buildHandler_inv:
  assumes "relay_inv s" "buildHandler W C e raw s = (err, s')"
  shows "relay_inv s'"
proof (cases "rl_db s")
  case None
  with assms(2) show ?thesis by (auto simp: buildHandler_def relay_inv_def Let_def split: if_splits)
next
  case (Some db)
  then have inv: "store_inv db" using assms(1) by (simp add: relay_inv_def)
  let ?env = "rl_env C (rl_calls s)"
  show ?thesis
  proof (cases "SaveEmail (ce_uuid ?env) (ce_now ?env) (received_record (ce_uuid ?env 0) (ce_now ?env) e) db")
    case (Inl err')
    with Some assms show ?thesis by (auto simp: buildHandler_def Let_def relay_inv_def)
  next
    case (Inr db1)
    note inv1 = store_inv_SaveEmail [OF inv Inr]
    show ?thesis
      using Some Inr assms(2) inv1 store_inv_Enqueue [OF inv1]
      by (auto simp: buildHandler_def Let_def relay_inv_def store_inv_UpdateEmailStatus
          split: prod.splits option.splits if_splits)
  qed
qed

lemma buildRejectionHandler_inv:
  assumes "relay_inv s"
  shows "relay_inv (buildRejectionHandler M C from to r raw reason s)"
  using assms store_inv_SaveEmail
  by (auto simp: buildRejectionHandler_def Let_def relay_inv_def split: option.splits sum.splits)

subsection \<open>What the handler leaves in the database\<close>

lemma SaveEmail_new:
  assumes "store_inv db" "SaveEmail u now (received_record i now e) db = Inr db'"
  shows "\<exists>r. t_emails db' = t_emails db @ [r] \<and> t_deliveries db' = t_deliveries db
    \<and> em_parsed_email r = Some e \<and> em_envelope_to r = pe_EnvelopeTo e \<and> em_id r = (if i = [] then u 0 else i)
    \<and> (\<forall>d\<in>set (t_deliveries db). dl_email_id d \<noteq> em_id r)"
proof -
  have d: "\<forall>d\<in>set (t_deliveries db). dl_email_id d \<in> em_id ` set (t_emails db)"
    using assms(1) by (simp add: store_inv_def email_exists_def)
  from assms(2) have "\<exists>r. t_emails db' = t_emails db @ [r] \<and> t_deliveries db' = t_deliveries db
      \<and> em_parsed_email r = Some e \<and> em_envelope_to r = pe_EnvelopeTo e \<and> em_id r = (if i = [] then u 0 else i)
      \<and> em_id r \<notin> em_id ` set (t_emails db)"
    by (auto simp: SaveEmail_def insert_email_def received_record_def email_exists_def split: if_splits)
  with d show ?thesis by metis
qed

lemma stored_dropped:
  assumes "store_inv db" "SaveEmail u now (received_record (u 0) now e) db = Inr db1" "Match W (rl_engine C) e = []"
  shows "stored_email W C (UpdateEmailStatus (u 0) EmailStatusDropped db1) e"
proof -
  obtain r where r: "t_emails db1 = t_emails db @ [r]" "t_deliveries db1 = t_deliveries db"
    "em_parsed_email r = Some e" "em_envelope_to r = pe_EnvelopeTo e" "em_id r = u 0"
    "\<forall>d\<in>set (t_deliveries db). dl_email_id d \<noteq> em_id r"
    using SaveEmail_new [OF assms(1,2)] by (auto split: if_splits)
  have "r\<lparr>em_status := EmailStatusDropped\<rparr> \<in> set (t_emails (UpdateEmailStatus (u 0) EmailStatusDropped db1))"
    using r by (auto simp: UpdateEmailStatus_def map_where_def list_ex_iff)
  with r assms(3) show ?thesis unfolding stored_email_def by (intro bexI) auto
qed

lemma Enqueue_queued:
  assumes inv: "store_inv db" and enq: "Enqueue W g u now eid e rules db = (None, db')" and rule: "rule \<in> set rules"
  shows "queued_for db' eid (u 0) (ru_Name rule) (snapshot_of W g e rule)"
proof -
  let ?jobs = "map (\<lambda>r. (ru_Name r, snapshot_of W g e r)) rules"
  obtain s1 where s1: "enqueue_jobs u 1 (u 0) eid now ?jobs db = Inr s1"
    and db': "t_deliveries db' = t_deliveries s1" "t_queue db' = t_queue s1"
    using enq by (auto simp: Enqueue_def EnqueueDeliveries_def Let_def split: sum.splits)
  have a: "s1 = added (u 0) eid now (zip (job_ids u 1 ?jobs) ?jobs) db"
    by (rule enqueue_jobs_result [OF inv s1])
  obtain k where k: "k < length rules" "rules ! k = rule" using rule by (auto simp: in_set_conv_nth)
  then have "zip (job_ids u 1 ?jobs) ?jobs ! k \<in> set (zip (job_ids u 1 ?jobs) ?jobs)"
    by (intro nth_mem) (simp add: job_ids_def)
  with k have "(job_ids u 1 ?jobs ! k, ru_Name rule, snapshot_of W g e rule) \<in> set (zip (job_ids u 1 ?jobs) ?jobs)"
    by (simp add: job_ids_def)
  then obtain i where i: "(i, ru_Name rule, snapshot_of W g e rule) \<in> set (zip (job_ids u 1 ?jobs) ?jobs)" by blast
  have "new_delivery eid now i (ru_Name rule) \<in> set (t_deliveries db')"
    "new_queue_row (u 0) eid now i (snapshot_of W g e rule) \<in> set (t_queue db')"
    using i by (force simp: db' a added_def)+
  then show ?thesis
    unfolding queued_for_def
    by (intro bexI [of _ "new_delivery eid now i (ru_Name rule)"] bexI [of _ "new_queue_row (u 0) eid now i (snapshot_of W g e rule)"])
      (simp_all add: new_delivery_def new_queue_row_def)
qed

lemma Enqueue_emails:
  assumes "store_inv db" "Enqueue W g u now eid e rules db = (None, db')"
  shows "t_emails db' = map_where (\<lambda>r. em_id r = eid)
    (\<lambda>r. r\<lparr>em_status := EmailStatusReceived, em_delivery_batch := u 0\<rparr>) (t_emails db)"
proof -
  let ?jobs = "map (\<lambda>r. (ru_Name r, snapshot_of W g e r)) rules"
  obtain s1 where s1: "enqueue_jobs u 1 (u 0) eid now ?jobs db = Inr s1"
    and db': "t_emails db' = map_where (\<lambda>r. em_id r = eid)
      (\<lambda>r. r\<lparr>em_status := EmailStatusReceived, em_delivery_batch := u 0\<rparr>) (t_emails s1)"
    using assms(2) by (auto simp: Enqueue_def EnqueueDeliveries_def Let_def split: sum.splits)
  from enqueue_jobs_result [OF assms(1) s1] db' show ?thesis by (simp add: added_def)
qed

lemma stored_queued:
  assumes inv: "store_inv db" and save: "SaveEmail u now (received_record (u 0) now e) db = Inr db1"
    and ne: "Match W (rl_engine C) e \<noteq> []"
    and enq: "Enqueue W (rl_retry C) v now (u 0) e (Match W (rl_engine C) e) db1 = (None, db2)"
  shows "stored_email W C db2 e"
proof -
  obtain r where r: "t_emails db1 = t_emails db @ [r]"
    "em_parsed_email r = Some e" "em_envelope_to r = pe_EnvelopeTo e" "em_id r = u 0"
    using SaveEmail_new [OF inv save] by (auto split: if_splits)
  have inv1: "store_inv db1" by (rule store_inv_SaveEmail [OF inv save])
  have "r\<lparr>em_status := EmailStatusReceived, em_delivery_batch := v 0\<rparr> \<in> set (t_emails db2)"
    using r by (simp add: Enqueue_emails [OF inv1 enq] map_where_def)
  with r ne Enqueue_queued [OF inv1 enq] show ?thesis
    unfolding stored_email_def by (intro bexI) (auto simp: Let_def)
qed

lemma buildHandler_keeps:
  assumes "relay_inv s" "buildHandler W C e raw s = (None, s')"
  shows "relay_kept W C s' e"
proof (cases "rl_db s")
  case None
  with assms(2) show ?thesis by (auto simp: buildHandler_def relay_kept_def Let_def split: if_splits)
next
  case (Some db)
  then have inv: "store_inv db" using assms(1) by (simp add: relay_inv_def)
  obtain db1 where db1: "SaveEmail (ce_uuid (rl_env C (rl_calls s))) (ce_now (rl_env C (rl_calls s)))
      (received_record (ce_uuid (rl_env C (rl_calls s)) 0) (ce_now (rl_env C (rl_calls s))) e) db = Inr db1"
    using Some assms(2) by (auto simp: buildHandler_def Let_def split: sum.splits)
  show ?thesis
  proof (cases "Match W (rl_engine C) e = []")
    case True
    with Some db1 assms(2) stored_dropped [OF inv db1 True] show ?thesis
      by (auto simp: buildHandler_def relay_kept_def Let_def)
  next
    case False
    then obtain db2 where "Enqueue W (rl_retry C) (\<lambda>k. ce_uuid (rl_env C (rl_calls s)) (Suc k))
        (ce_now (rl_env C (rl_calls s))) (ce_uuid (rl_env C (rl_calls s)) 0) e (Match W (rl_engine C) e) db1 = (None, db2)"
      "rl_db s' = Some db2"
      using Some db1 assms(2) by (auto simp: buildHandler_def Let_def split: prod.splits option.splits)
    with stored_queued [OF inv db1 False] show ?thesis by (simp add: relay_kept_def)
  qed
qed

interpretation relay_sink: email_sink "buildHandler W C" "buildRejectionHandler M C" relay_inv "relay_kept W C"
  for W :: "'z weblib_scheme" and C and M :: "'m maillib_scheme"
  by unfold_locales (blast intro: buildHandler_inv buildHandler_keeps buildRejectionHandler_inv)+

subsection \<open>Properties\<close>


definition demo_rule :: Rule where
  "demo_rule = \<lparr>ru_Name = ''r1'', ru_Match = \<lparr>m_Mode = ''all'', m_Conditions = []\<rparr>,
     ru_Webhook = zero_webhook\<lparr>wh_URL := ''https://h.test''\<rparr>\<rparr>"

definition demo_ids :: "nat \<Rightarrow> nat \<Rightarrow> string" where
  "demo_ids n k = replicate (Suc n) CHR ''a'' @ replicate (Suc k) CHR ''b''"

definition demo_relay_config :: relay_config where
  "demo_relay_config = \<lparr>rl_engine = \<lparr>eng_rules = [demo_rule]\<rparr>,
     rl_retry = \<lparr>rc_MaxRetries = 3, rc_InitialWait = 1, rc_MaxWait = 30, rc_Timeout = 10, rc_RetryOnTimeout = True\<rparr>,
     rl_rawEmailDir = ''/raw'', rl_env = (\<lambda>n. \<lparr>ce_uuid = demo_ids n, ce_now = 5, ce_write_ok = True\<rparr>)\<rparr>"

definition demo_server :: "(handler_error, relay) server" where
  "demo_server = \<lparr>sv_cfg = \<lparr>sc_TLSCert = [], sc_TLSKey = [], sc_RequireTLS = False, sc_Addr = '':25'', sc_Domain = ''y.test'',
       sc_MaxMessageBytes = 1000, sc_MaxRecipients = 10, sc_ReadTimeout = 0, sc_WriteTimeout = 0, sc_AllowedRecipients = []\<rparr>,
     sv_authCfg = \<lparr>ac_SPF = AuthModeOff, ac_DKIM = AuthModeOff, ac_DMARC = AuthModeOff\<rparr>,
     sv_handler = buildHandler demo_web demo_relay_config,
     sv_rejectionHandler = Some (buildRejectionHandler demo_mail demo_relay_config)\<rparr>"

definition demo_relay :: relay where
  "demo_relay = \<lparr>rl_db = Some empty_db, rl_files = Map.empty, rl_direct = [], rl_notified = 0, rl_calls = 0\<rparr>"

definition demo_session :: session where
  "demo_session = (NewSession True (TCPAddr None))\<lparr>ss_from := ''a@x.test'', ss_to := [''b@y.test'']\<rparr>"


text \<open>
  A retention sweep removes an email and its raw file together: of the emails it finds, the file of
  one that stays is untouched and the file of one that goes is gone; and no email with a delivery still
  to be made goes.
\<close>

theorem cleanupOnce_files:
  assumes "rl_db s = Some db" "rl_rawEmailDir C \<noteq> []" "e \<in> set (t_emails db)" "store_inv db"
  shows "\<exists>db'. rl_db (cleanupOnce C now days s) = Some db'
    \<and> rl_files (cleanupOnce C now days s) (eml_name (em_id e)) =
        (if email_exists db' (em_id e) then rl_files s (eml_name (em_id e)) else None)
    \<and> (has_unfinished db (em_id e) \<longrightarrow> email_exists db' (em_id e))"
proof (cases "days \<le> 0")
  case True
  with assms show ?thesis by (auto simp: cleanupOnce_def email_exists_def)
next
  case False
  let ?p = "expired (cutoff now days) db"
  have d: "e' = e" if "e' \<in> set (t_emails db)" "em_id e' = em_id e" for e'
    using key_distinct_inj [of em_id "t_emails db" e' e] assms(3,4) that by (simp add: store_inv_def)
  have gone: "email_exists (delete_emails ?p db) (em_id e) \<longleftrightarrow> \<not> ?p e"
  proof -
    have "email_exists (delete_emails ?p db) (em_id e) \<longleftrightarrow> (\<exists>e'. e' \<in> set (t_emails db) \<and> \<not> ?p e' \<and> em_id e' = em_id e)"
      by (simp add: email_exists_def delete_emails_def Let_def image_iff Bex_def) metis
    then show ?thesis using assms(3) d by blast
  qed
  have ids: "eml_name (em_id e) \<in> eml_name ` set (map em_id (filter ?p (t_emails db))) \<longleftrightarrow> ?p e"
  proof -
    have "eml_name (em_id e) \<in> eml_name ` set (map em_id (filter ?p (t_emails db)))
        \<longleftrightarrow> (\<exists>e'. e' \<in> set (t_emails db) \<and> ?p e' \<and> em_id e' = em_id e)"
      by (simp add: eml_name_def image_iff Bex_def) metis
    then show ?thesis using assms(3) d by blast
  qed
  have "cleanupOnce C now days s = (s\<lparr>rl_db := Some (delete_emails ?p db)\<rparr>)
      \<lparr>rl_files := (\<lambda>f. if f \<in> eml_name ` set (map em_id (filter ?p (t_emails db))) then None else rl_files s f)\<rparr>"
    using assms(1,2) False by (simp add: cleanupOnce_def CleanupExpired_def Let_def cong: if_cong)
  then show ?thesis using gone ids by (auto simp: expired_def)
qed

theorem cleanupOnce_files_witness:
  "rl_files (cleanupOnce demo_relay_config (100 * 24 * Hour) 30
     (demo_relay\<lparr>rl_db := Some (empty_db\<lparr>t_emails := [demo_email ''m1'' 10]\<rparr>), rl_files := [''m1.eml'' \<mapsto> ''x'']\<rparr>)) ''m1.eml'' = None"
proof -
  let ?db = "empty_db\<lparr>t_emails := [demo_email ''m1'' 10]\<rparr> :: deliverySnapshot db"
  let ?s = "demo_relay\<lparr>rl_db := Some ?db, rl_files := [''m1.eml'' \<mapsto> ''x'']\<rparr>"
  have inv: "store_inv ?db" by (simp add: store_inv_def empty_db_def)
  have m: "demo_email ''m1'' 10 \<in> set (t_emails ?db)" by simp
  have dir: "rl_rawEmailDir demo_relay_config \<noteq> []" by (simp add: demo_relay_config_def)
  obtain db' where db': "rl_db (cleanupOnce demo_relay_config (100 * 24 * Hour) 30 ?s) = Some db'"
    "rl_files (cleanupOnce demo_relay_config (100 * 24 * Hour) 30 ?s) (eml_name (em_id (demo_email ''m1'' 10))) =
      (if email_exists db' (em_id (demo_email ''m1'' 10)) then rl_files ?s (eml_name (em_id (demo_email ''m1'' 10))) else None)"
    using cleanupOnce_files [OF _ dir m inv, of ?s "100 * 24 * Hour" 30] by auto
  have "map_option t_emails (rl_db (cleanupOnce demo_relay_config (100 * 24 * Hour) 30 ?s)) = Some []" by code_simp
  with db' show ?thesis by (simp add: email_exists_def eml_name_def demo_email_def)
qed

end
