(* ===== verification/WebUi.thy ===== *)
theory WebUi
  imports Relay MailParserProps
begin

section \<open>The web UI (\<open>internal/webui\<close>)\<close>

text \<open>
  The handlers of the web UI that change something: replaying and deleting emails, the rules editor,
  the rules import with its preview, and the settings. The state \<open>ui\<close> is all they share with the rest
  of the program: the database, the raw message files, the engine, and the settings in force. A page or
  a redirect is a constructor of \<open>page\<close>; a rendered template is left to the template library. A
  handler that draws identifiers and reads the clock is given \<open>uuid\<close> and \<open>now\<close>.
\<close>

text \<open>\<open>ur_form\<close> is \<open>r.Form\<close>, \<open>ur_id\<close> the path value, \<open>ur_body\<close> the body when it could be read within its limit.\<close>

record ui_req =
  ur_parse_ok :: bool
  ur_form :: "string \<Rightarrow> string list"
  ur_query :: "string \<Rightarrow> string"
  ur_id :: string
  ur_index :: string
  ur_hx :: bool
  ur_body :: "string option"

record ui =
  ui_db :: "deliverySnapshot db"
  ui_rules :: rules_table
  ui_settings :: "AppConfig option"
  ui_files :: "string \<Rightarrow> string option"
  ui_rawEmailDir :: string
  ui_engine :: Engine
  ui_config :: AppConfig
  ui_logLevel :: string
  ui_authCfg :: AuthConfig
  ui_retry :: RetryConfig
  ui_retentionDays :: int
  ui_notified :: nat

definition FormValue :: "ui_req \<Rightarrow> string \<Rightarrow> string" where
  "FormValue r k = (case ur_form r k of [] \<Rightarrow> [] | v # _ \<Rightarrow> v)"

text \<open>Blank edits preserve the stored secret; clearing is always explicit.\<close>

definition ruleSigningSecret :: "ui_req \<Rightarrow> string \<Rightarrow> string" where
  "ruleSigningSecret r existing =
     (if FormValue r ''clear_signing_secret'' = ''on'' then []
      else if FormValue r ''signing_secret'' \<noteq> [] then FormValue r ''signing_secret''
      else existing)"

definition computeStatus :: "DeliveryResult list \<Rightarrow> EmailStatus" where
  "computeStatus results =
     (if length results = 0 then EmailStatusDropped
      else (let successes = length (filter (\<lambda>r. dr_Status r = DSuccess) results) in
        if successes = length results then EmailStatusDelivered
        else if successes > 0 then EmailStatusPartialFailure else EmailStatusFailed))"

subsection \<open>The rule form\<close>

datatype form_error =
  RuleNameRequired | WebhookURLRequired | InvalidTemplate string | InvalidHeaderFormat string
| InvalidTimeout | InvalidMaxRetries | InvalidInitialWait | InvalidMaxWait | WaitExceedsMax
| HeaderKeyRequired | InvalidRule rule_error

text \<open>\<open>headers[k] = v\<close> on the list of a map's entries.\<close>

definition map_put :: "(string \<times> string) list \<Rightarrow> string \<Rightarrow> string \<Rightarrow> (string \<times> string) list" where
  "map_put m k v = filter (\<lambda>e. fst e \<noteq> k) m @ [(k, v)]"

fun header_lines :: "string list \<Rightarrow> (string \<times> string) list \<Rightarrow> (form_error, (string \<times> string) list) result" where
  "header_lines [] m = Inr m"
| "header_lines (l # ls) m =
     (let line = TrimSpace l in
      if line = [] then header_lines ls m
      else (case SplitN2 CHR '':'' line of
          None \<Rightarrow> Inl (InvalidHeaderFormat line)
        | Some (k, v) \<Rightarrow> header_lines ls (map_put m (TrimSpace k) (TrimSpace v))))"

definition form_headers :: "ui_req \<Rightarrow> (form_error, (string \<times> string) list option) result" where
  "form_headers r =
     (let raw = TrimSpace (FormValue r ''webhook_headers'') in
      if raw = [] then Inr None
      else (case header_lines (Split CHR 0x0A raw) [] of Inl e \<Rightarrow> Inl e | Inr h \<Rightarrow> Inr (Some h)))"

text \<open>An optional number: blank leaves it unset.\<close>

definition form_int :: "ui_req \<Rightarrow> string \<Rightarrow> int \<Rightarrow> form_error \<Rightarrow> (form_error, int option) result" where
  "form_int r k lo err =
     (let v = TrimSpace (FormValue r k) in
      if v = [] then Inr None
      else (case Atoi v of None \<Rightarrow> Inl err | Some n \<Rightarrow> if n < lo then Inl err else Inr (Some n)))"

definition form_bool :: "ui_req \<Rightarrow> string \<Rightarrow> bool option" where
  "form_bool r k = (let v = TrimSpace (FormValue r k) in if v = [] then None else Some (v = ''yes''))"

definition nth_trim :: "string list \<Rightarrow> nat \<Rightarrow> string" where
  "nth_trim xs i = (if i < length xs then TrimSpace (xs ! i) else [])"

fun form_conditions ::
    "nat \<Rightarrow> string list \<Rightarrow> string list \<Rightarrow> string list \<Rightarrow> (form_error, MatchCondition list) result" where
  "form_conditions i [] patterns keys = Inr []"
| "form_conditions i (f # fs) patterns keys =
     (let field = TrimSpace f; pattern = nth_trim patterns i; key = nth_trim keys i in
      if field = [] \<or> pattern = [] then form_conditions (Suc i) fs patterns keys
      else if field = ''header'' \<and> key = [] then Inl HeaderKeyRequired
      else (case form_conditions (Suc i) fs patterns keys of
          Inl e \<Rightarrow> Inl e
        | Inr cs \<Rightarrow> Inr (\<lparr>mc_Field = field, mc_Pattern = pattern,
            mc_Header = (if field = ''header'' then key else [])\<rparr> # cs)))"

text \<open>The webhook part, in the order the fields are read; the first one that is wrong gives the error.\<close>

definition form_webhook :: "'z weblib_scheme \<Rightarrow> ui_req \<Rightarrow> string \<Rightarrow> (form_error, WebhookConfig) result" where
  "form_webhook W r url =
     (let method = TrimSpace (FormValue r ''webhook_method'');
          method = (if method = [] then ''POST'' else method);
          tmpl = FormValue r ''payload_template''
      in case (if TrimSpace tmpl = [] then None
               else (case ParseTemplate W tmpl of Inl e \<Rightarrow> Some e | Inr _ \<Rightarrow> None)) of
        Some e \<Rightarrow> Inl (InvalidTemplate e)
      | None \<Rightarrow>
      (case form_headers r of Inl e \<Rightarrow> Inl e | Inr headers \<Rightarrow>
      (case form_int r ''wh_timeout'' 0 InvalidTimeout of Inl e \<Rightarrow> Inl e | Inr timeout \<Rightarrow>
      (case form_int r ''wh_max_retries'' 0 InvalidMaxRetries of Inl e \<Rightarrow> Inl e | Inr retries \<Rightarrow>
      (case form_int r ''wh_initial_wait'' 1 InvalidInitialWait of Inl e \<Rightarrow> Inl e | Inr initial \<Rightarrow>
      (case form_int r ''wh_max_wait'' 1 InvalidMaxWait of Inl e \<Rightarrow> Inl e | Inr maxw \<Rightarrow>
        if (case (initial, maxw) of (Some a, Some b) \<Rightarrow> a > b | _ \<Rightarrow> False) then Inl WaitExceedsMax
        else Inr \<lparr>wh_SigningSecret = ruleSigningSecret r [], wh_URL = url, wh_Method = method,
          wh_Headers = headers, wh_PayloadTemplate = tmpl, wh_Timeout = timeout, wh_MaxRetries = retries,
          wh_InitialWait = initial, wh_MaxWait = maxw,
          wh_RetryOnTimeout = form_bool r ''wh_retry_on_timeout''\<rparr>))))))"

text \<open>An error comes with the rule only when it was built and then failed \<open>rules.Validate\<close>.\<close>

definition parseRuleForm :: "'z weblib_scheme \<Rightarrow> ui_req \<Rightarrow> (form_error \<times> RuleRecord option, RuleRecord) result" where
  "parseRuleForm W r =
     (let name = TrimSpace (FormValue r ''name''); url = TrimSpace (FormValue r ''webhook_url'') in
      if name = [] then Inl (RuleNameRequired, None)
      else if url = [] then Inl (WebhookURLRequired, None)
      else (case form_webhook W r url of
          Inl e \<Rightarrow> Inl (e, None)
        | Inr wh \<Rightarrow>
            (let mode = (if TrimSpace (FormValue r ''match_mode'') = ''any'' then ''any'' else ''all'') in
             case form_conditions 0 (ur_form r ''cond_field'') (ur_form r ''cond_pattern'') (ur_form r ''cond_header'') of
               Inl e \<Rightarrow> Inl (e, None)
             | Inr conditions \<Rightarrow>
                 (let rule = \<lparr>rr_ID = [], rr_Name = name, rr_Enabled = False,
                        rr_Match = \<lparr>m_Mode = mode, m_Conditions = conditions\<rparr>, rr_Webhook = wh,
                        rr_Position = 0, rr_CreatedAt = zero_time, rr_UpdatedAt = zero_time\<rparr>
                  in case Validate W rule of
                       Some e \<Rightarrow> Inl (InvalidRule e, Some rule) | None \<Rightarrow> Inr rule))))"

subsection \<open>Answers\<close>

record importChange =
  ic_Name :: string
  ic_Action :: string
  ic_Fields :: "string list"

datatype rules_problem = FormProblem form_error | NameTaken

datatype settings_error =
  BadLogLevel | BadAuthMode string | BadMaxRetries | BadInitialWait | BadMaxWait | InitialExceedsMax
| BadRequestTimeout | BadRetentionDays | SettingsNotSaved

text \<open>\<open>FileRefused\<close> is status 400 with the text of the error.\<close>

datatype page =
  HttpError int string
| RedirectTo string int
| RulesForm rules_problem "RuleRecord option" bool
| SettingsForm settings_error
| FileRefused decode_error
| DetailModal EmailRecord "delivery_row list" bool
| EmailDeleted
| RuleDeleted
| Download string string string
| Changes "importChange list"
| TestOutcome "(go_error, TestResult) result option"

abbreviation "NotFound \<equiv> HttpError 404 ''Not Found''"
abbreviation "ServerError \<equiv> HttpError 500 ''Internal Server Error''"
abbreviation "BadRequestError \<equiv> HttpError 400 ''Bad Request''"

definition ui_notify :: "ui \<Rightarrow> ui" where
  "ui_notify s = s\<lparr>ui_notified := ui_notified s + 1\<rparr>"

subsection \<open>Emails\<close>

text \<open>The file of an email inside the raw directory, unless the identifier could lead out of it.\<close>

definition rawEmailPath :: "ui \<Rightarrow> string \<Rightarrow> string option" where
  "rawEmailPath s i =
     (if ui_rawEmailDir s = [] \<or> i = [] \<or> i = ''.'' \<or> i = ''..'' \<or> ContainsAny i [CHR ''/'', CHR 0x5C] then None
      else Some (eml_name i))"

definition hasRawEmail :: "ui \<Rightarrow> string \<Rightarrow> bool" where
  "hasRawEmail s i = (case rawEmailPath s i of None \<Rightarrow> False | Some p \<Rightarrow> ui_files s p \<noteq> None)"

definition removeRawEmail :: "string \<Rightarrow> ui \<Rightarrow> ui" where
  "removeRawEmail i s = (case rawEmailPath s i of None \<Rightarrow> s | Some p \<Rightarrow> s\<lparr>ui_files := (ui_files s)(p := None)\<rparr>)"

definition handleDetail :: "ui_req \<Rightarrow> ui \<Rightarrow> page" where
  "handleDetail r s =
     (if ur_id r = [] then NotFound
      else (case GetEmail (ur_id r) (ui_db s) of
          Inl _ \<Rightarrow> NotFound
        | Inr email \<Rightarrow>
            if ur_hx r then DetailModal email (GetDeliveriesForEmail (ur_id r) (ui_db s)) (hasRawEmail s (ur_id r))
            else RedirectTo ''/'' 302))"

text \<open>Envelope and authentication come from the SMTP transaction and are kept.\<close>

definition reparseRawEmail :: "'m maillib_scheme \<Rightarrow> string \<Rightarrow> ParsedEmail \<Rightarrow> ui \<Rightarrow> ParsedEmail \<times> ui" where
  "reparseRawEmail M i pe s =
     (case Option.bind (rawEmailPath s i) (ui_files s) of
        None \<Rightarrow> (pe, s)
      | Some raw \<Rightarrow>
          (case ParseEmail M raw of
             Inl _ \<Rightarrow> (pe, s)
           | Inr parsed \<Rightarrow>
               (let parsed = parsed\<lparr>pe_EnvelopeFrom := pe_EnvelopeFrom pe, pe_EnvelopeTo := pe_EnvelopeTo pe,
                      pe_AuthResult := pe_AuthResult pe\<rparr>
                in (parsed, s\<lparr>ui_db := UpdateParsedEmail i parsed (ui_db s)\<rparr>))))"

definition handleReplay ::
    "'z weblib_scheme \<Rightarrow> 'm maillib_scheme \<Rightarrow> (nat \<Rightarrow> string) \<Rightarrow> int \<Rightarrow> ui_req \<Rightarrow> ui \<Rightarrow> page \<times> ui" where
  "handleReplay W M uuid now r s =
     (if ur_id r = [] then (NotFound, s)
      else (case GetEmail (ur_id r) (ui_db s) of
          Inl _ \<Rightarrow> (NotFound, s)
        | Inr email \<Rightarrow>
            (case er_ParsedEmail email of
               None \<Rightarrow> (NotFound, s)
             | Some pe \<Rightarrow>
                 (let (pe, s) = reparseRawEmail M (ur_id r) pe s;
                      matched = Match W (ui_engine s) pe
                  in if matched = [] then
                       (let s = s\<lparr>ui_db := UpdateEmailStatus (ur_id r) EmailStatusDropped (ui_db s)\<rparr>
                        in (handleDetail r s, s))
                     else (case Enqueue W (ui_retry s) uuid now (ur_id r) pe matched (ui_db s) of
                         (Some _, db) \<Rightarrow> (HttpError 500 ''Failed to enqueue replay'', s\<lparr>ui_db := db\<rparr>)
                       | (None, db) \<Rightarrow> (let s = ui_notify (s\<lparr>ui_db := db\<rparr>) in (handleDetail r s, s)))))))"

definition handleDelete :: "ui_req \<Rightarrow> ui \<Rightarrow> page \<times> ui" where
  "handleDelete r s =
     (if ur_id r = [] then (NotFound, s)
      else (EmailDeleted, ui_notify (removeRawEmail (ur_id r) (s\<lparr>ui_db := DeleteEmail (ur_id r) (ui_db s)\<rparr>))))"

definition handleDeleteAll :: "ui \<Rightarrow> page \<times> ui" where
  "handleDeleteAll s =
     (let s = (if ui_rawEmailDir s \<noteq> [] then fold removeRawEmail (AllEmailIDs (ui_db s)) s else s)
      in (EmailDeleted, ui_notify (s\<lparr>ui_db := snd (DeleteAllEmails (ui_db s))\<rparr>)))"

definition handleRaw :: "ui_req \<Rightarrow> ui \<Rightarrow> page" where
  "handleRaw r s =
     (if ur_id r = [] \<or> ui_rawEmailDir s = [] then NotFound
      else (case Option.bind (rawEmailPath s (ur_id r)) (ui_files s) of
          None \<Rightarrow> NotFound
        | Some data \<Rightarrow>
            if ur_query r ''download'' = ''1'' then Download ''message/rfc822'' (eml_name (ur_id r)) data
            else Download ''text/plain; charset=utf-8'' [] data))"

text \<open>\<open>base64.StdEncoding.DecodeString\<close> skips line breaks.\<close>

definition DecodeString :: "string \<Rightarrow> string option" where
  "DecodeString s = b64_decode (filter (\<lambda>c. c \<noteq> CHR 0x0D \<and> c \<noteq> CHR 0x0A) s)"

definition handleAttachment :: "ui_req \<Rightarrow> ui \<Rightarrow> page" where
  "handleAttachment r s =
     (if ur_id r = [] \<or> ur_index r = [] then NotFound
      else (case Atoi (ur_index r) of
          None \<Rightarrow> NotFound
        | Some idx \<Rightarrow>
            if idx < 0 then NotFound
            else (case GetEmail (ur_id r) (ui_db s) of
                Inl _ \<Rightarrow> NotFound
              | Inr email \<Rightarrow>
                  (case er_ParsedEmail email of
                     None \<Rightarrow> NotFound
                   | Some pe \<Rightarrow>
                       if idx \<ge> int (length (pe_Attachments pe)) then NotFound
                       else (let att = pe_Attachments pe ! nat idx in
                         case DecodeString (at_Content att) of
                           None \<Rightarrow> ServerError
                         | Some decoded \<Rightarrow> Download (at_ContentType att)
                             (if at_Filename att = [] then ''attachment-'' @ FormatInt idx else at_Filename att) decoded)))))"

subsection \<open>The rules editor\<close>

text \<open>An error of the reload is only logged; the engine then keeps its rules.\<close>

definition ui_reload :: "'z golib_scheme \<Rightarrow> ui \<Rightarrow> ui" where
  "ui_reload G s = s\<lparr>ui_engine := snd (reloadRules G (ui_rules s) (ui_engine s))\<rparr>"

definition rules_sql_reply :: "rule_sql_error \<Rightarrow> RuleRecord \<Rightarrow> bool \<Rightarrow> page" where
  "rules_sql_reply e rule isEdit = (if e = RuleUnique then RulesForm NameTaken (Some rule) isEdit else ServerError)"

definition handleRuleCreate ::
    "'z weblib_scheme \<Rightarrow> (nat \<Rightarrow> string) \<Rightarrow> int \<Rightarrow> ui_req \<Rightarrow> ui \<Rightarrow> page \<times> ui" where
  "handleRuleCreate W uuid now r s =
     (if \<not> ur_parse_ok r then (BadRequestError, s)
      else (case parseRuleForm W r of
          Inl (e, rule) \<Rightarrow> (RulesForm (FormProblem e) rule False, s)
        | Inr rule \<Rightarrow>
            (let rule = rule\<lparr>rr_Position := NextRulePosition (ui_rules s), rr_Enabled := True\<rparr> in
             case SaveRule uuid now rule (ui_rules s) of
               Inl e \<Rightarrow> (rules_sql_reply e
                 (rule\<lparr>rr_ID := uuid 0, rr_CreatedAt := now, rr_UpdatedAt := now\<rparr>) False, s)
             | Inr rows \<Rightarrow> (RedirectTo ''/rules'' 303, ui_reload W (s\<lparr>ui_rules := rows\<rparr>)))))"

definition handleRuleUpdate :: "'z weblib_scheme \<Rightarrow> int \<Rightarrow> ui_req \<Rightarrow> ui \<Rightarrow> page \<times> ui" where
  "handleRuleUpdate W now r s =
     (if \<not> ur_parse_ok r then (BadRequestError, s)
      else (case GetRule W (ur_id r) (ui_rules s) of
          Inl _ \<Rightarrow> (NotFound, s)
        | Inr existing \<Rightarrow>
            (case parseRuleForm W r of
               Inl (e, _) \<Rightarrow> (RulesForm (FormProblem e) (Some existing) True, s)
             | Inr rule \<Rightarrow>
                 (let webhook = (rr_Webhook rule)
                        \<lparr>wh_SigningSecret := ruleSigningSecret r (wh_SigningSecret (rr_Webhook existing))\<rparr>;
                      rec = existing\<lparr>rr_Name := rr_Name rule, rr_Match := rr_Match rule, rr_Webhook := webhook\<rparr>
                  in case UpdateRule now rec (ui_rules s) of
                       Inl e \<Rightarrow> (rules_sql_reply e (rule\<lparr>rr_Webhook := webhook, rr_ID := ur_id r\<rparr>) True, s)
                     | Inr rows \<Rightarrow> (RedirectTo ''/rules'' 303, ui_reload W (s\<lparr>ui_rules := rows\<rparr>))))))"

definition handleRuleDelete :: "'z golib_scheme \<Rightarrow> ui_req \<Rightarrow> ui \<Rightarrow> page \<times> ui" where
  "handleRuleDelete G r s =
     (RuleDeleted, ui_reload G (s\<lparr>ui_rules := DeleteRule (ur_id r) (ui_rules s)\<rparr>))"

definition handleRuleToggle :: "'z golib_scheme \<Rightarrow> int \<Rightarrow> ui_req \<Rightarrow> ui \<Rightarrow> page \<times> ui" where
  "handleRuleToggle G now r s =
     (case GetRule G (ur_id r) (ui_rules s) of
        Inl _ \<Rightarrow> (NotFound, s)
      | Inr rule \<Rightarrow>
          (case UpdateRule now (rule\<lparr>rr_Enabled := \<not> rr_Enabled rule\<rparr>) (ui_rules s) of
             Inl _ \<Rightarrow> (ServerError, s)
           | Inr rows \<Rightarrow> (RedirectTo ''/rules'' 303, ui_reload G (s\<lparr>ui_rules := rows\<rparr>))))"

text \<open>The outcome is \<open>None\<close> when there is no URL to test.\<close>

definition handleTestWebhook ::
    "'z weblib_scheme \<Rightarrow> sender \<Rightarrow> transport \<Rightarrow> string \<Rightarrow> ui_req \<Rightarrow> ui \<Rightarrow> page" where
  "handleTestWebhook W sd rt deliveryID r s =
     (if \<not> ur_parse_ok r then BadRequestError
      else (let url = TrimSpace (FormValue r ''webhook_url''); method = TrimSpace (FormValue r ''webhook_method'') in
        if url = [] then TestOutcome None
        else (let rid = FormValue r ''rule_id'' in
          case (if rid = [] then Inr (ruleSigningSecret r [])
                else map_sum id (\<lambda>existing. ruleSigningSecret r (wh_SigningSecret (rr_Webhook existing)))
                  (GetRule W rid (ui_rules s))) of
            Inl _ \<Rightarrow> HttpError 404 ''Rule not found''
          | Inr secret \<Rightarrow> TestOutcome (Some (TestConnectivity W sd rt deliveryID url method (Some secret))))))"

subsection \<open>Importing and exporting\<close>

text \<open>\<open>reflect.DeepEqual\<close> on two webhooks: the header maps without their order, nil and empty differing.\<close>

definition headers_equal :: "(string \<times> string) list option \<Rightarrow> (string \<times> string) list option \<Rightarrow> bool" where
  "headers_equal a b =
     (case (a, b) of (None, None) \<Rightarrow> True | (Some h, Some k) \<Rightarrow> sort_key fst h = sort_key fst k | _ \<Rightarrow> False)"

definition webhook_equal :: "WebhookConfig \<Rightarrow> WebhookConfig \<Rightarrow> bool" where
  "webhook_equal v w = (headers_equal (wh_Headers v) (wh_Headers w)
     \<and> v\<lparr>wh_Headers := None\<rparr> = w\<lparr>wh_Headers := None\<rparr>)"

definition changed_fields :: "TransferRule \<Rightarrow> TransferRule \<Rightarrow> string list" where
  "changed_fields old item =
     (if tr_Enabled old \<noteq> tr_Enabled item then [''enabled''] else [])
     @ (if tr_Position old \<noteq> tr_Position item then [''position''] else [])
     @ (if match_json (tr_Match old) \<noteq> match_json (tr_Match item) then [''match''] else [])
     @ (if \<not> webhook_equal (tr_Webhook old) (tr_Webhook item) then [''webhook''] else [])"

definition import_change :: "(string \<Rightarrow> TransferRule option) \<Rightarrow> TransferRule \<Rightarrow> importChange" where
  "import_change existing item =
     (case existing (tr_Name item) of
        None \<Rightarrow> \<lparr>ic_Name = tr_Name item, ic_Action = ''created'', ic_Fields = []\<rparr>
      | Some old \<Rightarrow>
          (let fields = changed_fields old item in
           \<lparr>ic_Name = tr_Name item, ic_Action = (if length fields > 0 then ''updated'' else ''unchanged''),
            ic_Fields = fields\<rparr>))"

fun import_changes ::
    "(string \<Rightarrow> TransferRule option) \<Rightarrow> TransferRule list \<Rightarrow> importChange list \<times> (string \<Rightarrow> TransferRule option)" where
  "import_changes existing [] = ([], existing)"
| "import_changes existing (item # items) =
     (let (cs, rest) = import_changes (existing(tr_Name item := None)) items
      in (import_change existing item # cs, rest))"

definition deleted_changes :: "(string \<Rightarrow> TransferRule option) \<Rightarrow> RuleRecord list \<Rightarrow> importChange list" where
  "deleted_changes existing records =
     map (\<lambda>r. \<lparr>ic_Name = rr_Name r, ic_Action = ''deleted'', ic_Fields = []\<rparr>)
       (filter (\<lambda>r. existing (rr_Name r) \<noteq> None) records)"

definition existing_rules :: "RuleRecord list \<Rightarrow> string \<Rightarrow> TransferRule option" where
  "existing_rules records = foldl (\<lambda>m r. m(rr_Name r \<mapsto> Portable r)) Map.empty records"

definition preview :: "RuleRecord list \<Rightarrow> TransferRule list \<Rightarrow> bool \<Rightarrow> importChange list" where
  "preview records items replace =
     (let (changes, rest) = import_changes (existing_rules records) items
      in changes @ (if replace then deleted_changes rest records else []))"

definition handleRulesImport ::
    "'z filelib_scheme \<Rightarrow> (nat \<Rightarrow> string) \<Rightarrow> (nat \<Rightarrow> int) \<Rightarrow> ui_req \<Rightarrow> ui \<Rightarrow> page \<times> ui" where
  "handleRulesImport F uuid now r s =
     (case ur_body r of
        None \<Rightarrow> (HttpError 400 ''Rules file exceeds 2 MiB or could not be read'', s)
      | Some data \<Rightarrow>
          (case Decode F data of
             Inl e \<Rightarrow> (FileRefused e, s)
           | Inr items \<Rightarrow>
               (let mode = ur_query r ''mode'' in
                if mode \<noteq> ''merge'' \<and> mode \<noteq> ''replace'' then (HttpError 400 ''mode must be merge or replace'', s)
                else (case ListRules F (ui_rules s) of
                    Inl _ \<Rightarrow> (HttpError 500 ''Could not read rules'', s)
                  | Inr records \<Rightarrow>
                      (let changes = preview records items (mode = ''replace'') in
                       if ur_query r ''apply'' = ''true'' then
                         (case ImportRules uuid now items (mode = ''replace'') (ui_rules s) of
                            (Some _, rows) \<Rightarrow> (HttpError 500 ''Could not import rules'', s\<lparr>ui_rules := rows\<rparr>)
                          | (None, rows) \<Rightarrow>
                              (case reloadRules F rows (ui_engine s) of
                                 (Some _, eng) \<Rightarrow>
                                   (HttpError 500 ''Rules saved; reload failed. Restart mailrelay to load them.'',
                                    s\<lparr>ui_rules := rows, ui_engine := eng\<rparr>)
                               | (None, eng) \<Rightarrow> (Changes changes, s\<lparr>ui_rules := rows, ui_engine := eng\<rparr>)))
                       else (Changes changes, s))))))"

definition handleRulesExport :: "'z filelib_scheme \<Rightarrow> ui_req \<Rightarrow> ui \<Rightarrow> page" where
  "handleRulesExport F r s =
     (let format = (if ur_query r ''format'' = [] then ''yaml'' else ur_query r ''format'') in
      if format \<noteq> ''yaml'' \<and> format \<noteq> ''json'' then HttpError 400 ''format must be yaml or json''
      else (case ListRules F (ui_rules s) of
          Inl _ \<Rightarrow> HttpError 500 ''Could not read rules''
        | Inr records \<Rightarrow>
            (case Export F records format of
               Inl _ \<Rightarrow> HttpError 500 ''Could not export rules''
             | Inr data \<Rightarrow> Download (''application/'' @ format) (''rules.'' @ format) data)))"

subsection \<open>Settings\<close>

definition auth_fields :: "string list" where
  "auth_fields = [''auth_spf'', ''auth_dkim'', ''auth_dmarc'']"

definition valid_mode :: "string \<Rightarrow> bool" where
  "valid_mode m = (m = AuthModeOff \<or> m = AuthModeLog \<or> m = AuthModeEnforce)"

definition form_atoi :: "ui_req \<Rightarrow> string \<Rightarrow> int \<Rightarrow> settings_error \<Rightarrow> (settings_error, int) result" where
  "form_atoi r k lo err =
     (case Atoi (FormValue r k) of None \<Rightarrow> Inl err | Some n \<Rightarrow> if n < lo then Inl err else Inr n)"

text \<open>
  The checks of \<open>handleSettingsSave\<close>, and the settings of the form over those there are. \<open>visit\<close> is the
  order in which \<open>range\<close> goes through the map of the three auth fields.
\<close>

definition settings_form :: "string list \<Rightarrow> ui_req \<Rightarrow> AppConfig \<Rightarrow> (settings_error, AppConfig) result" where
  "settings_form visit r cfg =
     (let level = FormValue r ''log_level'' in
      if level \<notin> set [''debug'', ''info'', ''warn'', ''error''] then Inl BadLogLevel
      else (case find (\<lambda>f. \<not> valid_mode (FormValue r f)) visit of Some f \<Rightarrow> Inl (BadAuthMode f) | None \<Rightarrow>
      (case form_atoi r ''retry_max_retries'' 0 BadMaxRetries of Inl e \<Rightarrow> Inl e | Inr maxRetries \<Rightarrow>
      (case form_atoi r ''retry_initial_wait_seconds'' 1 BadInitialWait of Inl e \<Rightarrow> Inl e | Inr initial \<Rightarrow>
      (case form_atoi r ''retry_max_wait_seconds'' 1 BadMaxWait of Inl e \<Rightarrow> Inl e | Inr maxWait \<Rightarrow>
        if initial > maxWait then Inl InitialExceedsMax
        else
      (case form_atoi r ''retry_timeout_seconds'' 0 BadRequestTimeout of Inl e \<Rightarrow> Inl e | Inr timeout \<Rightarrow>
      (case form_atoi r ''retention_days'' 0 BadRetentionDays of Inl e \<Rightarrow> Inl e | Inr days \<Rightarrow>
        Inr (cfg\<lparr>cfg_LogLevel := level,
          cfg_Auth := \<lparr>ac_SPF = FormValue r ''auth_spf'', ac_DKIM = FormValue r ''auth_dkim'',
            ac_DMARC = FormValue r ''auth_dmarc''\<rparr>,
          cfg_Retry := \<lparr>rc_MaxRetries = maxRetries, rc_InitialWait = seconds initial, rc_MaxWait = seconds maxWait,
            rc_Timeout = seconds timeout, rc_RetryOnTimeout = (FormValue r ''retry_on_timeout'' = ''1'')\<rparr>,
          cfg_WebUI := (cfg_WebUI cfg)\<lparr>wu_RetentionDays := days\<rparr>\<rparr>))))))))"

text \<open>\<open>save_ok\<close> says whether the statement that stores the settings succeeds.\<close>

definition handleSettingsSave :: "string list \<Rightarrow> bool \<Rightarrow> ui_req \<Rightarrow> ui \<Rightarrow> page \<times> ui" where
  "handleSettingsSave visit save_ok r s =
     (if \<not> ur_parse_ok r then (BadRequestError, s)
      else (case settings_form visit r (ui_config s) of
          Inl e \<Rightarrow> (SettingsForm e, s)
        | Inr cfg \<Rightarrow>
            (let s = s\<lparr>ui_config := cfg\<rparr> in
             if \<not> save_ok then (SettingsForm SettingsNotSaved, s)
             else (RedirectTo ''/settings?saved=1'' 303,
               s\<lparr>ui_settings := Some cfg, ui_logLevel := setLogLevel (cfg_LogLevel cfg), ui_authCfg := cfg_Auth cfg,
                 ui_retry := cfg_Retry cfg, ui_retentionDays := int32 (wu_RetentionDays (cfg_WebUI cfg))\<rparr>))))"

end
