(* ===== verification/WebUiProps.thy ===== *)
theory WebUiProps
  imports WebUi RuleStoreProps DispatchProps RelayProps
begin

section \<open>The web UI: what its handlers guarantee\<close>

text \<open>
  The rules table only ever holds rows that decode, so a reload never fails and the engine runs exactly
  the enabled rules of the table after every call. From this follow the effect of disabling a rule on
  deliveries already queued, and the accuracy of the import preview. The handlers on emails are steps
  the queue allows, so they keep its invariant.
\<close>

subsection \<open>Rows that decode\<close>

definition row_ok :: "rule_row \<Rightarrow> bool" where
  "row_ok row \<longleftrightarrow> rw_enabled row \<in> {0, 1} \<and> (\<exists>m. rw_match row = match_json m)
     \<and> (\<exists>w. webhook_ok w \<and> rw_webhook row = webhook_json w)"

definition rows_ok :: "rules_table \<Rightarrow> bool" where
  "rows_ok rows \<longleftrightarrow> rules_inv rows \<and> (\<forall>row\<in>set rows. row_ok row)"

lemma row_ok_written: "row_ok row \<longleftrightarrow> (\<exists>r. written_by r row)"
proof
  assume "row_ok row"
  then obtain m w where mw: "rw_match row = match_json m" "webhook_ok w" "rw_webhook row = webhook_json w"
    "rw_enabled row \<in> {0, 1}" by (auto simp: row_ok_def)
  then have "written_by \<lparr>rr_ID = rw_id row, rr_Name = rw_name row, rr_Enabled = (rw_enabled row = 1), rr_Match = m,
      rr_Webhook = w, rr_Position = rw_position row, rr_CreatedAt = rw_created_at row,
      rr_UpdatedAt = rw_updated_at row\<rparr> row"
    by (cases row) (auto simp: written_by_def boolToInt_def)
  then show "\<exists>r. written_by r row" ..
qed (auto simp: written_by_def row_ok_def boolToInt_def)

lemma boolToInt_01 [simp]: "boolToInt b \<in> {0, 1}"
  by (simp add: boolToInt_def)

lemma rows_ok_Nil [simp]: "rows_ok []"
  by (simp add: rows_ok_def)

lemma row_okI:
  "rw_enabled row = boolToInt b \<Longrightarrow> rw_match row = match_json m \<Longrightarrow> rw_webhook row = webhook_json w \<Longrightarrow>
   webhook_ok w \<Longrightarrow> row_ok row"
  by (auto simp: row_ok_def boolToInt_def)

lemma rows_ok_SaveRule:
  assumes "rows_ok rows" "webhook_ok (rr_Webhook rule)" "SaveRule uuid now rule rows = Inr rows'"
  shows "rows_ok rows'"
proof -
  obtain row where row: "rows' = rows @ [row]" "rw_enabled row = boolToInt (rr_Enabled rule)"
    "rw_match row = match_json (rr_Match rule)" "rw_webhook row = webhook_json (rr_Webhook rule)"
    using assms(3) by (fastforce simp: SaveRule_def insert_rule_def split: if_splits)
  then have "row_ok row" using row_okI assms(2) by blast
  with row(1) assms(1,3) rules_inv_SaveRule [of rows uuid now rule rows'] show ?thesis
    by (auto simp: rows_ok_def)
qed

lemma rows_ok_UpdateRule:
  assumes "rows_ok rows" "webhook_ok (rr_Webhook rule)" "UpdateRule now rule rows = Inr rows'"
  shows "rows_ok rows'"
proof -
  have "row_ok (r\<lparr>rw_name := rr_Name rule, rw_enabled := boolToInt (rr_Enabled rule),
      rw_match := match_json (rr_Match rule), rw_webhook := webhook_json (rr_Webhook rule),
      rw_position := rr_Position rule, rw_updated_at := now\<rparr>)" for r
    by (rule row_okI [of _ "rr_Enabled rule" "rr_Match rule" "rr_Webhook rule"]) (simp_all add: assms(2))
  then show ?thesis
    using assms(1,3) rules_inv_UpdateRule [of rows now rule rows']
    by (auto simp: rows_ok_def UpdateRule_def set_map_where split: if_splits)
qed

lemma UpdateRule_row:
  assumes "UpdateRule now rule rows = Inr rows'" "x' \<in> set rows'"
  obtains "x' \<in> set rows" "rw_id x' \<noteq> rr_ID rule"
  | x where "x \<in> set rows" "rw_id x = rr_ID rule" "rw_id x' = rw_id x" "rw_name x' = rr_Name rule"
      "rw_enabled x' = boolToInt (rr_Enabled rule)" "rw_webhook x' = webhook_json (rr_Webhook rule)"
  using assms by (auto simp: UpdateRule_def set_map_where split: if_splits)

lemma rows_ok_DeleteRule: "rows_ok rows \<Longrightarrow> rows_ok (DeleteRule i rows)"
  using rules_inv_DeleteRule [of rows i] by (auto simp: rows_ok_def DeleteRule_def)

lemma rows_ok_upsert:
  assumes "rows_ok rows" "webhook_ok (tr_Webhook item)" "upsert_rule i now item rows = Inr rows'"
  shows "rows_ok rows'"
proof -
  have "row_ok (set_content item now r)" for r
    by (rule row_okI [of _ "tr_Enabled item" "tr_Match item" "tr_Webhook item"])
      (simp_all add: set_content_def assms(2))
  moreover have "row_ok (new_rule_row i now item)"
    by (rule row_okI [of _ "tr_Enabled item" "tr_Match item" "tr_Webhook item"])
      (simp_all add: new_rule_row_def assms(2))
  ultimately show ?thesis
    using assms(1,3) rules_inv_upsert [of rows i now item rows']
    by (auto simp: rows_ok_def upsert_rule_def set_map_where split: if_splits)
qed

lemma rows_ok_upserts:
  "rows_ok rows \<Longrightarrow> \<forall>i\<in>set items. webhook_ok (tr_Webhook i) \<Longrightarrow>
   upsert_rules uuid now k items rows = Inr rows' \<Longrightarrow> rows_ok rows'"
  by (induction uuid now k items rows rule: upsert_rules.induct) (auto split: sum.splits intro: rows_ok_upsert)

lemma rows_ok_ImportRules:
  assumes "rows_ok rows" "\<forall>i\<in>set items. webhook_ok (tr_Webhook i)"
  shows "rows_ok (snd (ImportRules uuid now items replace rows))"
  using assms rows_ok_upserts [OF assms, of uuid now 0] rows_ok_upserts [OF rows_ok_Nil assms(2), of uuid now 0]
  by (auto simp: ImportRules_def split: sum.split)

lemma GetRule_ok:
  assumes "rows_ok rows" "GetRule G i rows = Inr r"
  shows "webhook_ok (rr_Webhook r) \<and> rr_ID r = i
    \<and> (\<exists>row r'. row_of rw_id rows i = Some row \<and> written_by r' row \<and> r = norm_record r')"
proof -
  obtain row where row: "row_of rw_id rows i = Some row" "scanRule G row = Inr r"
    using assms(2) by (auto simp: GetRule_def split: option.splits)
  moreover have "row \<in> set rows" "rw_id row = i"
    using row(1) assms(1) by (auto simp: rows_ok_def rules_inv_def row_of_Some_iff)
  moreover obtain r' where w: "written_by r' row"
    using assms(1) \<open>row \<in> set rows\<close> by (auto simp: rows_ok_def row_ok_written)
  ultimately have "r = norm_record r'" using scanRule_written [OF w, of G] by simp
  moreover have "webhook_ok (norm_webhook w)" if "webhook_ok w" for w
    using that by (auto simp: webhook_ok_def norm_webhook_def norm_headers_def distinct_map_sort_key split: option.splits)
  ultimately show ?thesis using w row \<open>rw_id row = i\<close> written_by_fields [OF w]
    by (auto simp: norm_record_def written_by_def)
qed

subsection \<open>What forms and files can hold\<close>

lemma Atoi_range: "Atoi s = Some n \<Longrightarrow> fits_int n"
  by (auto simp: Atoi_def Let_def fits_int_def int64_id split: option.splits if_splits)

lemma form_int_range: "form_int r k lo err = Inr (Some n) \<Longrightarrow> fits_int n \<and> lo \<le> n"
  by (auto simp: form_int_def Let_def split: option.splits if_splits dest: Atoi_range)

lemma distinct_map_put: "distinct (map fst m) \<Longrightarrow> distinct (map fst (map_put m k v))"
  by (auto simp: map_put_def distinct_map_filter)

lemma header_lines_distinct: "header_lines ls m = Inr h \<Longrightarrow> distinct (map fst m) \<Longrightarrow> distinct (map fst h)"
  by (induction ls m rule: header_lines.induct)
    (auto simp: Let_def distinct_map_put split: if_splits option.splits prod.splits)

lemma form_webhook_ok:
  assumes "form_webhook W r url = Inr w"
  shows "webhook_ok w"
proof -
  obtain headers p1 p2 p3 p4 e1 e2 e3 e4 where
    "form_headers r = Inr headers" "form_int r ''wh_timeout'' 0 e1 = Inr p1" "form_int r ''wh_max_retries'' 0 e2 = Inr p2"
    "form_int r ''wh_initial_wait'' 1 e3 = Inr p3" "form_int r ''wh_max_wait'' 1 e4 = Inr p4"
    "wh_Headers w = headers" "wh_Timeout w = p1" "wh_MaxRetries w = p2" "wh_InitialWait w = p3" "wh_MaxWait w = p4"
    using assms by (auto simp: form_webhook_def Let_def split: option.splits sum.splits if_splits)
  moreover have "case headers of None \<Rightarrow> True | Some h \<Rightarrow> distinct (map fst h)" if "form_headers r = Inr headers" for headers
    using that header_lines_distinct [of _ "[]"]
    by (auto simp: form_headers_def Let_def split: if_splits sum.splits)
  ultimately show ?thesis
    by (auto simp: webhook_ok_def split: option.splits dest: form_int_range)
qed

lemma parseRuleForm_ok: "parseRuleForm W r = Inr rule \<Longrightarrow> webhook_ok (rr_Webhook rule) \<and> Validate W rule = None"
  using form_webhook_ok [of W r] by (auto simp: parseRuleForm_def Let_def split: if_splits sum.splits option.splits)

text \<open>What every field decoder keeps, a decoded struct has.\<close>

lemma find_field_mem: "find_field G fs k = Some f \<Longrightarrow> f \<in> set fs"
  by (auto simp: find_field_def find_Some_iff split: option.splits)

lemma dec_fields_inv:
  assumes "\<And>f j x y. f \<in> set fs \<Longrightarrow> P x \<Longrightarrow> snd f j x = Some y \<Longrightarrow> P y"
  shows "P x \<Longrightarrow> dec_fields G st fs kvs x = Some y \<Longrightarrow> P y"
proof (induction kvs arbitrary: x)
  case (Cons kv kvs)
  obtain k j where kv: "kv = (k, j)" by force
  show ?case
  proof (cases "find_field G fs k")
    case None
    with Cons show ?thesis by (auto simp: kv split: if_splits)
  next
    case (Some f)
    then have "f \<in> set fs" by (rule find_field_mem)
    with Some Cons assms [of f x j] show ?thesis
      by (cases f) (auto simp: kv split: option.splits)
  qed
qed simp

lemma dec_struct_inv:
  assumes "\<And>f j x y. f \<in> set fs \<Longrightarrow> P x \<Longrightarrow> snd f j x = Some y \<Longrightarrow> P y"
    and "P x" "dec_struct G st fs j x = Some y"
  shows "P y"
proof -
  have "P y" if "dec_fields G st fs kvs x = Some y" for kvs
    using that by (rule dec_fields_inv [where P = P, rotated 2]) (rule assms, assumption+, rule assms(2))
  with assms(2,3) show ?thesis by (auto simp: dec_struct_def split: json.splits)
qed

lemma dec_entries_distinct: "dec_entries kvs m = Some h \<Longrightarrow> distinct (map fst m) \<Longrightarrow> distinct (map fst h)"
  by (induction kvs m rule: dec_entries.induct) (auto split: json.splits simp: distinct_map_filter)

lemma dec_string_cases: "dec_string u j x = Some y \<Longrightarrow> y = x \<or> (\<exists>s. y = u s x)"
  by (auto simp: dec_string_def split: json.splits)

lemma dec_int_ptr_cases: "dec_int_ptr u j x = Some y \<Longrightarrow> y = x \<or> y = u None x \<or> (\<exists>n. fits_int n \<and> y = u (Some n) x)"
  by (auto simp: dec_int_ptr_def dec_int_def split: json.splits if_splits)

lemma dec_bool_ptr_cases: "dec_bool_ptr u j x = Some y \<Longrightarrow> y = x \<or> (\<exists>p. y = u p x)"
  by (auto simp: dec_bool_ptr_def dec_bool_def split: json.splits)

lemma dec_headers_cases:
  assumes "dec_headers j w = Some w'" "webhook_ok w"
  shows "\<exists>h. w' = w\<lparr>wh_Headers := h\<rparr> \<and> (case h of None \<Rightarrow> True | Some kvs \<Rightarrow> distinct (map fst kvs))"
proof (cases j)
  case (JObj kvs)
  with assms(1) obtain h where "dec_entries kvs (case wh_Headers w of None \<Rightarrow> [] | Some m \<Rightarrow> m) = Some h"
    "w' = w\<lparr>wh_Headers := Some h\<rparr>" by (auto simp: dec_headers_def)
  moreover have "distinct (map fst (case wh_Headers w of None \<Rightarrow> [] | Some m \<Rightarrow> m))"
    using assms(2) by (auto simp: webhook_ok_def split: option.splits)
  ultimately show ?thesis by (auto dest: dec_entries_distinct intro!: exI [of _ "Some h"])
next
  case JNull
  with assms(1) show ?thesis by (auto simp: dec_headers_def intro: exI [of _ None])
qed (use assms(1) in \<open>simp_all add: dec_headers_def\<close>)

lemma webhook_ok_update:
  "webhook_ok w \<Longrightarrow> webhook_ok (w\<lparr>wh_SigningSecret := s\<rparr>)" "webhook_ok w \<Longrightarrow> webhook_ok (w\<lparr>wh_URL := s\<rparr>)"
  "webhook_ok w \<Longrightarrow> webhook_ok (w\<lparr>wh_Method := s\<rparr>)" "webhook_ok w \<Longrightarrow> webhook_ok (w\<lparr>wh_PayloadTemplate := s\<rparr>)"
  "webhook_ok w \<Longrightarrow> webhook_ok (w\<lparr>wh_RetryOnTimeout := b\<rparr>)"
  "webhook_ok w \<Longrightarrow> (case h of None \<Rightarrow> True | Some kvs \<Rightarrow> distinct (map fst kvs)) \<Longrightarrow> webhook_ok (w\<lparr>wh_Headers := h\<rparr>)"
  "webhook_ok w \<Longrightarrow> webhook_ok (w\<lparr>wh_Timeout := None\<rparr>)" "webhook_ok w \<Longrightarrow> webhook_ok (w\<lparr>wh_MaxRetries := None\<rparr>)"
  "webhook_ok w \<Longrightarrow> webhook_ok (w\<lparr>wh_InitialWait := None\<rparr>)" "webhook_ok w \<Longrightarrow> webhook_ok (w\<lparr>wh_MaxWait := None\<rparr>)"
  "webhook_ok w \<Longrightarrow> fits_int n \<Longrightarrow> webhook_ok (w\<lparr>wh_Timeout := Some n\<rparr>)"
  "webhook_ok w \<Longrightarrow> fits_int n \<Longrightarrow> webhook_ok (w\<lparr>wh_MaxRetries := Some n\<rparr>)"
  "webhook_ok w \<Longrightarrow> fits_int n \<Longrightarrow> webhook_ok (w\<lparr>wh_InitialWait := Some n\<rparr>)"
  "webhook_ok w \<Longrightarrow> fits_int n \<Longrightarrow> webhook_ok (w\<lparr>wh_MaxWait := Some n\<rparr>)"
  by (simp_all add: webhook_ok_def)

lemma webhook_fields_ok:
  assumes "f \<in> set webhook_fields" "webhook_ok w" "snd f j w = Some w'"
  shows "webhook_ok w'"
  using assms(1,3) unfolding webhook_fields_def
  by (auto dest!: dec_string_cases dec_int_ptr_cases dec_bool_ptr_cases dec_headers_cases [OF _ assms(2)]
      intro: webhook_ok_update [OF assms(2)] assms(2))

lemma zero_webhook_ok [simp]: "webhook_ok zero_webhook"
  by (simp add: webhook_ok_def zero_webhook_def)

lemma webhook_of_json_ok: "webhook_of_json G st j w = Some w' \<Longrightarrow> webhook_ok w \<Longrightarrow> webhook_ok w'"
  unfolding webhook_of_json_def by (rule dec_struct_inv [where P = webhook_ok, OF webhook_fields_ok])

text \<open>What a decoded rule keeps within the machine types: its position and its webhook.\<close>

lemma transfer_of_json_ok:
  assumes "transfer_of_json G st j = Some r"
  shows "transfer_ok r"
proof -
  have "transfer_ok r2" if "f \<in> set (transfer_fields G st)" "transfer_ok r1" "snd f j r1 = Some r2" for f j r1 r2
    using that
    by (auto simp: transfer_fields_def transfer_ok_def dec_string_def dec_bool_def dec_int_def webhook_of_json_ok
        split: json.splits if_splits)
  moreover have "transfer_ok zero_transfer" by (simp add: transfer_ok_def zero_transfer_def fits_int_def int64_id)
  ultimately show ?thesis
    using dec_struct_inv [of "transfer_fields G st" transfer_ok] assms unfolding transfer_of_json_def by blast
qed

lemma dec_all_inv: "dec_all d js = Some xs \<Longrightarrow> (\<And>j x. d j = Some x \<Longrightarrow> P x) \<Longrightarrow> \<forall>x\<in>set xs. P x"
  by (induction js arbitrary: xs) (auto split: option.splits)

lemma file_of_json_ok:
  assumes "file_of_json G j = Some f" "rf_Rules f = Some items"
  shows "\<forall>i\<in>set items. transfer_ok i"
proof -
  define P :: "RulesFile \<Rightarrow> bool" where "P f = (case rf_Rules f of None \<Rightarrow> True | Some items \<Rightarrow> \<forall>i\<in>set items. transfer_ok i)" for f
  have "P f2" if "fd \<in> set (file_fields G)" "P f1" "snd fd j f1 = Some f2" for fd j f1 f2
    using that dec_all_inv [of "transfer_of_json G True" _ _ transfer_ok] transfer_of_json_ok [of G True]
    by (auto simp: file_fields_def P_def dec_int_def dec_string_def dec_list_def split: json.splits if_splits option.splits)
  moreover have "P \<lparr>rf_Version = 0, rf_Sensitive = [], rf_Rules = None\<rparr>" by (simp add: P_def)
  ultimately have "P f"
    using dec_struct_inv [of "file_fields G" P] assms(1) unfolding file_of_json_def by blast
  with assms(2) show ?thesis by (simp add: P_def)
qed

lemma Decode_ok: "Decode F data = Inr items \<Longrightarrow> (\<forall>i\<in>set items. transfer_ok i) \<and> ValidateImport F items = None"
  by (auto simp: Decode_def file_of_json_ok split: list.splits sum.splits option.splits if_splits)

subsection \<open>The engine follows the table\<close>

lemma reload_ok:
  assumes "rows_ok rows"
  shows "\<exists>rs. list_all2 written_by rs (enabled_rows rows)
    \<and> (\<forall>e. reloadRules G rows e = (None, \<lparr>eng_rules = map (\<lambda>r. ToRule (norm_record r)) rs\<rparr>))"
proof -
  have "\<forall>row\<in>set (enabled_rows rows). \<exists>r. written_by r row"
    using assms by (auto simp: rows_ok_def row_ok_written enabled_rows_def)
  then obtain f where "\<forall>row\<in>set (enabled_rows rows). written_by (f row) row" by metis
  then have w: "list_all2 written_by (map f (enabled_rows rows)) (enabled_rows rows)"
    by (simp add: list_all2_map1 list_all2_same)
  have "reloadRules G rows e = (None, \<lparr>eng_rules = map (\<lambda>r. ToRule (norm_record r)) (map f (enabled_rows rows))\<rparr>)" for e
    using scan_rows_written [OF w, of G] by (simp add: reloadRules_def ListEnabledRules_def SetRules_def comp_def)
  with w show ?thesis by blast
qed

lemma SigningSecret_disabled:
  assumes "rows_ok rows" "n \<notin> rw_name ` {row \<in> set rows. rw_enabled row = 1}"
  shows "SigningSecret (snd (reloadRules G rows e)) n = ([], False)"
proof -
  from reload_ok [OF assms(1), of G] obtain rs where rs: "list_all2 written_by rs (enabled_rows rows)"
    "\<And>e. reloadRules G rows e = (None, \<lparr>eng_rules = map (\<lambda>r. ToRule (norm_record r)) rs\<rparr>)" by blast
  have "n \<notin> rw_name ` set (enabled_rows rows)" using assms(2) by (auto simp: enabled_rows_def)
  with rs(1) have "n \<notin> rr_Name ` set rs"
    by (induction rule: list_all2_induct) (auto dest: written_by_fields)
  then have "find_secret (map (\<lambda>r. ToRule (norm_record r)) rs) n = ([], False)"
    by (induction rs) (auto simp: ToRule_def norm_record_def)
  with rs(2) show ?thesis by (simp add: SigningSecret_def)
qed

definition engine_current :: "'z golib_scheme \<Rightarrow> ui \<Rightarrow> bool" where
  "engine_current G s \<longleftrightarrow> (\<forall>e. reloadRules G (ui_rules s) e = (None, ui_engine s))"

lemma engine_current_reload: "rows_ok (ui_rules s) \<Longrightarrow> engine_current G (ui_reload G s)"
  using reload_ok [of "ui_rules s" G] by (auto simp: engine_current_def ui_reload_def)

definition rules_inv_ui :: "'z golib_scheme \<Rightarrow> ui \<Rightarrow> bool" where
  "rules_inv_ui G s \<longleftrightarrow> rows_ok (ui_rules s) \<and> engine_current G s"

lemma rules_inv_reload: "rows_ok rows \<Longrightarrow> rules_inv_ui G (ui_reload G (s\<lparr>ui_rules := rows\<rparr>))"
  using engine_current_reload [of "s\<lparr>ui_rules := rows\<rparr>" G] by (simp add: rules_inv_ui_def ui_reload_def)

datatype rules_call =
  CallCreate "nat \<Rightarrow> string" int ui_req
| CallUpdate int ui_req
| CallToggle int ui_req
| CallDeleteRule ui_req
| CallImport "nat \<Rightarrow> string" "nat \<Rightarrow> int" ui_req

fun handle_rules :: "'z filelib_scheme \<Rightarrow> rules_call \<Rightarrow> ui \<Rightarrow> page \<times> ui" where
  "handle_rules F (CallCreate uuid now r) s = handleRuleCreate F uuid now r s"
| "handle_rules F (CallUpdate now r) s = handleRuleUpdate F now r s"
| "handle_rules F (CallToggle now r) s = handleRuleToggle F now r s"
| "handle_rules F (CallDeleteRule r) s = handleRuleDelete F r s"
| "handle_rules F (CallImport uuid now r) s = handleRulesImport F uuid now r s"

lemma rules_inv_uiI:
  "rules_inv_ui G s \<Longrightarrow> (\<And>rows. x = Inr rows \<Longrightarrow> rows_ok rows) \<Longrightarrow>
   rules_inv_ui G (snd (case x of Inl e \<Rightarrow> (f e, s) | Inr rows \<Rightarrow> (a, ui_reload G (s\<lparr>ui_rules := rows\<rparr>))))"
  by (cases x) (simp_all add: rules_inv_reload)

lemma create_inv:
  assumes "rules_inv_ui F s"
  shows "rules_inv_ui F (snd (handleRuleCreate F uuid now r s))"
proof (cases "parseRuleForm F r")
  case (Inr rule)
  then have "webhook_ok (rr_Webhook rule)" by (simp add: parseRuleForm_ok)
  moreover have "rows_ok (ui_rules s)" using assms by (simp add: rules_inv_ui_def)
  ultimately have "rows_ok rows" if "SaveRule uuid now rule' (ui_rules s) = Inr rows" "rr_Webhook rule' = rr_Webhook rule"
    for rule' rows using that rows_ok_SaveRule [of "ui_rules s" rule'] by simp
  then show ?thesis using assms
    by (auto simp: handleRuleCreate_def Inr Let_def intro!: rules_inv_uiI)
qed (use assms in \<open>simp add: handleRuleCreate_def case_prod_beta\<close>)

lemma update_inv:
  assumes "rules_inv_ui F s"
  shows "rules_inv_ui F (snd (handleRuleUpdate F now r s))"
proof (cases "GetRule F (ur_id r) (ui_rules s)")
  case existing: (Inr e)
  show ?thesis
  proof (cases "parseRuleForm F r")
    case (Inr rule)
    then have "webhook_ok (rr_Webhook rule)" by (simp add: parseRuleForm_ok)
    then have "webhook_ok ((rr_Webhook rule)\<lparr>wh_SigningSecret := x\<rparr>)" for x by (rule webhook_ok_update(1))
    moreover have "rows_ok (ui_rules s)" using assms by (simp add: rules_inv_ui_def)
    ultimately have "rows_ok rows" if "UpdateRule now rule' (ui_rules s) = Inr rows"
        "rr_Webhook rule' = (rr_Webhook rule)\<lparr>wh_SigningSecret := x\<rparr>" for rule' x rows
      using that rows_ok_UpdateRule [of "ui_rules s" rule'] by simp
    then show ?thesis using assms
      by (auto simp: handleRuleUpdate_def existing Inr Let_def intro!: rules_inv_uiI)
  qed (use assms existing in \<open>simp add: handleRuleUpdate_def case_prod_beta\<close>)
qed (use assms in \<open>simp add: handleRuleUpdate_def\<close>)

lemma toggle_inv:
  assumes "rules_inv_ui G s"
  shows "rules_inv_ui G (snd (handleRuleToggle G now r s))"
proof (cases "GetRule G (ur_id r) (ui_rules s)")
  case (Inr e)
  moreover have "rows_ok (ui_rules s)" using assms by (simp add: rules_inv_ui_def)
  ultimately have "rows_ok rows" if "UpdateRule now (e\<lparr>rr_Enabled := b\<rparr>) (ui_rules s) = Inr rows" for b rows
    using that GetRule_ok [of "ui_rules s" G "ur_id r" e] rows_ok_UpdateRule [of "ui_rules s" "e\<lparr>rr_Enabled := b\<rparr>"] by simp
  with Inr show ?thesis using assms
    by (auto simp: handleRuleToggle_def intro!: rules_inv_uiI)
qed (use assms in \<open>simp add: handleRuleToggle_def\<close>)

lemma delete_inv: "rules_inv_ui G s \<Longrightarrow> rules_inv_ui G (snd (handleRuleDelete G r s))"
  by (simp add: handleRuleDelete_def rules_inv_reload rules_inv_ui_def rows_ok_DeleteRule
      rules_inv_reload [unfolded rules_inv_ui_def])

lemma import_inv:
  assumes "rules_inv_ui F s"
  shows "rules_inv_ui F (snd (handleRulesImport F uuid now r s))"
proof -
  have same: "ImportRules uuid now items replace rows = (Some e, rows') \<Longrightarrow> rows' = rows"
    for items replace rows rows' e by (auto simp: ImportRules_def split: sum.splits)
  have "rules_inv_ui F (s\<lparr>ui_rules := rows, ui_engine := eng\<rparr>)"
    if "Decode F data = Inr items" "ImportRules uuid now items replace (ui_rules s) = (None, rows)"
      "reloadRules F rows (ui_engine s) = (err, eng)" for data items replace rows err eng
  proof -
    have "rows_ok (ui_rules s)" "\<forall>i\<in>set items. webhook_ok (tr_Webhook i)"
      using assms Decode_ok [OF that(1)] by (auto simp: rules_inv_ui_def transfer_ok_def)
    then have "rows_ok rows" using rows_ok_ImportRules [of "ui_rules s" items uuid now replace] that(2) by simp
    then have "rules_inv_ui F (ui_reload F (s\<lparr>ui_rules := rows\<rparr>))" by (rule rules_inv_reload)
    with that(3) show ?thesis by (simp add: ui_reload_def)
  qed
  with assms show ?thesis
    by (auto simp: handleRulesImport_def Let_def split: option.splits sum.splits prod.splits dest: same)
qed

lemma handle_rules_inv: "rules_inv_ui F s \<Longrightarrow> rules_inv_ui F (snd (handle_rules F c s))"
  by (cases c) (simp_all add: create_inv update_inv toggle_inv delete_inv import_inv)


definition demo_file :: "json \<Rightarrow> filelib" where
  "demo_file j = weblib.extend demo_web
     \<lparr>yaml_stream = (\<lambda>_. [Inr (Some j)]), yaml_text = (\<lambda>_. Inr ''yaml''), json_indent = (\<lambda>_. ''json'')\<rparr>"

definition demo_ui_req :: "string \<Rightarrow> ui_req" where
  "demo_ui_req i = \<lparr>ur_parse_ok = True, ur_form = (\<lambda>_. []), ur_query = (\<lambda>k. if k = ''mode'' then ''merge'' else []),
     ur_id = i, ur_index = ''0'', ur_hx = True, ur_body = Some ''x''\<rparr>"

definition demo_app :: AppConfig where
  "demo_app = \<lparr>cfg_LogLevel = ''info'', cfg_SMTP = sv_cfg demo_server, cfg_Auth = sv_authCfg demo_server,
     cfg_HTTP = \<lparr>hc_Addr = '':80'', hc_Auth = \<lparr>ha_Enabled = False, ha_Providers = [], ha_AllowedEmailDomains = [],
       ha_CookieName = [], ha_CookieSecure = None, ha_CookieDomain = [], ha_CookieSameSite = [], ha_SessionTTL = 0,
       ha_SessionSecret = [], ha_RedirectURL = []\<rparr>, hc_ProtectMetrics = False\<rparr>, cfg_Retry = demo_retry,
     cfg_Webhook = \<lparr>wp_Workers = 4, wp_ShutdownTimeout = 30, wp_AllowPrivateNetworks = False\<rparr>,
     cfg_WebUI = \<lparr>wu_Enabled = True, wu_DBPath = ''db'', wu_RetentionDays = 7, wu_RawEmailDir = ''raw''\<rparr>\<rparr>"

definition demo_rows :: rules_table where
  "demo_rows = [demo_row_of (demo_written ''i1'' ''alerts'' True), demo_row_of (demo_written ''i2'' ''b'' True)]"

definition demo_ui :: ui where
  "demo_ui = \<lparr>ui_db = empty_db, ui_rules = demo_rows, ui_settings = None, ui_files = Map.empty, ui_rawEmailDir = ''raw'',
     ui_engine = \<lparr>eng_rules = [ToRule (demo_written ''i1'' ''alerts'' True), ToRule (demo_written ''i2'' ''b'' True)]\<rparr>,
     ui_config = demo_app, ui_logLevel = ''INFO'', ui_authCfg = cfg_Auth demo_app, ui_retry = demo_retry,
     ui_retentionDays = 7, ui_notified = 0\<rparr>"

lemma demo_written_ok: "written_by (demo_written i n b) (demo_row_of (demo_written i n b))"
  by (simp add: written_by_def demo_row_of_def demo_written_def webhook_ok_update)

lemma demo_rows_ok: "rows_ok demo_rows"
  using demo_written_ok
  by (auto simp: rows_ok_def row_ok_written rules_inv_def demo_rows_def demo_row_of_def demo_written_def)

lemma norm_demo_written [simp]: "norm_record (demo_written i n b) = demo_written i n b"
  by (simp add: norm_record_def norm_webhook_def norm_headers_def demo_written_def zero_webhook_def)

lemma demo_engine_current: "engine_current G demo_ui"
proof -
  have "enabled_rows demo_rows = demo_rows"
    by (simp add: enabled_rows_def demo_rows_def demo_row_of_def demo_written_def boolToInt_def)
  moreover have "scan_rows G demo_rows = Inr [demo_written ''i1'' ''alerts'' True, demo_written ''i2'' ''b'' True]"
    using scanRule_written [OF demo_written_ok, of G] by (simp add: demo_rows_def)
  ultimately show ?thesis
    by (simp add: engine_current_def demo_ui_def reloadRules_def ListEnabledRules_def SetRules_def)
qed




subsection \<open>The import preview\<close>

lemma map_of_rev_distinct:
  assumes "distinct (map fst xs)"
  shows "map_of (rev xs) = map_of xs"
proof
  fix k
  show "map_of (rev xs) k = map_of xs k"
  proof (cases "map_of xs k")
    case None
    then have "map_of (rev xs) k = None" unfolding map_of_eq_None_iff by simp
    with None show ?thesis by simp
  next
    case (Some v)
    then have "(k, v) \<in> set (rev xs)" by (simp add: map_of_SomeD)
    with assms Some show ?thesis by (simp add: rev_map [symmetric] map_of_eq_Some_iff)
  qed
qed

lemma existing_rules_map:
  "distinct (map rr_Name rs) \<Longrightarrow> existing_rules rs = map_of (map (\<lambda>r. (rr_Name r, Portable r)) rs)"
proof -
  have "foldl (\<lambda>m r. m(rr_Name r \<mapsto> Portable r)) m rs = m ++ map_of (rev (map (\<lambda>r. (rr_Name r, Portable r)) rs))" for m
    by (induction rs arbitrary: m) simp_all
  moreover assume "distinct (map rr_Name rs)"
  ultimately show ?thesis by (simp add: existing_rules_def map_of_rev_distinct comp_def)
qed

lemma import_changes_distinct:
  "distinct (map tr_Name items) \<Longrightarrow>
   import_changes ex items = (map (import_change ex) items, (\<lambda>n. if n \<in> tr_Name ` set items then None else ex n))"
proof (induction items arbitrary: ex)
  case (Cons item items)
  have "map (import_change (ex(tr_Name item := None))) items = map (import_change ex) items"
  proof (rule map_cong [OF refl])
    fix i assume "i \<in> set items"
    then have "tr_Name i \<in> tr_Name ` set items" by simp
    with Cons.prems have "tr_Name i \<noteq> tr_Name item" by auto
    then show "import_change (ex(tr_Name item := None)) i = import_change ex i" by (simp add: import_change_def)
  qed
  with Cons show ?case by (auto simp: fun_eq_iff)
qed simp

lemma webhook_equal_json:
  assumes "webhook_equal v w"
  shows "webhook_json v = webhook_json w"
proof -
  have "headers_json (wh_Headers v) = headers_json (wh_Headers w)"
    using assms by (auto simp: webhook_equal_def headers_equal_def headers_json_def split: option.splits)
  with assms show ?thesis by (cases v; cases w) (simp add: webhook_equal_def webhook_json_def)
qed

lemma webhook_json_equal:
  assumes "webhook_ok v" "webhook_ok w" "webhook_json v = webhook_json w" "wh_Headers w \<noteq> Some []"
  shows "webhook_equal (norm_webhook v) w"
proof -
  have n: "norm_webhook v = norm_webhook w" using assms webhooks.enc_inj by blast
  have "headers_equal (norm_headers (wh_Headers w)) (wh_Headers w)"
    using assms(4) by (auto simp: headers_equal_def norm_headers_def split: option.splits)
  then show ?thesis unfolding n by (simp add: webhook_equal_def norm_webhook_def)
qed

lemma ListRules_written:
  assumes "rows_ok rows"
  obtains f where "\<And>row. row \<in> set rows \<Longrightarrow> written_by (f row) row"
    "ListRules G rows = Inr (map (\<lambda>row. norm_record (f row))
       (sort_key (\<lambda>r. - rw_position r) (sort_key (\<lambda>r. - rw_created_at r) rows)))"
proof -
  obtain f where f: "\<And>row. row \<in> set rows \<Longrightarrow> written_by (f row) row"
    using assms by (metis rows_ok_def row_ok_written)
  let ?s = "sort_key (\<lambda>r. - rw_position r) (sort_key (\<lambda>r. - rw_created_at r) rows)"
  have "list_all2 written_by (map f ?s) ?s" using f by (simp add: list_all2_map1 list_all2_same)
  from scan_rows_written [OF this, of G] have "ListRules G rows = Inr (map (\<lambda>row. norm_record (f row)) ?s)"
    by (simp add: ListRules_def comp_def)
  with f show thesis by (rule that)
qed

lemma existing_row:
  assumes "rows_ok rows" "ListRules G rows = Inr records"
  shows "case row_of rw_name rows n of None \<Rightarrow> existing_rules records n = None
    | Some row \<Rightarrow> \<exists>r. written_by r row \<and> existing_rules records n = Some (Portable (norm_record r))"
proof -
  let ?s = "sort_key (\<lambda>r. - rw_position r) (sort_key (\<lambda>r. - rw_created_at r) rows)"
  obtain f where f: "\<And>row. row \<in> set rows \<Longrightarrow> written_by (f row) row"
    and records: "records = map (\<lambda>row. norm_record (f row)) ?s"
    using ListRules_written [OF assms(1), of G] assms(2) by (metis sum.inject(2))
  have name: "rr_Name (norm_record (f row)) = rw_name row" if "row \<in> set rows" for row
    using written_by_fields [OF f [OF that]] by (simp add: norm_record_def)
  have names: "map rr_Name records = map rw_name ?s" using name by (simp add: records)
  have "distinct (map rr_Name records)"
    unfolding names using assms(1) by (simp add: rows_ok_def rules_inv_def key_distinct_def distinct_map_sort_key)
  then have ex: "existing_rules records = map_of (map (\<lambda>r. (rr_Name r, Portable r)) records)"
    by (rule existing_rules_map)
  show ?thesis
  proof (cases "row_of rw_name rows n")
    case None
    then have "n \<notin> rw_name ` set rows" by (simp add: row_of_None_iff)
    then have "n \<notin> rr_Name ` set records" using name by (auto simp: records)
    with None show ?thesis by (auto simp: ex map_of_eq_None_iff image_image)
  next
    case (Some row)
    then have row: "row \<in> set rows" "rw_name row = n"
      using assms(1) by (auto simp: rows_ok_def rules_inv_def row_of_Some_iff)
    then have "(n, Portable (norm_record (f row))) \<in> set (map (\<lambda>r. (rr_Name r, Portable r)) records)"
      using name by (force simp: records)
    then have "existing_rules records n = Some (Portable (norm_record (f row)))"
      unfolding ex using \<open>distinct (map rr_Name records)\<close> by (simp add: map_of_eq_Some_iff comp_def)
    with Some f row(1) show ?thesis by auto
  qed
qed

text \<open>A rule of the file against the row of its name, which is read back as \<open>norm_record r\<close>.\<close>

lemma change_of_row:
  assumes "written_by r row" "webhook_ok (tr_Webhook item)" "ex (tr_Name item) = Some (Portable (norm_record r))"
  shows "ic_Action (import_change ex item) = ''unchanged'' \<and> \<not> upsert_differs item row
    \<or> ic_Action (import_change ex item) = ''updated'' \<and> (upsert_differs item row
        \<or> wh_Headers (tr_Webhook item) = Some [] \<and> ic_Fields (import_change ex item) = [''webhook''])"
proof -
  define old where "old = Portable (norm_record r)"
  have wh: "tr_Webhook old = norm_webhook (rr_Webhook r)" by (simp add: old_def Portable_def norm_record_def)
  have eqs: "rw_enabled row = boolToInt (tr_Enabled old)" "rw_position row = tr_Position old"
    "rw_match row = match_json (tr_Match old)" "rw_webhook row = webhook_json (tr_Webhook old)"
    using assms(1) by (auto simp: written_by_def old_def Portable_def norm_record_def webhooks.norm_enc)
  have differs: "upsert_differs item row \<longleftrightarrow> tr_Enabled old \<noteq> tr_Enabled item \<or> tr_Position old \<noteq> tr_Position item
      \<or> match_json (tr_Match old) \<noteq> match_json (tr_Match item)
      \<or> webhook_json (tr_Webhook old) \<noteq> webhook_json (tr_Webhook item)"
    by (auto simp: upsert_differs_def eqs boolToInt_def)
  have web: "webhook_json (tr_Webhook old) = webhook_json (tr_Webhook item) \<Longrightarrow>
      webhook_equal (tr_Webhook old) (tr_Webhook item) \<or> wh_Headers (tr_Webhook item) = Some []"
    using webhook_json_equal [OF _ assms(2), of "rr_Webhook r"] assms(1)
    by (auto simp: wh webhooks.norm_enc written_by_def)
  have act: "ic_Action (import_change ex item) = (if changed_fields old item = [] then ''unchanged'' else ''updated'')"
    "ic_Fields (import_change ex item) = changed_fields old item"
    using assms(3) by (simp_all add: import_change_def Let_def old_def)
  show ?thesis
  proof (cases "upsert_differs item row")
    case True
    then have "changed_fields old item \<noteq> []"
      using webhook_equal_json by (auto simp: changed_fields_def differs)
    with True act show ?thesis by simp
  next
    case False
    then have "changed_fields old item = (if webhook_equal (tr_Webhook old) (tr_Webhook item) then [] else [''webhook''])"
      by (simp add: changed_fields_def differs)
    with False act web differs show ?thesis by auto
  qed
qed

lemma ListRules_names:
  assumes "rows_ok rows" "ListRules G rows = Inr records"
  shows "rr_Name ` set records = rw_name ` set rows"
proof -
  obtain f where f: "\<And>row. row \<in> set rows \<Longrightarrow> written_by (f row) row"
    "records = map (\<lambda>row. norm_record (f row)) (sort_key (\<lambda>r. - rw_position r) (sort_key (\<lambda>r. - rw_created_at r) rows))"
    using ListRules_written [OF assms(1), of G] assms(2) by (metis sum.inject(2))
  then have "rr_Name (norm_record (f row)) = rw_name row" if "row \<in> set rows" for row
    using written_by_fields [OF f(1) [OF that]] by (simp add: norm_record_def)
  then show ?thesis by (auto simp: f(2) image_image)
qed


definition demo_new :: TransferRule where
  "demo_new = zero_transfer\<lparr>tr_Name := ''c'', tr_Webhook := zero_webhook\<lparr>wh_URL := ''https://c.test'', wh_Method := ''POST''\<rparr>\<rparr>"

definition demo_import :: filelib where
  "demo_import = demo_file (file_json \<lparr>rf_Version = 1, rf_Sensitive = [], rf_Rules = Some [demo_new]\<rparr>)"

lemma demo_Decode: "Decode demo_import ''x'' = Inr [demo_new]"
  by code_simp


end
