(* ===== verification/WebUiMail.thy ===== *)
theory WebUiMail
  imports WebUiProps WorkerProps
begin

section \<open>The web UI on emails and settings\<close>

text \<open>
  Every handler that changes emails is, on the tables, a run of steps the queue model allows to the rest
  of the program, so its invariant carries over. Deleting removes exactly one email with its file,
  attachments come back byte for byte, and saved settings are the ones a restart puts in force.
\<close>

subsection \<open>Handlers as steps of the queue\<close>

definition db_steps :: "weblib \<Rightarrow> queue_state \<Rightarrow> queue_state \<Rightarrow> bool" where
  "db_steps W q q' \<longleftrightarrow> (step W)\<^sup>*\<^sup>* q q' \<and> q' = q\<lparr>qs_db := qs_db q'\<rparr>"

lemma db_steps_refl [simp]: "db_steps W q q"
  by (simp add: db_steps_def)

lemma db_steps_trans: "db_steps W q q' \<Longrightarrow> db_steps W q' q'' \<Longrightarrow> db_steps W q q''"
  unfolding db_steps_def
  by (metis (no_types, lifting) queue_state.surjective queue_state.update_convs(1) rtranclp_trans)

lemma db_steps_external: "external W q db \<Longrightarrow> db_steps W q (q\<lparr>qs_db := db\<rparr>)"
  by (auto simp: db_steps_def intro: step_external)

lemma db_steps_reachable: "reachable W q \<Longrightarrow> db_steps W q q' \<Longrightarrow> reachable W q'"
proof -
  have "(step W)\<^sup>*\<^sup>* q q' \<Longrightarrow> reachable W q \<Longrightarrow> reachable W q'"
    by (induction rule: rtranclp_induct) (auto intro: reach_step)
  then show "reachable W q \<Longrightarrow> db_steps W q q' \<Longrightarrow> reachable W q'" by (simp add: db_steps_def)
qed

lemma held_ids_db [simp]: "held_ids (q\<lparr>qs_db := db\<rparr>) = held_ids q"
  by (simp add: held_ids_def)

datatype mail_call =
  CallReplay "nat \<Rightarrow> string" int ui_req
| CallDeleteEmail ui_req
| CallDeleteAll

fun handle_mail :: "'z weblib_scheme \<Rightarrow> 'm maillib_scheme \<Rightarrow> mail_call \<Rightarrow> ui \<Rightarrow> page \<times> ui" where
  "handle_mail W M (CallReplay uuid now r) s = handleReplay W M uuid now r s"
| "handle_mail W M (CallDeleteEmail r) s = handleDelete r s"
| "handle_mail W M CallDeleteAll s = handleDeleteAll s"

text \<open>The identifiers a call may draw are none of those the workers hold.\<close>

fun fresh_call :: "queue_state \<Rightarrow> mail_call \<Rightarrow> bool" where
  "fresh_call q (CallReplay uuid now r) = (\<forall>n. uuid ` {1..n} \<inter> held_ids q = {})"
| "fresh_call q _ = True"

lemma removeRawEmail_db [simp]: "ui_db (removeRawEmail i s) = ui_db s" "ui_rawEmailDir (removeRawEmail i s) = ui_rawEmailDir s"
  by (simp_all add: removeRawEmail_def split: option.split)

lemma fold_removeRawEmail_db [simp]: "ui_db (fold removeRawEmail is s) = ui_db s"
  by (induction "is" arbitrary: s) simp_all

lemma ui_notify_db [simp]: "ui_db (ui_notify s) = ui_db s"
  by (simp add: ui_notify_def)

lemma db_steps_same: "qs_db q = db \<Longrightarrow> db_steps W q (q\<lparr>qs_db := db\<rparr>)"
  by (cases q) simp

lemma reparse_steps:
  assumes "qs_db q = ui_db s" "reparseRawEmail M i pe s = (pe', s')"
  shows "db_steps W q (q\<lparr>qs_db := ui_db s'\<rparr>)"
  using assms db_steps_external [OF ext_parse, of W q i pe'] db_steps_same [OF assms(1), of W]
  by (auto simp: reparseRawEmail_def Let_def split: option.splits sum.splits)

lemma replay_steps:
  assumes "qs_db q = ui_db s" "fresh_call q (CallReplay uuid now r)"
  shows "db_steps W q (q\<lparr>qs_db := ui_db (snd (handleReplay W M uuid now r s))\<rparr>)"
proof (cases "GetEmail (ur_id r) (ui_db s)")
  case (Inr email)
  show ?thesis
  proof (cases "er_ParsedEmail email")
    case (Some pe)
    obtain pe' s1 where re: "reparseRawEmail M (ur_id r) pe s = (pe', s1)" by force
    define q1 where "q1 = q\<lparr>qs_db := ui_db s1\<rparr>"
    define rules where "rules = Match W (ui_engine s1) pe'"
    obtain err db where enq: "Enqueue W (ui_retry s1) uuid now (ur_id r) pe' rules (ui_db s1) = (err, db)" by force
    have first: "db_steps W q q1" unfolding q1_def by (rule reparse_steps [OF assms(1) re])
    have "db_steps W q1 (q1\<lparr>qs_db := UpdateEmailStatus (ur_id r) EmailStatusDropped (ui_db s1)\<rparr>)"
      using db_steps_external [OF ext_drop, of W q1 "ur_id r"] by (simp add: q1_def)
    moreover have "db_steps W q1 (q1\<lparr>qs_db := db\<rparr>)" if "rules \<noteq> []"
      using db_steps_external [OF ext_enqueue [OF _ that], of W "ui_retry s1" uuid now "ur_id r" pe' q1 err db] enq assms(2)
      by (simp add: q1_def)
    moreover have "ui_db (snd (handleReplay W M uuid now r s)) =
        (if ur_id r = [] then ui_db s
         else if rules = [] then UpdateEmailStatus (ur_id r) EmailStatusDropped (ui_db s1) else db)"
      using enq by (cases err) (simp_all add: handleReplay_def Inr Some re Let_def rules_def)
    ultimately show ?thesis
      using db_steps_trans [OF first] db_steps_same [OF assms(1), of W] by (simp add: q1_def)
  qed (simp add: handleReplay_def Inr db_steps_same assms(1))
qed (simp add: handleReplay_def db_steps_same assms(1))

lemma mail_steps:
  assumes "qs_db q = ui_db s" "fresh_call q c"
  shows "db_steps W q (q\<lparr>qs_db := ui_db (snd (handle_mail W M c s))\<rparr>)"
proof (cases c)
  case (CallReplay uuid now r)
  with assms replay_steps [of q s uuid now r W M] show ?thesis by simp
next
  case (CallDeleteEmail r)
  have "db_steps W q (q\<lparr>qs_db := ui_db s\<rparr>)" using assms(1) by (cases q) simp
  with CallDeleteEmail assms(1) db_steps_external [OF ext_delete, of W q "ur_id r"] show ?thesis
    by (simp add: handleDelete_def)
next
  case CallDeleteAll
  with assms(1) db_steps_external [OF ext_delete_all, of W q] show ?thesis
    by (simp add: handleDeleteAll_def Let_def)
qed

text \<open>
  C23: The web UI refines the queue's view of the rest of the program: whatever a call to replay, delete
  or delete all does to the tables is a run of the queue's own steps with the workers left as they
  are, if the identifiers it draws are new. So every such call keeps the queue's invariant, also
  while workers are in the middle of a delivery of that very email.
\<close>

theorem ui_refines_queue:
  assumes "reachable W q" "qs_db q = ui_db s" "fresh_call q c"
  shows "\<exists>q'. (step W)\<^sup>*\<^sup>* q q' \<and> qs_db q' = ui_db (snd (handle_mail W M c s)) \<and> qs_workers q' = qs_workers q
    \<and> reachable W q' \<and> queue_inv (ui_db (snd (handle_mail W M c s)))"
proof -
  let ?q = "q\<lparr>qs_db := ui_db (snd (handle_mail W M c s))\<rparr>"
  have steps: "db_steps W q ?q" by (rule mail_steps [OF assms(2,3)])
  with db_steps_reachable [OF assms(1)] have "reachable W ?q" by blast
  then have "queue_inv (qs_db ?q)" using reachable_inv [of W ?q] by (simp add: worker_inv_def)
  with steps \<open>reachable W ?q\<close> show ?thesis by (intro exI [of _ ?q]) (simp add: db_steps_def)
qed

theorem ui_refines_queue_witness:
  "queue_inv (ui_db (snd (handle_mail demo_web demo_mail (CallReplay (\<lambda>k. replicate (k + 5) CHR ''z'') 70
     ((demo_ui_req ''m1'')\<lparr>ur_hx := False\<rparr>)) (demo_ui\<lparr>ui_db := qs_db demo_run\<rparr>))))"
proof -
  have "qd_ID (the (fst demo_claim)) = ''ii''" by code_simp
  then have "held_ids demo_run \<subseteq> {''ii''}"
    by (auto simp: held_ids_def held_def demo_run_def demo_start_def set_phase_def nth_Cons split: if_splits nat.splits)
      (metis gr0_implies_Suc less_irrefl)
  moreover have "replicate (k + 5) CHR ''z'' \<noteq> ''ii''" for k by (auto dest: arg_cong [where f = length])
  ultimately have "fresh_call demo_run (CallReplay (\<lambda>k. replicate (k + 5) CHR ''z'') 70 ((demo_ui_req ''m1'')\<lparr>ur_hx := False\<rparr>))"
    by force
  from ui_refines_queue [OF demo_run_reachable _ this, of "demo_ui\<lparr>ui_db := qs_db demo_run\<rparr>" demo_mail]
  show ?thesis by auto
qed

subsection \<open>Attachments\<close>

lemma digit_char: "n < 10 \<Longrightarrow> 48 \<le> byte_of (char_of (48 + n)) \<and> byte_of (char_of (48 + n)) \<le> 57
    \<and> byte_of (char_of (48 + n)) - 48 = n"
  by simp

lemma digits_value_append:
  "digits_value a (s @ [c]) = Option.bind (digits_value a s)
     (\<lambda>n. if 48 \<le> byte_of c \<and> byte_of c \<le> 57 then Some (10 * n + (byte_of c - 48)) else None)"
  by (induction a s rule: digits_value.induct) (simp_all split: option.split)

lemma digits_value_nat_digits: "digits_value 0 (nat_digits n) = Some n"
proof (induction n rule: nat_digits.induct)
  case (1 n)
  show ?case
  proof (cases "n < 10")
    case True
    then show ?thesis using digit_char [OF True] by (subst nat_digits.simps) simp
  next
    case False
    have "n mod 10 < 10" by simp
    from digit_char [OF this] 1 [OF False] False show ?thesis
      by (subst nat_digits.simps) (simp add: digits_value_append)
  qed
qed

lemma nat_digits_digit: "c \<in> set (nat_digits n) \<Longrightarrow> 48 \<le> byte_of c \<and> byte_of c \<le> 57"
proof (induction n rule: nat_digits.induct)
  case (1 n)
  have d: "48 \<le> byte_of (char_of (48 + n mod 10)) \<and> byte_of (char_of (48 + n mod 10)) \<le> 57" for n :: nat
    using digit_char [of "n mod 10"] by simp
  show ?case
  proof (cases "n < 10")
    case True
    with 1(2) digit_char [OF True] show ?thesis by (simp add: nat_digits.simps [of n])
  next
    case False
    with 1(2) have "c \<in> set (nat_digits (n div 10)) \<or> c = char_of (48 + n mod 10)"
      by (subst (asm) nat_digits.simps) auto
    with 1(1) [OF False] d show ?thesis by auto
  qed
qed

lemma Atoi_FormatInt:
  assumes "0 \<le> n" "n < 2 ^ 63"
  shows "Atoi (FormatInt n) = Some n"
proof -
  let ?d = "nat_digits (nat n)"
  have ne: "?d \<noteq> []" by (subst nat_digits.simps) simp
  have "hd ?d \<noteq> CHR ''-'' \<and> hd ?d \<noteq> CHR ''+''"
    using nat_digits_digit [of "hd ?d" "nat n"] hd_in_set [OF ne] by auto
  then have "\<not> HasPrefix ?d ''-''" "\<not> HasPrefix ?d ''+''"
    using ne by (auto simp: HasPrefix_iff)
  with assms ne show ?thesis
    by (simp add: Atoi_def FormatInt_def digits_value_nat_digits)
qed

lemma b64_digit_text: "b64_digit n \<noteq> CHR 0x0D" "b64_digit n \<noteq> CHR 0x0A"
proof -
  have "byte_of (b64_digit n) \<ge> 43" by (auto simp: b64_digit_def)
  then show "b64_digit n \<noteq> CHR 0x0D" "b64_digit n \<noteq> CHR 0x0A" by auto
qed

lemma b64_encode_no_break: "c \<in> set (b64_encode s) \<Longrightarrow> c \<noteq> CHR 0x0D \<and> c \<noteq> CHR 0x0A"
  by (induction s rule: b64_encode.induct) (auto simp: Let_def b64_digit_text b64_digit_text [symmetric])

lemma DecodeString_encode: "DecodeString (b64_encode s) = Some s"
proof -
  have "filter (\<lambda>c. c \<noteq> CHR 0x0D \<and> c \<noteq> CHR 0x0A) (b64_encode s) = b64_encode s"
    using b64_encode_no_break by (auto simp: filter_id_conv)
  then show ?thesis by (simp add: DecodeString_def b64_roundtrip)
qed


definition demo_mail_row :: email_row where
  "demo_mail_row = \<lparr>em_id = ''m1'', em_received_at = 10, em_envelope_from = ''a@x.test'',
     em_envelope_to = [''b@y.test''], em_header_from = [], em_header_to = [], em_subject = [],
     em_status = EmailStatusReceived, em_rejection_reason = [],
     em_parsed_email = Some (add_attachment [] ''application/pdf'' ''%PDF'' empty_email),
     em_auth_result = None, em_delivery_batch = []\<rparr>"


subsection \<open>Deleting an email\<close>

text \<open>With consistent tables the cascades delete exactly the rows of the email.\<close>

lemma DeleteEmail_rows:
  assumes "store_inv s"
  shows "DeleteEmail i s = s\<lparr>t_emails := filter (\<lambda>e. em_id e \<noteq> i) (t_emails s),
    t_deliveries := filter (\<lambda>d. dl_email_id d \<noteq> i) (t_deliveries s),
    t_queue := filter (\<lambda>q. q_email_id q \<noteq> i) (t_queue s)\<rparr>"
proof -
  let ?gone = "em_id ` {e \<in> set (t_emails s). em_id e = i}"
  let ?gone_d = "dl_id ` {d \<in> set (t_deliveries s). dl_email_id d \<in> ?gone}"
  have email: "j \<in> ?gone \<longleftrightarrow> j = i" if "email_exists s j" for j
    using that by (force simp: email_exists_def list_ex_iff)
  have d: "dl_email_id d \<in> ?gone \<longleftrightarrow> dl_email_id d = i" if "d \<in> set (t_deliveries s)" for d
    using assms that email by (simp add: store_inv_def)
  have q: "q_email_id q \<notin> ?gone \<and> q_delivery_id q \<notin> ?gone_d \<longleftrightarrow> q_email_id q \<noteq> i" if q: "q \<in> set (t_queue s)" for q
  proof -
    obtain d' where d': "d' \<in> set (t_deliveries s)" "dl_id d' = q_delivery_id q" "dl_email_id d' = q_email_id q"
      "\<And>x. x \<in> set (t_deliveries s) \<Longrightarrow> dl_id x = q_delivery_id q \<Longrightarrow> x = d'"
      using store_inv_join [OF assms q] by blast
    have "q_delivery_id q \<in> ?gone_d \<longleftrightarrow> q_email_id q = i"
    proof
      assume "q_delivery_id q \<in> ?gone_d"
      then obtain x where "x \<in> set (t_deliveries s)" "dl_id x = q_delivery_id q" "dl_email_id x \<in> ?gone" by auto
      moreover from this have "dl_email_id x = i" using d [of x] by simp
      ultimately have "dl_email_id x = i" "x = d'" using d'(4) [of x] by simp_all
      with d'(3) show "q_email_id q = i" by simp
    next
      assume "q_email_id q = i"
      with d'(3) d [OF d'(1)] have "dl_email_id d' \<in> ?gone" by simp
      with d'(1) have "dl_id d' \<in> ?gone_d" by blast
      with d'(2) show "q_delivery_id q \<in> ?gone_d" by simp
    qed
    with email [OF store_inv_queue_email [OF assms q]] show ?thesis by blast
  qed
  have "filter (\<lambda>d. dl_email_id d \<notin> ?gone) (t_deliveries s) = filter (\<lambda>d. dl_email_id d \<noteq> i) (t_deliveries s)"
    using d by (intro filter_cong refl) blast
  moreover have "filter (\<lambda>q. q_email_id q \<notin> ?gone \<and> q_delivery_id q \<notin> ?gone_d) (t_queue s) =
      filter (\<lambda>q. q_email_id q \<noteq> i) (t_queue s)"
    using q by (intro filter_cong refl) blast
  ultimately show ?thesis by (simp add: DeleteEmail_def delete_emails_def Let_def)
qed



subsection \<open>Editing a rule\<close>

lemma UpdateRule_view:
  "UpdateRule now rule rows = Inr rows' \<Longrightarrow> row_of rw_id rows' i =
     map_option (\<lambda>r. if rw_id r = rr_ID rule then r\<lparr>rw_name := rr_Name rule, rw_enabled := boolToInt (rr_Enabled rule),
       rw_match := match_json (rr_Match rule), rw_webhook := webhook_json (rr_Webhook rule),
       rw_position := rr_Position rule, rw_updated_at := now\<rparr> else r) (row_of rw_id rows i)"
  by (auto simp: UpdateRule_def row_of_map_where split: if_splits)

text \<open>
  C27: Saving the form of a rule keeps its secret unless told otherwise: blank leaves the stored secret, the
  checkbox clears it, and a new one replaces it, the checkbox winning. Whether the rule is enabled, its
  position and its creation time are kept, and no other rule changes.
\<close>

theorem update_keeps_secret:
  assumes "rows_ok (ui_rules s)" "GetRule F (ur_id r) (ui_rules s) = Inr old"
    and "handleRuleUpdate F now r s = (RedirectTo ''/rules'' 303, s')"
  shows "\<exists>new. GetRule F (ur_id r) (ui_rules s') = Inr new
    \<and> wh_SigningSecret (rr_Webhook new) =
        (if FormValue r ''clear_signing_secret'' = ''on'' then []
         else if FormValue r ''signing_secret'' = [] then wh_SigningSecret (rr_Webhook old)
         else FormValue r ''signing_secret'')
    \<and> rr_Enabled new = rr_Enabled old \<and> rr_Position new = rr_Position old \<and> rr_CreatedAt new = rr_CreatedAt old
    \<and> (\<forall>i. i \<noteq> ur_id r \<longrightarrow> GetRule F i (ui_rules s') = GetRule F i (ui_rules s))"
proof -
  obtain rule rows where form: "parseRuleForm F r = Inr rule" and s': "ui_rules s' = rows"
    and upd: "UpdateRule now (old\<lparr>rr_Name := rr_Name rule, rr_Match := rr_Match rule, rr_Webhook := (rr_Webhook rule)
        \<lparr>wh_SigningSecret := ruleSigningSecret r (wh_SigningSecret (rr_Webhook old))\<rparr>\<rparr>) (ui_rules s) = Inr rows"
    using assms(2,3)
    by (auto simp: handleRuleUpdate_def Let_def rules_sql_reply_def ui_reload_def split: if_splits sum.splits prod.splits)
  let ?rec = "old\<lparr>rr_Name := rr_Name rule, rr_Match := rr_Match rule, rr_Webhook := (rr_Webhook rule)
        \<lparr>wh_SigningSecret := ruleSigningSecret r (wh_SigningSecret (rr_Webhook old))\<rparr>\<rparr>"
  obtain row r' where old: "row_of rw_id (ui_rules s) (ur_id r) = Some row" "written_by r' row" "old = norm_record r'"
    "rr_ID old = ur_id r"
    using GetRule_ok [OF assms(1,2)] by blast
  define row' where "row' = row\<lparr>rw_name := rr_Name ?rec, rw_enabled := boolToInt (rr_Enabled ?rec),
    rw_match := match_json (rr_Match ?rec), rw_webhook := webhook_json (rr_Webhook ?rec),
    rw_position := rr_Position ?rec, rw_updated_at := now\<rparr>"
  have rows: "row_of rw_id rows i = (if i = ur_id r then Some row' else row_of rw_id (ui_rules s) i)" for i
    using UpdateRule_view [OF upd, of i] old(1,4)
    by (cases "row_of rw_id (ui_rules s) i") (auto simp: row'_def dest: row_of_key)
  have "webhook_ok (rr_Webhook ?rec)" using parseRuleForm_ok [OF form] by (simp add: webhook_ok_update(1))
  then have "written_by (?rec\<lparr>rr_UpdatedAt := now\<rparr>) row'"
    using old by (cases row) (auto simp: written_by_def row'_def norm_record_def)
  then have new: "GetRule F (ur_id r) rows = Inr (norm_record (?rec\<lparr>rr_UpdatedAt := now\<rparr>))"
    by (simp add: GetRule_def rows scanRule_written)
  moreover have "GetRule F i rows = GetRule F i (ui_rules s)" if "i \<noteq> ur_id r" for i
    using that by (simp add: GetRule_def rows)
  ultimately show ?thesis
    by (simp add: s' norm_record_def norm_webhook_def ruleSigningSecret_def)
qed

text \<open>A form that renames the first rule and leaves its secret blank.\<close>

definition demo_form :: "string \<Rightarrow> string list" where
  "demo_form k = (if k = ''name'' then [''renamed''] else if k = ''webhook_url'' then [''https://h.test''] else [])"

definition demo_edit :: ui_req where
  "demo_edit = (demo_ui_req ''i1'')\<lparr>ur_form := demo_form\<rparr>"

theorem update_keeps_secret_witness:
  "\<exists>new. GetRule (demo_file JNull) ''i1'' (ui_rules (snd (handleRuleUpdate (demo_file JNull) 9 demo_edit demo_ui))) = Inr new
    \<and> wh_SigningSecret (rr_Webhook new) = wh_SigningSecret (rr_Webhook (demo_written ''i1'' ''alerts'' True))"
proof -
  obtain s' where s': "handleRuleUpdate (demo_file JNull) 9 demo_edit demo_ui = (RedirectTo ''/rules'' 303, s')"
  proof -
    have "fst (handleRuleUpdate (demo_file JNull) 9 demo_edit demo_ui) = RedirectTo ''/rules'' 303" by code_simp
    then show thesis by (intro that prod_eqI) auto
  qed
  have "row_of rw_id demo_rows ''i1'' = Some (demo_row_of (demo_written ''i1'' ''alerts'' True))"
    by (simp add: demo_rows_def demo_row_of_def demo_written_def row_of_def)
  then have get: "GetRule (demo_file JNull) (ur_id demo_edit) (ui_rules demo_ui) = Inr (demo_written ''i1'' ''alerts'' True)"
    by (simp add: GetRule_def demo_ui_def demo_edit_def demo_ui_req_def scanRule_written [OF demo_written_ok])
  have ok: "rows_ok (ui_rules demo_ui)" using demo_rows_ok by (simp add: demo_ui_def)
  have form: "FormValue demo_edit ''clear_signing_secret'' = []" "FormValue demo_edit ''signing_secret'' = []" by code_simp+
  obtain new where "GetRule (demo_file JNull) (ur_id demo_edit) (ui_rules s') = Inr new"
    "wh_SigningSecret (rr_Webhook new) = wh_SigningSecret (rr_Webhook (demo_written ''i1'' ''alerts'' True))"
    using update_keeps_secret [OF ok get s'] unfolding form by (elim exE conjE) simp
  then show ?thesis unfolding s' snd_conv by (intro exI [of _ new]) (simp add: demo_edit_def demo_ui_req_def)
qed

subsection \<open>Settings\<close>

lemma form_atoi_iff: "form_atoi r k lo err = Inr n \<longleftrightarrow> Atoi (FormValue r k) = Some n \<and> lo \<le> n"
  by (auto simp: form_atoi_def split: option.split)

lemma form_atoi_error: "form_atoi r k lo err = Inl e \<Longrightarrow> e = err"
  by (auto simp: form_atoi_def split: option.splits if_splits)

lemma settings_form_error: "settings_form visit r cfg = Inl e \<Longrightarrow> e \<noteq> SettingsNotSaved"
  by (auto simp: settings_form_def Let_def split: option.splits sum.splits if_splits dest!: form_atoi_error)

text \<open>
  Settings saved through the web UI are in force at once and the same after a restart: the
  authentication modes of the SMTP server, the retry settings of the dispatcher, the log level and the
  days of the retention sweep are those \<open>applySettings\<close> takes from the saved row over any start-up
  configuration, whose other parts stay. A refused form changes nothing.
\<close>

theorem settings_survive_restart:
  "case handleSettingsSave visit save_ok r s of
     (RedirectTo _ _, s') \<Rightarrow>
       (\<exists>saved. ui_settings s' = Some saved \<and>
          (let c = applySettings start saved in
           ui_authCfg s' = cfg_Auth c \<and> ui_retry s' = cfg_Retry c \<and> ui_logLevel s' = setLogLevel (cfg_LogLevel c)
           \<and> ui_retentionDays s' = int32 (wu_RetentionDays (cfg_WebUI c))
           \<and> cfg_SMTP c = cfg_SMTP start \<and> cfg_HTTP c = cfg_HTTP start \<and> cfg_Webhook c = cfg_Webhook start
           \<and> wu_RawEmailDir (cfg_WebUI c) = wu_RawEmailDir (cfg_WebUI start)))
   | (SettingsForm SettingsNotSaved, s') \<Rightarrow> ui_settings s' = ui_settings s \<and> ui_retry s' = ui_retry s
   | (_, s') \<Rightarrow> s' = s"
  using settings_form_error [of visit r "ui_config s"]
  by (cases "settings_form visit r (ui_config s)")
    (auto simp: handleSettingsSave_def applySettings_def Let_def split: settings_error.split)

text \<open>
  What the settings form lets through: a mode known for each check, no negative number, and waits of
  at least a second in order, as long as they are below 292 years. Beyond that the seconds wrap around
  at 64 bits: a longest wait of 9223372037 to 18446744073 seconds is saved as a negative one.
\<close>

theorem settings_form_bounds:
  assumes "settings_form visit r cfg = Inr cfg'" "set visit = set auth_fields"
  shows "valid_mode (ac_SPF (cfg_Auth cfg')) \<and> valid_mode (ac_DKIM (cfg_Auth cfg')) \<and> valid_mode (ac_DMARC (cfg_Auth cfg'))
    \<and> 0 \<le> rc_MaxRetries (cfg_Retry cfg') \<and> 0 \<le> wu_RetentionDays (cfg_WebUI cfg')
    \<and> cfg_SMTP cfg' = cfg_SMTP cfg \<and> cfg_HTTP cfg' = cfg_HTTP cfg
    \<and> (\<exists>i m. 1 \<le> i \<and> i \<le> m \<and> Atoi (FormValue r ''retry_initial_wait_seconds'') = Some i
         \<and> Atoi (FormValue r ''retry_max_wait_seconds'') = Some m
         \<and> (m \<le> 9223372036 \<longrightarrow> Second \<le> rc_InitialWait (cfg_Retry cfg')
              \<and> rc_InitialWait (cfg_Retry cfg') \<le> rc_MaxWait (cfg_Retry cfg'))
         \<and> (9223372037 \<le> m \<and> m \<le> 18446744073 \<longrightarrow> rc_MaxWait (cfg_Retry cfg') < 0))"
proof -
  let ?level = "FormValue r ''log_level''"
  obtain retries i m timeout days where c: "cfg' = cfg\<lparr>cfg_LogLevel := ?level,
      cfg_Auth := \<lparr>ac_SPF = FormValue r ''auth_spf'', ac_DKIM = FormValue r ''auth_dkim'', ac_DMARC = FormValue r ''auth_dmarc''\<rparr>,
      cfg_Retry := \<lparr>rc_MaxRetries = retries, rc_InitialWait = seconds i, rc_MaxWait = seconds m,
        rc_Timeout = seconds timeout, rc_RetryOnTimeout = (FormValue r ''retry_on_timeout'' = ''1'')\<rparr>,
      cfg_WebUI := (cfg_WebUI cfg)\<lparr>wu_RetentionDays := days\<rparr>\<rparr>"
    and b: "0 \<le> retries" "0 \<le> days" "1 \<le> i" "i \<le> m" "Atoi (FormValue r ''retry_initial_wait_seconds'') = Some i"
      "Atoi (FormValue r ''retry_max_wait_seconds'') = Some m"
    and modes: "find (\<lambda>f. \<not> valid_mode (FormValue r f)) visit = None"
    using assms(1)
    by (auto simp: settings_form_def Let_def form_atoi_iff split: if_splits option.splits sum.splits)
  have "seconds i = i * Second \<and> seconds m = m * Second" if "m \<le> 9223372036"
    using that b(3,4) seconds_exact by simp
  moreover have "seconds m < 0" if "9223372037 \<le> m" "m \<le> 18446744073"
  proof -
    have "m * 1000000000 \<le> 18446744073 * 1000000000" "9223372037 * 1000000000 \<le> m * 1000000000"
      using that by simp_all
    then show ?thesis using int64_wrap [of "m * 1000000000"] by (simp add: seconds_def Second_def)
  qed
  moreover have "\<forall>f\<in>set auth_fields. valid_mode (FormValue r f)"
    using modes assms(2) by (auto simp: find_None_iff)
  ultimately show ?thesis using b by (auto simp: c auth_fields_def Second_def)
qed

text \<open>A longest wait of ten thousand million seconds.\<close>

definition demo_settings :: "string \<Rightarrow> string list" where
  "demo_settings k =
     (if k = ''log_level'' then [''debug''] else if k \<in> set auth_fields then [''enforce'']
      else if k = ''retry_initial_wait_seconds'' then [''2''] else if k = ''retry_max_wait_seconds'' then [''10000000000'']
      else [''3''])"

definition demo_save :: ui_req where
  "demo_save = (demo_ui_req [])\<lparr>ur_form := demo_settings\<rparr>"

lemma demo_numbers: "Atoi ''10000000000'' = Some 10000000000" "Atoi ''2'' = Some 2" "Atoi ''3'' = Some 3"
  by (simp_all add: Atoi_def HasPrefix_def Let_def of_char_def)

lemma demo_save_accepted: "\<exists>c. settings_form auth_fields demo_save demo_app = Inr c"
  by (simp add: settings_form_def FormValue_def demo_save_def demo_ui_req_def demo_settings_def auth_fields_def form_atoi_def demo_numbers
    valid_mode_def
    Let_def)

theorem settings_form_bounds_witness:
  "\<exists>c. settings_form auth_fields demo_save demo_app = Inr c \<and> rc_MaxWait (cfg_Retry c) < 0"
proof -
  from demo_save_accepted obtain c where c: "settings_form auth_fields demo_save demo_app = Inr c" by blast
  moreover have "FormValue demo_save ''retry_max_wait_seconds'' = ''10000000000''" by code_simp
  ultimately show ?thesis
    using settings_form_bounds [OF c refl] demo_numbers by auto
qed

end
