(* ===== verification/QueueDrain.thy ===== *)
theory QueueDrain
  imports WorkerProps
begin

section \<open>The delivery workers: the queue empties\<close>

text \<open>
  One turn of \<open>work\<close> on a queue that is not stopped, and the measure that every attempt brings down:
  the attempts that the unfinished deliveries still have.
\<close>

text \<open>What a turn meets: the order among deliveries due at the same time, the clock of the claim, the request, the clock of the end.\<close>

record turn =
  tn_tie :: nat
  tn_claimed_at :: int
  tn_env :: run_env
  tn_finished_at :: int

definition work_turn :: "weblib \<Rightarrow> turn \<Rightarrow> deliverySnapshot db \<Rightarrow> deliverySnapshot db" where
  "work_turn W t s =
     (case ClaimDelivery (tn_tie t) (tn_claimed_at t) s of
        (None, s) \<Rightarrow> s
      | (Some job, s) \<Rightarrow>
          (let (req, result, next) = runQueued W (tn_env t) job
           in FinishDelivery job result next (tn_finished_at t) s))"

subsection \<open>The attempts that are left\<close>

definition tries_of :: "delivery_row \<Rightarrow> deliverySnapshot queue_row \<Rightarrow> nat" where
  "tries_of d q =
     (if unfinished_status (dl_status d)
      then (case q_snapshot q of None \<Rightarrow> 1 | Some snap \<Rightarrow> nat (rc_MaxRetries (sn_Retry snap) - dl_attempts d) + 1)
      else 0)"

definition tries_left :: "deliverySnapshot db \<Rightarrow> string \<Rightarrow> nat" where
  "tries_left s i =
     (case (row_of dl_id (t_deliveries s) i, row_of q_delivery_id (t_queue s) i) of
        (Some d, Some q) \<Rightarrow> tries_of d q
      | _ \<Rightarrow> 0)"

definition queue_tries :: "deliverySnapshot db \<Rightarrow> nat" where
  "queue_tries s = sum_list (map (tries_left s) (map q_delivery_id (t_queue s)))"

lemma tries_left_zero:
  assumes "store_inv s" "queue_tries s = 0"
  shows "\<forall>i st. qstat s i = Some st \<longrightarrow> \<not> unfinished_status st"
proof (intro allI impI)
  fix i st assume "qstat s i = Some st"
  then obtain q d where q: "q \<in> set (t_queue s)" "d \<in> set (t_deliveries s)" "q_delivery_id q = i" "dl_id d = i"
    "dl_status d = st"
    using assms(1) by (auto simp: qstat_Some_iff)
  then have "row_of dl_id (t_deliveries s) i = Some d" "row_of q_delivery_id (t_queue s) i = Some q"
    using assms(1) by (simp_all add: store_inv_def row_of_Some_iff)
  moreover have "tries_left s i = 0" using assms(2) q(1,3) by (auto simp: queue_tries_def)
  ultimately show "\<not> unfinished_status st"
    using q(5) by (auto simp: tries_left_def tries_of_def split: if_splits option.splits)
qed

subsection \<open>One attempt\<close>

text \<open>An attempt that is to be repeated has used one of the retries.\<close>

lemma runQueued_retry:
  assumes "runQueued W env j = (req, result, Some t)" "\<not> env_ctx_err env"
  shows "\<exists>snap. qd_Snapshot j = Some snap \<and> dr_Attempts result = qd_Attempts j + 1
    \<and> dr_Attempts result \<le> rc_MaxRetries (sn_Retry snap)"
proof -
  have c: "dr_Attempts r = dr_Attempts r0 \<and> dr_Attempts r0 \<le> rc_MaxRetries retry"
    if "classify oob False now retry n r0 ans = (r, Some t)" for oob now retry n r0 ans r
    using that by (auto simp: classify_def Let_def split: sum.splits send_error.splits if_splits)
  from assms show ?thesis
    by (auto simp: runQueued_def Let_def empty_result_def
        split: option.splits if_splits sum.splits prod.splits dest!: c)
qed

lemma ClaimDelivery_rows:
  assumes "ClaimDelivery tie now s = (Some j, s')"
  shows "\<exists>d q. d \<in> set (t_deliveries s) \<and> q \<in> set (t_queue s) \<and> dl_id d = qd_ID j \<and> q_delivery_id q = qd_ID j
    \<and> q_snapshot q = qd_Snapshot j \<and> q_email_id q = qd_EmailID j \<and> dl_attempts d = qd_Attempts j
    \<and> dl_status d = DPending \<and> s' = set_in_progress (qd_ID j) now s"
proof -
  define rows where "rows = first_due (due_rows s (UnixNano now))"
  obtain d q where dq: "rows ! (tie mod length rows) = (d, q)" by force
  have ne: "rows \<noteq> []" and j: "j = \<lparr>qd_ID = dl_id d, qd_EmailID = q_email_id q, qd_RuleName = dl_rule_name d,
      qd_Snapshot = q_snapshot q, qd_Attempts = dl_attempts d, qd_NextAttemptAt = q_next_attempt_at q\<rparr>"
    and s': "s' = set_in_progress (dl_id d) now s"
    using assms dq by (auto simp: ClaimDelivery_def Let_def rows_def [symmetric] split: if_splits)
  have "(d, q) \<in> set rows" using ne dq nth_mem [of "tie mod length rows" rows] by simp
  then show ?thesis
    by (intro exI [of _ d] exI [of _ q]) (auto simp: j s' rows_def first_due_iff due_rows_iff)
qed

text \<open>The rows of the attempted delivery after the attempt; the others stay as they are.\<close>

definition attempted :: "'s QueuedDelivery \<Rightarrow> DeliveryResult \<Rightarrow> int option \<Rightarrow> int \<Rightarrow> int \<Rightarrow> 's db \<Rightarrow> 's db" where
  "attempted j r next now now' s = FinishDelivery j r next now' (set_in_progress (qd_ID j) now s)"

lemma attempted_rows:
  "t_queue (attempted j r next now now' s) = map_where (\<lambda>q. q_delivery_id q = qd_ID j)
     (case next of
        Some t \<Rightarrow> (\<lambda>q. q\<lparr>q_next_attempt_at := UnixNano t\<rparr>)
      | None \<Rightarrow> (\<lambda>q. q\<lparr>q_snapshot := None, q_next_attempt_at := max_int64\<rparr>)) (t_queue s)"
  "t_deliveries (attempted j r next now now' s) = map_where (\<lambda>d. dl_id d = qd_ID j)
     (\<lambda>d. d\<lparr>dl_status := dr_Status r, dl_status_code := dr_StatusCode r, dl_error_message := dr_Error r,
        dl_response_body := dr_ResponseBody r, dl_attempts := dr_Attempts r, dl_updated_at := now'\<rparr>)
     (map_where (\<lambda>d. dl_id d = qd_ID j) (\<lambda>d. d\<lparr>dl_status := DInProgress, dl_updated_at := now\<rparr>) (t_deliveries s))"
  by (simp_all add: attempted_def FinishDelivery_def settle_email_def reschedule_def save_result_def set_in_progress_def)

lemma attempted_ids:
  "map q_delivery_id (t_queue (attempted j r next now now' s)) = map q_delivery_id (t_queue s)"
  by (cases "next") (simp_all add: attempted_rows map_where_def)

lemma tries_left_other:
  "i \<noteq> qd_ID j \<Longrightarrow> tries_left (attempted j r next now now' s) i = tries_left s i"
  by (cases "row_of dl_id (t_deliveries s) i"; cases "row_of q_delivery_id (t_queue s) i"; cases "next")
    (auto simp: tries_left_def attempted_rows row_of_map_where dest: row_of_key)

lemma tries_left_attempted:
  assumes "row_of dl_id (t_deliveries s) (qd_ID j) = Some d" "row_of q_delivery_id (t_queue s) (qd_ID j) = Some q"
    and "qd_Snapshot j = q_snapshot q" "qd_Attempts j = dl_attempts d" "dl_status d = DPending"
    and run: "runQueued W env j = (req, result, next)" "\<not> env_ctx_err env"
  shows "tries_left (attempted j result next now now' s) (qd_ID j) < tries_left s (qd_ID j)"
proof -
  have id: "dl_id d = qd_ID j" "q_delivery_id q = qd_ID j"
    using assms(1,2) by (auto dest: row_of_key)
  have before: "tries_left s (qd_ID j) = (case q_snapshot q of None \<Rightarrow> 1
      | Some snap \<Rightarrow> nat (rc_MaxRetries (sn_Retry snap) - dl_attempts d) + 1)"
    using assms(1,2,5) by (simp add: tries_left_def tries_of_def unfinished_status_def)
  show ?thesis
  proof (cases "next")
    case None
    then have "\<not> unfinished_status (dr_Status result)" using runQueued_next [OF run(1)] by simp
    then show ?thesis
      using assms(1,2) id unfolding before
      by (simp add: tries_left_def attempted_rows row_of_map_where None tries_of_def split: option.split)
  next
    case (Some t)
    from runQueued_retry [OF run(1) [unfolded Some] run(2)] obtain snap where
      snap: "q_snapshot q = Some snap" "dr_Attempts result = dl_attempts d + 1"
        "dl_attempts d + 1 \<le> rc_MaxRetries (sn_Retry snap)"
      using assms(3,4) by auto
    then show ?thesis
      using assms(1,2) id unfolding before
      by (simp add: tries_left_def attempted_rows row_of_map_where Some tries_of_def)
  qed
qed

lemma attempt_decreases:
  assumes inv: "store_inv s" and c: "ClaimDelivery tie now s = (Some j, s')"
    and run: "runQueued W env j = (req, result, next)" "\<not> env_ctx_err env"
  shows "queue_tries (FinishDelivery j result next now' s') < queue_tries s"
proof -
  from ClaimDelivery_rows [OF c] obtain d q where
    rows: "d \<in> set (t_deliveries s)" "q \<in> set (t_queue s)" "dl_id d = qd_ID j" "q_delivery_id q = qd_ID j"
      "qd_Snapshot j = q_snapshot q" "qd_Attempts j = dl_attempts d" "dl_status d = DPending"
    and s': "FinishDelivery j result next now' s' = attempted j result next now now' s"
    by (auto simp: attempted_def)
  have "row_of dl_id (t_deliveries s) (qd_ID j) = Some d" "row_of q_delivery_id (t_queue s) (qd_ID j) = Some q"
    using inv rows by (simp_all add: store_inv_def row_of_Some_iff)
  from tries_left_attempted [OF this rows(5-7) run] have less:
    "tries_left (attempted j result next now now' s) (qd_ID j) < tries_left s (qd_ID j)" .
  have "tries_left (attempted j result next now now' s) i \<le> tries_left s i" for i
    using less tries_left_other [of i j] by (cases "i = qd_ID j") auto
  then show ?thesis
    unfolding s' queue_tries_def attempted_ids using rows(2,4) less
    by (intro sum_list_less [of "qd_ID j"]) force+
qed

subsection \<open>Properties\<close>

definition run_queue :: "weblib \<Rightarrow> turn list \<Rightarrow> deliverySnapshot db \<Rightarrow> deliverySnapshot db" where
  "run_queue W ts s = foldl (\<lambda>s t. work_turn W t s) s ts"

text \<open>Turns that are not cut off by a shutdown, and whose clock has reached what is due.\<close>

fun timely :: "weblib \<Rightarrow> turn list \<Rightarrow> deliverySnapshot db \<Rightarrow> bool" where
  "timely W [] s = True"
| "timely W (t # ts) s =
     (\<not> env_ctx_err (tn_env t)
      \<and> list_all (\<lambda>q. qstat s (q_delivery_id q) = Some DPending
          \<longrightarrow> q_next_attempt_at q \<le> UnixNano (tn_claimed_at t)) (t_queue s)
      \<and> timely W ts (work_turn W t s))"

definition idle_inv :: "deliverySnapshot db \<Rightarrow> bool" where
  "idle_inv s \<longleftrightarrow> queue_inv s \<and> (\<forall>i. qstat s i \<noteq> Some DInProgress)"

lemma work_turn_idle: "ClaimDelivery (tn_tie t) (tn_claimed_at t) s = (None, s') \<Longrightarrow> work_turn W t s = s"
  by (simp add: work_turn_def ClaimDelivery_None)

lemma work_turn_busy:
  assumes "idle_inv s" "ClaimDelivery (tn_tie t) (tn_claimed_at t) s = (Some j, s')"
  obtains req result "next" where "runQueued W (tn_env t) j = (req, result, next)"
    "work_turn W t s = FinishDelivery j result next (tn_finished_at t) s'" "idle_inv (work_turn W t s)"
proof -
  obtain req result nxt where run: "runQueued W (tn_env t) j = (req, result, nxt)" by (metis prod_cases3)
  have inv: "queue_inv s" "store_inv s" using assms(1) by (simp_all add: idle_inv_def queue_inv_def)
  have claim: "qstat s' = (qstat s)(qd_ID j \<mapsto> DInProgress)" "queue_inv s'"
    using qstat_ClaimDelivery [OF inv(2) assms(2)] queue_inv_ClaimDelivery [OF inv(1), of "tn_tie t" "tn_claimed_at t"]
    by (simp_all add: assms(2))
  have turn: "work_turn W t s = FinishDelivery j result nxt (tn_finished_at t) s'"
    by (simp add: work_turn_def assms(2) run)
  have job: "q_email_id q = qd_EmailID j" if "q \<in> set (t_queue s')" "q_delivery_id q = qd_ID j" for q
    using ClaimDelivery_job [OF inv(2) assms(2)] that inv(2)
    by (auto simp: store_inv_def dest: key_distinct_inj [of q_delivery_id])
  have "queue_inv (work_turn W t s)"
    unfolding turn using claim runQueued_next [OF run] job by (intro queue_inv_FinishDelivery) auto
  moreover have "qstat (work_turn W t s) i \<noteq> Some DInProgress" for i
    using assms(1) runQueued_next [OF run] claim(1) by (simp add: turn qstat_FinishDelivery idle_inv_def)
  ultimately have "idle_inv (work_turn W t s)" by (simp add: idle_inv_def)
  with run turn show thesis by (rule that)
qed

lemma work_turn_inv:
  assumes "idle_inv s"
  shows "idle_inv (work_turn W t s)"
proof (cases "ClaimDelivery (tn_tie t) (tn_claimed_at t) s")
  case (Pair j s')
  with assms show ?thesis by (cases j) (auto simp: work_turn_idle elim: work_turn_busy)
qed

text \<open>When all that is pending is due and nothing can be claimed, there is nothing unfinished.\<close>

lemma idle_finished:
  assumes "idle_inv s" "ClaimDelivery tie now s = (None, s')"
    and "\<forall>q\<in>set (t_queue s). qstat s (q_delivery_id q) = Some DPending \<longrightarrow> q_next_attempt_at q \<le> UnixNano now"
  shows "tries_left s i = 0"
proof (rule ccontr)
  assume "tries_left s i \<noteq> 0"
  then obtain d q where dq: "row_of dl_id (t_deliveries s) i = Some d" "row_of q_delivery_id (t_queue s) i = Some q"
    "unfinished_status (dl_status d)"
    by (auto simp: tries_left_def tries_of_def split: option.splits if_splits)
  have inv: "store_inv s" using assms(1) by (simp add: idle_inv_def queue_inv_def)
  have rows: "d \<in> set (t_deliveries s)" "dl_id d = i" "q \<in> set (t_queue s)" "q_delivery_id q = i"
    using dq inv by (auto simp: store_inv_def row_of_Some_iff)
  then have st: "qstat s i = Some (dl_status d)" using inv by (auto simp: qstat_Some_iff)
  then have pending: "dl_status d = DPending"
    using assms(1) dq(3) by (auto simp: idle_inv_def unfinished_status_def)
  have "(d, q) \<in> set (due_rows s (UnixNano now))"
    using rows st pending assms(3) store_inv_queue_email [OF inv rows(3)] by (auto simp: due_rows_iff)
  then have "first_due (due_rows s (UnixNano now)) \<noteq> []" using first_due_Nil_iff by (metis empty_iff list.set(1))
  with assms(2) show False by (auto simp: ClaimDelivery_def Let_def split: prod.splits)
qed

lemma work_turn_tries:
  assumes "idle_inv s" "timely W (t # ts) s"
  shows "queue_tries (work_turn W t s) \<le> queue_tries s - 1"
proof (cases "ClaimDelivery (tn_tie t) (tn_claimed_at t) s")
  case (Pair j s')
  show ?thesis
  proof (cases j)
    case None
    then have "queue_tries s = 0"
      using idle_finished [OF assms(1)] Pair assms(2) by (auto simp: queue_tries_def list_all_iff)
    then show ?thesis using Pair None by (simp add: work_turn_idle)
  next
    case (Some job)
    with Pair have c: "ClaimDelivery (tn_tie t) (tn_claimed_at t) s = (Some job, s')" by simp
    have inv: "store_inv s" "\<not> env_ctx_err (tn_env t)" using assms by (simp_all add: idle_inv_def queue_inv_def)
    from work_turn_busy [OF assms(1) c] obtain req result nxt where
      run: "runQueued W (tn_env t) job = (req, result, nxt)" and
      turn: "work_turn W t s = FinishDelivery job result nxt (tn_finished_at t) s'" by metis
    show ?thesis
      using attempt_decreases [OF inv(1) c run inv(2), of "tn_finished_at t"] by (simp add: turn)
  qed
qed

lemma run_queue_tries:
  "idle_inv s \<Longrightarrow> timely W ts s \<Longrightarrow> idle_inv (run_queue W ts s) \<and> queue_tries (run_queue W ts s) \<le> queue_tries s - length ts"
proof (induction ts arbitrary: s)
  case (Cons t ts)
  from Cons.IH [OF work_turn_inv [OF Cons.prems(1)]] work_turn_tries [OF Cons.prems] Cons.prems(2)
  show ?case by (fastforce simp: run_queue_def)
qed (simp add: run_queue_def)

text \<open>
  C8: The queue empties. Whatever the receivers answer, a queue that is started on consistent tables has
  finished every delivery after as many turns as the deliveries have attempts left (the retries of each
  plus one), provided each turn comes when what is pending is due and is not cut off by a shutdown;
  and every email that had deliveries has its final status.
\<close>

theorem queue_drains:
  assumes "queue_inv s" "\<forall>i. qstat s i \<noteq> Some DInProgress"
    and "timely W ts s" "queue_tries s \<le> length ts"
  shows "(\<forall>i st. qstat (run_queue W ts s) i = Some st \<longrightarrow> \<not> unfinished_status st)
    \<and> (\<forall>e\<in>set (t_emails (run_queue W ts s)). em_delivery_batch e \<noteq> [] \<longrightarrow> em_status e \<noteq> EmailStatusReceived)"
proof -
  have r: "idle_inv (run_queue W ts s)" "queue_tries (run_queue W ts s) = 0"
    using run_queue_tries [of s W ts] assms by (simp_all add: idle_inv_def)
  then have fin: "\<not> unfinished_status st" if "qstat (run_queue W ts s) i = Some st" for i st
    using that tries_left_zero by (auto simp: idle_inv_def queue_inv_def)
  then have "\<not> has_unfinished (run_queue W ts s) e" for e
    using r(1) by (auto simp: has_unfinished_qstat idle_inv_def queue_inv_def)
  with fin r(1) show ?thesis by (auto simp: idle_inv_def queue_inv_def email_inv_def)
qed

text \<open>Turns on the queue with one delivery, of six attempts at most; its rule has no secret to sign with any more.\<close>

definition demo_turn :: turn where
  "demo_turn = \<lparr>tn_tie = 0, tn_claimed_at = 10 ^ 12, tn_env = demo_env None 200,
     tn_finished_at = 10 ^ 12\<rparr>"

lemma demo_drained:
  "timely demo_web (replicate 6 demo_turn) demo_db1" "queue_tries demo_db1 \<le> 6"
  "map (\<lambda>d. (dl_status d, dl_attempts d)) (t_deliveries (run_queue demo_web (replicate 6 demo_turn) demo_db1)) =
     [(DError, 0)]"
  by code_simp+

lemma demo_db1_idle: "queue_inv demo_db1" "qstat demo_db1 i \<noteq> Some DInProgress"
proof -
  show inv: "queue_inv demo_db1" using reachable_inv [OF demo_db1_reachable] by (simp add: worker_inv_def)
  then have "dl_status ` set (t_deliveries demo_db1) \<subseteq> {DPending}"
    using arg_cong [OF demo_db1_rows(2), of "\<lambda>xs. snd ` set xs"] by (auto simp: image_image)
  then show "qstat demo_db1 i \<noteq> Some DInProgress"
    using inv by (auto simp: queue_inv_def qstat_Some_iff)
qed

theorem queue_drains_witness:
  "list_all (\<lambda>e. em_status e \<noteq> EmailStatusReceived) (t_emails (run_queue demo_web (replicate 6 demo_turn) demo_db1))"
proof -
  have "list_all (\<lambda>e. em_delivery_batch e \<noteq> []) (t_emails (run_queue demo_web (replicate 6 demo_turn) demo_db1))"
    by code_simp
  moreover have "queue_tries demo_db1 \<le> length (replicate 6 demo_turn)" using demo_drained(2) by simp
  ultimately show ?thesis
    using queue_drains [OF demo_db1_idle(1) _ demo_drained(1)] demo_db1_idle(2) by (simp add: list_all_iff)
qed

end
