(* ===== verification/Shutdown.thy ===== *)
theory Shutdown
  imports WorkerProps
begin

section \<open>Stopping the delivery workers (\<open>Shutdown\<close> of \<open>internal/webhook/queue.go\<close>)\<close>

text \<open>
  What happens between \<open>StopQueue\<close> and the end of \<open>Shutdown\<close>: steps of the queue other than a restart,
  first with the requests in flight left alone and, when the deadline of the caller passes, with them
  cancelled. The measure \<open>turns_left\<close> bounds what the workers still do; when it is down to zero each of
  them has returned, the wait group is done and \<open>q.done\<close> is closed.
\<close>

subsection \<open>Runs of a stopped queue\<close>

text \<open>The wait group of \<open>StartQueue\<close>: \<open>q.done\<close> is closed when every worker has returned.\<close>

definition queue_done :: "queue_state \<Rightarrow> bool" where
  "queue_done s \<longleftrightarrow> (\<forall>p\<in>set (qs_workers s). p = Exited)"

text \<open>The process goes on, and nobody cancels.\<close>

definition stopping_step :: "weblib \<Rightarrow> queue_state \<Rightarrow> queue_state \<Rightarrow> bool" where
  "stopping_step W s s' \<longleftrightarrow> step W s s' \<and> qs_stopped s' \<and> qs_cancelled s' = qs_cancelled s"

inductive stopping :: "weblib \<Rightarrow> nat \<Rightarrow> queue_state \<Rightarrow> queue_state \<Rightarrow> bool" for W where
  stopping_refl: "stopping W 0 s s"
| stopping_turn: "stopping W k s s' \<Longrightarrow> stopping_step W s' s'' \<Longrightarrow> qs_workers s'' \<noteq> qs_workers s' \<Longrightarrow>
    stopping W (Suc k) s s''"
| stopping_rest: "stopping W k s s' \<Longrightarrow> stopping_step W s' s'' \<Longrightarrow> qs_workers s'' = qs_workers s' \<Longrightarrow>
    stopping W k s s''"

text \<open>
  \<open>Shutdown\<close> on a started queue: it stops the claims and waits; its result is the error of the context
  when that ends first, and then it cancels the requests and waits again. Both ways the deferred
  \<open>q.cancel\<close> has run when it returns.
\<close>

datatype ctx_error = DeadlineExceeded

inductive Shutdown :: "weblib \<Rightarrow> queue_state \<Rightarrow> ctx_error option \<Rightarrow> queue_state \<Rightarrow> bool" for W s where
  Shutdown_done: "stopping W k (StopQueue s) s' \<Longrightarrow> queue_done s' \<Longrightarrow> Shutdown W s None (cancel_queue s')"
| Shutdown_expired: "stopping W k (StopQueue s) s1 \<Longrightarrow> stopping W m (cancel_queue s1) s2 \<Longrightarrow> queue_done s2 \<Longrightarrow>
    Shutdown W s (Some DeadlineExceeded) (cancel_queue s2)"

subsection \<open>The turns that are left\<close>

fun phase_turns :: "phase \<Rightarrow> nat" where
  "phase_turns Exited = 0"
| "phase_turns AtTop = 1"
| "phase_turns (Claimed _) = 1"
| "phase_turns Polling = 2"
| "phase_turns (Sending _) = 2"

definition turns_left :: "queue_state \<Rightarrow> nat" where
  "turns_left s = sum_list (map phase_turns (qs_workers s))"

lemma phase_turns_zero [simp]: "phase_turns p = 0 \<longleftrightarrow> p = Exited"
  by (cases p) simp_all

lemma turns_left_zero: "turns_left s = 0 \<longleftrightarrow> queue_done s"
  by (auto simp: turns_left_def queue_done_def)

lemma turns_left_bound: "turns_left s \<le> 2 * length (qs_workers s)"
proof -
  have p: "phase_turns p \<le> 2" for p by (cases p) simp_all
  have "sum_list (map phase_turns xs) \<le> 2 * length xs" for xs
  proof (induction xs)
    case (Cons x xs)
    then show ?case using p [of x] by simp
  qed simp
  then show ?thesis by (simp add: turns_left_def)
qed

lemma turns_left_flags [simp]:
  "turns_left (StopQueue s) = turns_left s" "turns_left (cancel_queue s) = turns_left s"
  "queue_done (StopQueue s) = queue_done s" "queue_done (cancel_queue s) = queue_done s"
  "qs_workers (StopQueue s) = qs_workers s" "qs_workers (cancel_queue s) = qs_workers s"
  "qs_stopped (StopQueue s)" "qs_stopped (cancel_queue s) = qs_stopped s"
  "qs_cancelled (StopQueue s) = qs_cancelled s" "qs_cancelled (cancel_queue s)"
  "qs_db (StopQueue s) = qs_db s" "qs_db (cancel_queue s) = qs_db s"
  "qs_orphans (StopQueue s) = qs_orphans s" "qs_orphans (cancel_queue s) = qs_orphans s"
  by (simp_all add: turns_left_def queue_done_def StopQueue_def cancel_queue_def)

lemma turns_left_set_phase:
  assumes "i < length (qs_workers s)" "phase_turns p < phase_turns (qs_workers s ! i)" "qs_workers t = qs_workers s"
  shows "turns_left (set_phase i p t) < turns_left s"
proof -
  have "sum_list (map phase_turns (xs[i := p])) < sum_list (map phase_turns xs)"
    if "i < length xs" "phase_turns p < phase_turns (xs ! i)" for xs
    using that by (induction xs arbitrary: i) (auto simp: nth_Cons split: nat.splits)
  with assms show ?thesis by (simp add: turns_left_def set_phase_def)
qed

text \<open>A step of a stopped queue that moves a worker takes one turn; no other step changes what is left.\<close>

lemma stopping_step_turns:
  assumes "stopping_step W s s'" "qs_stopped s"
  shows "length (qs_workers s') = length (qs_workers s)
    \<and> (if qs_workers s' = qs_workers s then turns_left s' = turns_left s else turns_left s' < turns_left s)"
proof -
  have st: "step W s s'" and s': "qs_stopped s'" using assms(1) by (simp_all add: stopping_step_def)
  have "turns_left s' < turns_left s \<or> qs_workers s' = qs_workers s"
    using st assms(2) s' by cases (auto intro!: turns_left_set_phase simp: StartQueue_def split: if_splits)
  moreover have "length (qs_workers s') = length (qs_workers s)"
    using st s' by cases (auto simp: StartQueue_def split: if_splits)
  ultimately show ?thesis by (auto simp: turns_left_def)
qed

text \<open>No worker is stuck, with storage that works and requests that end.\<close>

lemma stopping_progress:
  assumes "qs_stopped s" "\<not> queue_done s"
  shows "\<exists>s'. stopping_step W s s' \<and> qs_workers s' \<noteq> qs_workers s"
proof -
  obtain i where i: "i < length (qs_workers s)" "qs_workers s ! i \<noteq> Exited"
    using assms(2) by (auto simp: queue_done_def in_set_conv_nth)
  have go: ?thesis if "step W s (set_phase i p t)" "qs_stopped t" "qs_cancelled t = qs_cancelled s"
    "qs_workers t = qs_workers s" "p \<noteq> qs_workers s ! i" for p t
    using that i(1) by (intro exI [of _ "set_phase i p t"])
      (auto simp: stopping_step_def set_phase_def list_update_same_conv)
  show ?thesis
  proof (cases "qs_workers s ! i")
    case AtTop
    then show ?thesis using go [OF step_check [OF i(1) AtTop]] assms(1) by simp
  next
    case Polling
    then show ?thesis using go [OF step_idle_stop [OF i(1) Polling assms(1)]] assms(1) by simp
  next
    case (Claimed j)
    show ?thesis using go [OF step_release [OF i(1) Claimed assms(1)]] assms(1) Claimed by simp
  next
    case (Sending j)
    define env :: run_env where "env = undefined\<lparr>env_ctx_err := False\<rparr>"
    obtain req result nxt where "runQueued W env j = (req, result, nxt)" by (rule prod_cases3)
    from go [OF step_finish [OF i(1) Sending _ this, where now = 0]] show ?thesis
      using assms(1) Sending by (simp add: env_def)
  qed (use i(2) in simp)
qed

lemma stopping_turns:
  assumes "stopping W k s s'" "qs_stopped s"
  shows "qs_stopped s' \<and> length (qs_workers s') = length (qs_workers s) \<and> k + turns_left s' \<le> turns_left s"
  using assms
proof induction
  case (stopping_turn k s s' s'')
  then show ?case using stopping_step_turns [of W s' s''] by (auto simp: stopping_step_def)
next
  case (stopping_rest k s s' s'')
  then show ?case using stopping_step_turns [of W s' s''] by (auto simp: stopping_step_def)
qed simp

lemma stopping_reachable: "stopping W k s s' \<Longrightarrow> reachable W s \<Longrightarrow> reachable W s'"
  by (induction rule: stopping.induct) (auto simp: stopping_step_def intro: reach_step)

lemma stopping_completes:
  assumes "qs_stopped s"
  shows "\<exists>k s'. stopping W k s s' \<and> queue_done s'"
proof -
  have "\<exists>k s'. stopping W k s s' \<and> queue_done s'" if "stopping W m s t" for m t
    using that
  proof (induction "turns_left t" arbitrary: m t rule: less_induct)
    case less
    show ?case
    proof (cases "queue_done t")
      case False
      have t: "qs_stopped t" using stopping_turns [OF less.prems assms] by simp
      then obtain u where u: "stopping_step W t u" "qs_workers u \<noteq> qs_workers t"
        using stopping_progress False by blast
      with stopping_step_turns [OF u(1) t] have "turns_left u < turns_left t" by simp
      then show ?thesis using less.hyps stopping_turn [OF less.prems u] by blast
    qed (use less.prems in blast)
  qed
  then show ?thesis using stopping_refl by blast
qed

subsection \<open>What is left in the tables\<close>

lemma queue_done_held: "queue_done s \<Longrightarrow> held s i = None"
  by (simp add: queue_done_def held_def all_set_conv_all_nth)

lemma queue_done_settled:
  assumes "reachable W s" "queue_done s" "qstat (qs_db s) d = Some st" "unfinished_status st"
  shows "st = DPending \<or> d \<in> qs_orphans s"
proof -
  have "held_ids s = {}" using queue_done_held [OF assms(2)] by (simp add: held_ids_def)
  with reachable_inv [OF assms(1)] assms(3,4) show ?thesis
    by (auto simp: worker_inv_def unfinished_status_def)
qed

lemma Shutdown_reachable:
  assumes "Shutdown W s e s'" "reachable W s"
  shows "reachable W s' \<and> queue_done s' \<and> qs_stopped s' \<and> qs_cancelled s'
    \<and> length (qs_workers s') = length (qs_workers s)"
proof -
  have r: "reachable W (StopQueue s)" using assms(2) step_stop by (rule reach_step)
  have c: "reachable W (cancel_queue t)" if "reachable W t" "qs_stopped t" for t
    using reach_step [OF that(1) step_cancel [OF that(2)]] .
  from assms(1) show ?thesis
  proof cases
    case (Shutdown_done k t)
    then show ?thesis using stopping_turns [OF Shutdown_done(3)] stopping_reachable [OF Shutdown_done(3) r] c
      by simp
  next
    case (Shutdown_expired k s1 m s2)
    have 1: "qs_stopped s1" "length (qs_workers s1) = length (qs_workers s)"
      using stopping_turns [OF Shutdown_expired(3)] by simp_all
    have "reachable W (cancel_queue s1)" using c stopping_reachable [OF Shutdown_expired(3) r] 1 by blast
    with stopping_reachable [OF Shutdown_expired(4)] have "reachable W s2" .
    moreover have "qs_stopped s2" "length (qs_workers s2) = length (qs_workers s)"
      using stopping_turns [OF Shutdown_expired(4)] 1 by simp_all
    ultimately show ?thesis using Shutdown_expired(2,5) c by simp
  qed
qed

lemma cut_off_costs_nothing:
  assumes "runQueued W env j = (req, result, next)" "env_ctx_err env" "dr_Status result \<noteq> DSuccess"
    "dr_Status result \<noteq> DError"
  shows "dr_Status result = DPending \<and> dr_Attempts result = qd_Attempts j \<and> next \<noteq> None"
  using assms
  by (auto simp: runQueued_def classify_def Let_def empty_result_def
      split: option.splits if_splits sum.splits prod.splits send_error.splits)

subsection \<open>Properties\<close>

text \<open>A run of the two workers of \<open>demo_run\<close>: the first gives its delivery back, the second leaves its loop.\<close>

definition demo_released :: queue_state where
  "demo_released = set_phase 0 Exited ((StopQueue demo_run)\<lparr>qs_db :=
     FinishDelivery (the (fst demo_claim)) (release_result (the (fst demo_claim))) (Some 70) 70 (qs_db demo_run)\<rparr>)"

definition demo_stopped :: queue_state where
  "demo_stopped = set_phase 1 Exited demo_released"

fun demo_stopping :: "nat \<Rightarrow> queue_state" where
  "demo_stopping 0 = StopQueue demo_run"
| "demo_stopping (Suc 0) = demo_released"
| "demo_stopping (Suc (Suc _)) = demo_stopped"

lemma demo_stopping_facts:
  "stopping_step demo_web (StopQueue demo_run) demo_released"
  "stopping_step demo_web demo_released demo_stopped"
  "stopping_step demo_web demo_stopped demo_stopped"
  "qs_workers demo_run = [Claimed (the (fst demo_claim)), AtTop]"
  "qs_workers demo_released = [Exited, AtTop]" "qs_workers demo_stopped = [Exited, Exited]"
proof -
  show w: "qs_workers demo_run = [Claimed (the (fst demo_claim)), AtTop]"
    by (simp add: demo_run_def set_phase_def demo_start_def)
  show r: "qs_workers demo_released = [Exited, AtTop]" by (simp add: demo_released_def set_phase_def w)
  show "qs_workers demo_stopped = [Exited, Exited]" by (simp add: demo_stopped_def set_phase_def r)
  have "step demo_web (StopQueue demo_run) demo_released"
    unfolding demo_released_def
    using step_release [of 0 "StopQueue demo_run" "the (fst demo_claim)" demo_web 70 70] by (simp add: w)
  then show "stopping_step demo_web (StopQueue demo_run) demo_released"
    by (simp add: stopping_step_def demo_released_def)
  have "step demo_web demo_released demo_stopped"
  proof -
    have "qs_stopped demo_released" by (simp add: demo_released_def)
    with step_check [of 1 demo_released demo_web] show ?thesis by (simp add: r demo_stopped_def)
  qed
  then show "stopping_step demo_web demo_released demo_stopped"
    by (simp add: stopping_step_def demo_stopped_def demo_released_def)
  have "StopQueue demo_stopped = demo_stopped" by (simp add: StopQueue_def demo_stopped_def demo_released_def set_phase_def)
  with step_stop [of demo_web demo_stopped] have "step demo_web demo_stopped demo_stopped" by simp
  moreover have "qs_stopped demo_stopped" by (simp add: demo_stopped_def demo_released_def)
  ultimately show "stopping_step demo_web demo_stopped demo_stopped" by (simp add: stopping_step_def)
qed

text \<open>
  C5: A stopped queue comes to rest: in every endless run after \<open>StopQueue\<close>, with the other parts of the
  program still working on the tables and with or without a cancellation, in which the process goes on
  and some worker moves again as long as one has not returned (requests end and goroutines are
  scheduled), all workers return and stay so; and from then on a delivery is in progress only if its
  result could not be saved.
\<close>

theorem shutdown_ends:
  assumes "reachable W s" "f 0 = StopQueue s"
    and steps: "\<forall>n. stopping_step W (f n) (f (Suc n)) \<or> f (Suc n) = cancel_queue (f n)"
    and fair: "\<forall>n. \<not> queue_done (f n) \<longrightarrow> (\<exists>m\<ge>n. qs_workers (f (Suc m)) \<noteq> qs_workers (f m))"
  shows "\<exists>n. \<forall>m\<ge>n. queue_done (f m) \<and>
    {d. qstat (qs_db (f m)) d = Some DInProgress} \<subseteq> qs_orphans (f m)"
proof -
  have st: "reachable W (f n) \<and> qs_stopped (f n)" for n
  proof (induction n)
    case 0
    then show ?case using reach_step [OF assms(1) step_stop] by (simp add: assms(2))
  next
    case (Suc n)
    from steps have "stopping_step W (f n) (f (Suc n)) \<or> f (Suc n) = cancel_queue (f n)" by blast
    then show ?case
    proof
      assume "stopping_step W (f n) (f (Suc n))"
      with Suc show ?thesis by (auto simp: stopping_step_def intro: reach_step)
    next
      assume "f (Suc n) = cancel_queue (f n)"
      with Suc reach_step [OF _ step_cancel, of W "f n"] show ?thesis by simp
    qed
  qed
  have le: "turns_left (f (Suc n)) \<le> turns_left (f n) \<and>
      (qs_workers (f (Suc n)) \<noteq> qs_workers (f n) \<longrightarrow> turns_left (f (Suc n)) < turns_left (f n))" for n
  proof -
    from steps have "stopping_step W (f n) (f (Suc n)) \<or> f (Suc n) = cancel_queue (f n)" by blast
    then show ?thesis
    proof
      assume "stopping_step W (f n) (f (Suc n))"
      from stopping_step_turns [OF this] st show ?thesis by (auto split: if_splits)
    qed simp
  qed
  have mono: "turns_left (f m) \<le> turns_left (f n)" if "n \<le> m" for n m
    using that by (induction rule: dec_induct) (use le in \<open>auto intro: order_trans\<close>)
  have "\<exists>n. queue_done (f n)"
  proof (rule ccontr)
    assume no: "\<nexists>n. queue_done (f n)"
    have "\<exists>m\<ge>n. turns_left (f m) + k \<le> turns_left (f n)" for n k
    proof (induction k)
      case (Suc k)
      then obtain m where m: "m \<ge> n" "turns_left (f m) + k \<le> turns_left (f n)" by blast
      obtain l where l: "l \<ge> m" "qs_workers (f (Suc l)) \<noteq> qs_workers (f l)" using fair no by blast
      have "turns_left (f (Suc l)) < turns_left (f m)" using le [of l] l mono [OF l(1)] by auto
      with m l show ?case by (intro exI [of _ "Suc l"]) simp
    qed auto
    from this [of 0 "Suc (turns_left (f 0))"] show False by auto
  qed
  then obtain n where "turns_left (f n) = 0" by (auto simp: turns_left_zero)
  then have dn: "queue_done (f m)" if "n \<le> m" for m
    using mono [OF that] by (simp add: turns_left_zero [symmetric])
  show ?thesis
    using dn queue_done_settled st by (intro exI [of _ n]) (fastforce simp: unfinished_status_def)
qed

theorem shutdown_ends_witness:
  "\<exists>n. \<forall>m\<ge>n. queue_done (demo_stopping m) \<and>
    {d. qstat (qs_db (demo_stopping m)) d = Some DInProgress} \<subseteq> qs_orphans (demo_stopping m)"
proof (rule shutdown_ends [where W = demo_web, OF demo_run_reachable])
  show "demo_stopping 0 = StopQueue demo_run" by simp
  show "\<forall>n. stopping_step demo_web (demo_stopping n) (demo_stopping (Suc n)) \<or>
      demo_stopping (Suc n) = cancel_queue (demo_stopping n)"
  proof
    fix n
    show "stopping_step demo_web (demo_stopping n) (demo_stopping (Suc n)) \<or>
        demo_stopping (Suc n) = cancel_queue (demo_stopping n)"
      using demo_stopping_facts by (cases n rule: demo_stopping.cases) simp_all
  qed
  have "\<not> queue_done (demo_stopping n) \<Longrightarrow> n \<le> 1" for n
    using demo_stopping_facts(6) by (cases n rule: demo_stopping.cases) (simp_all add: queue_done_def)
  moreover have "qs_workers (demo_stopping (Suc 1)) \<noteq> qs_workers (demo_stopping 1)"
    using demo_stopping_facts(5,6) by simp
  ultimately show "\<forall>n. \<not> queue_done (demo_stopping n) \<longrightarrow>
      (\<exists>m\<ge>n. qs_workers (demo_stopping (Suc m)) \<noteq> qs_workers (demo_stopping m))" by blast
qed

text \<open>
  C6: \<open>Shutdown\<close> of a queue in any reachable state can run to its end without its deadline, its workers
  moving at most twice each while it waits; and however it ends, every worker has returned, the requests
  are cancelled, every unfinished delivery is pending or among those whose result could not be saved, and
  starting again, with any number of workers, has all of them pending.
\<close>

theorem Shutdown_settles:
  assumes "reachable W s"
  shows "(\<exists>s'. Shutdown W s None s')
    \<and> (\<forall>e s'. Shutdown W s e s' \<longrightarrow> queue_done s' \<and> qs_stopped s' \<and> qs_cancelled s'
        \<and> (\<forall>d st. qstat (qs_db s') d = Some st \<and> unfinished_status st \<longrightarrow> st = DPending \<or> d \<in> qs_orphans s')
        \<and> (\<forall>n s''. StartQueue n (qs_db s') = Inr s'' \<longrightarrow> reachable W s'' \<and>
             (\<forall>d. qstat (qs_db s'') d = Some DPending \<longleftrightarrow>
               (\<exists>st. qstat (qs_db s') d = Some st \<and> unfinished_status st))))
    \<and> (\<forall>k s'. stopping W k (StopQueue s) s' \<longrightarrow> k \<le> 2 * length (qs_workers s))"
proof (intro conjI allI impI)
  obtain k s' where "stopping W k (StopQueue s) s'" "queue_done s'"
    using stopping_completes [of "StopQueue s" W] by auto
  then show "\<exists>s'. Shutdown W s None s'" using Shutdown_done by blast
next
  fix e s' n s'' d
  assume sh: "Shutdown W s e s'" and start: "StartQueue n (qs_db s') = Inr s''"
  show "reachable W s''" using Shutdown_reachable [OF sh assms] step_restart [OF start] by (blast intro: reach_step)
  have "qs_db s'' = RecoverDeliveries (qs_db s')" using start by (auto simp: StartQueue_def split: if_splits)
  then show "qstat (qs_db s'') d = Some DPending \<longleftrightarrow>
      (\<exists>st. qstat (qs_db s') d = Some st \<and> unfinished_status st)"
    by (cases "qstat (qs_db s') d") (auto simp: queue_store.recover_view unfinished_status_def)
next
  fix k s' assume "stopping W k (StopQueue s) s'"
  then have "k + turns_left s' \<le> turns_left s" using stopping_turns by fastforce
  then show "k \<le> 2 * length (qs_workers s)" using turns_left_bound [of s] by simp
qed (use Shutdown_reachable [OF _ assms] queue_done_settled in blast)+
theorem Shutdown_settles_witness:
  "queue_done (cancel_queue demo_stopped) \<and> (case StartQueue 1 (qs_db (cancel_queue demo_stopped)) of Inl _ \<Rightarrow> False
     | Inr s \<Rightarrow> qstat (qs_db s) ''ii'' = Some DPending)"
proof -
  have "stopping demo_web (Suc (Suc 0)) (StopQueue demo_run) demo_stopped"
    by (rule stopping_turn [OF stopping_turn [OF stopping_refl demo_stopping_facts(1)] demo_stopping_facts(2)])
      (simp_all add: demo_stopping_facts)
  moreover have "queue_done demo_stopped" using demo_stopping_facts(6) by (simp add: queue_done_def)
  ultimately have sh: "Shutdown demo_web demo_run None (cancel_queue demo_stopped)" by (rule Shutdown_done)
  have "qstat (qs_db demo_run) ''ii'' = Some DInProgress" "qd_ID (the (fst demo_claim)) = ''ii''"
    by (simp_all add: demo_run_def) code_simp+
  then have "qstat (qs_db (cancel_queue demo_stopped)) ''ii'' = Some DPending"
    by (simp add: demo_stopped_def demo_released_def qstat_FinishDelivery release_result_def empty_result_def)
  then have u: "\<exists>st. qstat (qs_db (cancel_queue demo_stopped)) ''ii'' = Some st \<and> unfinished_status st"
    by (simp add: unfinished_status_def)
  obtain s where s: "StartQueue 1 (qs_db (cancel_queue demo_stopped)) = Inr s" by (simp add: StartQueue_def)
  have "queue_done (cancel_queue demo_stopped) \<and> qstat (qs_db s) ''ii'' = Some DPending"
    using Shutdown_settles [OF demo_run_reachable] sh s u by blast
  with s show ?thesis by simp
qed

end
