(* ===== verification/Migrate.thy ===== *)
theory Migrate
  imports StoreInv
begin

section \<open>Opening the database (\<open>Open\<close> and \<open>migrate\<close> of \<open>internal/storage/store.go\<close>)\<close>

text \<open>
  \<open>Store\<close> takes the tables with all their columns as given; here is what puts the columns there. A
  database file is its tables, each with its columns and its rows, and its indexes; \<open>migrate\<close> runs the
  statements of the schema and then adds the columns that came after the first release, each of which a
  database may have or not. Names, \<open>NOT NULL\<close> and defaults are kept of a column's declaration: keys and
  references are in the statements of \<open>Store\<close>, and SQLite does not enforce the types.
\<close>

subsection \<open>Statements\<close>

record column =
  c_name :: string
  c_notnull :: bool
  c_default :: "string option"

text \<open>A row gives each column its value, \<open>None\<close> for NULL.\<close>

record sql_table =
  tb_columns :: "column list"
  tb_rows :: "(string \<rightharpoonup> string) list"

record db_file =
  df_tables :: "string \<rightharpoonup> sql_table"
  df_indexes :: "string \<rightharpoonup> string \<times> string list"

datatype statement =
    CreateTable string "column list"
  | CreateIndex string string "string list"
  | AddColumn string column

definition columns :: "sql_table \<Rightarrow> string set" where
  "columns tb = c_name ` set (tb_columns tb)"

text \<open>One statement, with the error messages of SQLite; the first two are \<open>IF NOT EXISTS\<close>.\<close>

fun exec :: "statement \<Rightarrow> db_file \<Rightarrow> (string, db_file) result" where
  "exec (CreateTable n cols) s =
     (case df_tables s n of
        Some _ \<Rightarrow> Inr s
      | None \<Rightarrow> Inr (s\<lparr>df_tables := (df_tables s)(n \<mapsto> \<lparr>tb_columns = cols, tb_rows = []\<rparr>)\<rparr>))"
| "exec (CreateIndex i n cols) s =
     (if df_indexes s i \<noteq> None then Inr s
      else case df_tables s n of
        None \<Rightarrow> Inl (''no such table: main.'' @ n)
      | Some tb \<Rightarrow>
          (case filter (\<lambda>c. c \<notin> columns tb) cols of
             c # _ \<Rightarrow> Inl (''table '' @ n @ '' has no column named '' @ c)
           | [] \<Rightarrow> Inr (s\<lparr>df_indexes := (df_indexes s)(i \<mapsto> (n, cols))\<rparr>)))"
| "exec (AddColumn n c) s =
     (case df_tables s n of
        None \<Rightarrow> Inl (''no such table: '' @ n)
      | Some tb \<Rightarrow>
          if c_name c \<in> columns tb then Inl (''duplicate column name: '' @ c_name c)
          else if c_notnull c \<and> c_default c = None
          then Inl ''Cannot add a NOT NULL column with default value NULL''
          else Inr (s\<lparr>df_tables := (df_tables s)(n \<mapsto>
            \<lparr>tb_columns = tb_columns tb @ [c], tb_rows = map (\<lambda>r. r(c_name c := c_default c)) (tb_rows tb)\<rparr>)\<rparr>))"

text \<open>Several statements in one call of \<open>Exec\<close>: the first error ends it, what was done before stays.\<close>

fun exec_all :: "statement list \<Rightarrow> db_file \<Rightarrow> string option \<times> db_file" where
  "exec_all [] s = (None, s)"
| "exec_all (st # sts) s = (case exec st s of Inl e \<Rightarrow> (Some e, s) | Inr s' \<Rightarrow> exec_all sts s')"

subsection \<open>The schema\<close>

definition required :: "string \<Rightarrow> column" where
  "required n = \<lparr>c_name = n, c_notnull = True, c_default = None\<rparr>"

definition defaulted :: "string \<Rightarrow> string \<Rightarrow> column" where
  "defaulted n d = \<lparr>c_name = n, c_notnull = True, c_default = Some d\<rparr>"

definition nullable :: "string \<Rightarrow> column" where
  "nullable n = \<lparr>c_name = n, c_notnull = False, c_default = None\<rparr>"

definition schema :: "statement list" where
  "schema = [
     CreateTable ''emails'' [nullable ''id'', required ''received_at'', required ''envelope_from'',
       required ''envelope_to'', defaulted ''subject'' [], defaulted ''status'' ''received'',
       defaulted ''rejection_reason'' [], required ''parsed_email'', nullable ''auth_result''],
     CreateIndex ''idx_emails_received_at'' ''emails'' [''received_at''],
     CreateIndex ''idx_emails_status'' ''emails'' [''status''],
     CreateTable ''deliveries'' [nullable ''id'', required ''email_id'', required ''rule_name'',
       required ''status'', defaulted ''status_code'' ''0'', defaulted ''error_message'' [],
       defaulted ''attempts'' ''0'', required ''created_at'', required ''updated_at''],
     CreateIndex ''idx_deliveries_email_id'' ''deliveries'' [''email_id''],
     CreateTable ''delivery_queue'' [nullable ''delivery_id'', required ''batch_id'', required ''email_id'',
       required ''snapshot'', required ''next_attempt_at''],
     CreateIndex ''idx_delivery_queue_due'' ''delivery_queue'' [''next_attempt_at''],
     CreateIndex ''idx_delivery_queue_email'' ''delivery_queue'' [''email_id'', ''batch_id''],
     CreateTable ''rules'' [nullable ''id'', required ''name'', defaulted ''enabled'' ''1'',
       defaulted ''match_config'' ''{}'', defaulted ''webhook_config'' ''{}'', defaulted ''position'' ''0'',
       required ''created_at'', required ''updated_at''],
     CreateTable ''settings'' [nullable ''id'', required ''config_json'', required ''updated_at'']]"

definition added_columns :: "statement list" where
  "added_columns = [
     AddColumn ''emails'' (defaulted ''delivery_batch'' []),
     AddColumn ''emails'' (defaulted ''rejection_reason'' []),
     AddColumn ''deliveries'' (defaulted ''response_body'' []),
     AddColumn ''emails'' (defaulted ''header_from'' []),
     AddColumn ''emails'' (defaulted ''header_to'' ''[]'')]"

text \<open>The loop over the columns added later: an error that says the column is there is passed over.\<close>

fun add_columns :: "statement list \<Rightarrow> db_file \<Rightarrow> string option \<times> db_file" where
  "add_columns [] s = (None, s)"
| "add_columns (st # sts) s =
     (case exec st s of
        Inl e \<Rightarrow> if \<not> sublist ''duplicate column name'' e then (Some e, s) else add_columns sts s
      | Inr s' \<Rightarrow> add_columns sts s')"

definition migrate :: "db_file \<Rightarrow> string option \<times> db_file" where
  "migrate s =
     (case exec_all schema s of
        (Some e, s) \<Rightarrow> (Some e, s)
      | (None, s) \<Rightarrow> add_columns added_columns s)"

text \<open>\<open>Open\<close>, with the error \<open>sql.Open\<close> may return; the pragmas are those \<open>Store\<close> assumes (foreign keys).\<close>

definition Open :: "string option \<Rightarrow> db_file \<Rightarrow> (string, unit) result \<times> db_file" where
  "Open opening s =
     (case opening of
        Some e \<Rightarrow> (Inl (''opening database: '' @ e), s)
      | None \<Rightarrow>
          (case migrate s of
             (Some e, s) \<Rightarrow> (Inl (''running migrations: '' @ e), s)
           | (None, s) \<Rightarrow> (Inr (), s)))"

subsection \<open>Statements that were carried out stay so\<close>

fun in_force :: "statement \<Rightarrow> db_file \<Rightarrow> bool" where
  "in_force (CreateTable n _) s = (df_tables s n \<noteq> None)"
| "in_force (CreateIndex i _ _) s = (df_indexes s i \<noteq> None)"
| "in_force (AddColumn n c) s = (case df_tables s n of None \<Rightarrow> False | Some tb \<Rightarrow> c_name c \<in> columns tb)"

lemma exec_in_force: "exec st s = Inr s' \<Longrightarrow> in_force st s'"
  by (cases st) (auto simp: columns_def split: option.splits if_splits list.splits)

lemma in_force_exec: "in_force st' s \<Longrightarrow> exec st s = Inr s' \<Longrightarrow> in_force st' s'"
  by (cases st; cases st') (auto simp: columns_def split: option.splits if_splits list.splits)

lemma in_force_schema: "in_force st s \<Longrightarrow> \<forall>n c. st \<noteq> AddColumn n c \<Longrightarrow> exec st s = Inr s"
  by (cases st) auto

lemma exec_all_in_force: "\<forall>st\<in>set sts. in_force st s \<and> (\<forall>n c. st \<noteq> AddColumn n c) \<Longrightarrow> exec_all sts s = (None, s)"
  by (induction sts) (auto simp: in_force_schema)

lemma duplicate_tolerated: "sublist ''duplicate column name'' (''duplicate column name: '' @ n)"
proof -
  have "''duplicate column name: '' @ n = [] @ ''duplicate column name'' @ ('': '' @ n)" by simp
  then show ?thesis unfolding sublist_def by blast
qed

lemma add_columns_in_force:
  "\<forall>st\<in>set sts. in_force st s \<and> (\<exists>n c. st = AddColumn n c) \<Longrightarrow> add_columns sts s = (None, s)"
proof (induction sts)
  case (Cons st sts)
  then obtain n c where st: "st = AddColumn n c" "in_force st s" by auto
  then have "exec st s = Inl (''duplicate column name: '' @ c_name c)" by (auto split: option.splits)
  with Cons show ?case by (simp only: add_columns.simps sum.case duplicate_tolerated) simp
qed simp

lemma exec_all_puts_in_force:
  "exec_all sts s = (None, s') \<Longrightarrow> (\<forall>st\<in>set sts. in_force st s') \<and> (\<forall>st. in_force st s \<longrightarrow> in_force st s')"
proof (induction sts arbitrary: s)
  case (Cons st sts)
  then obtain t where t: "exec st s = Inr t" "exec_all sts t = (None, s')" by (auto split: sum.splits)
  with Cons.IH [OF t(2)] show ?case using exec_in_force [OF t(1)] in_force_exec [OF _ t(1)] by auto
qed simp

subsection \<open>Rows are kept\<close>

text \<open>
  \<open>grows\<close>: every table is still there with its columns and its rows, and where it has more columns, a row
  holds in each of them the default of a column added later.
\<close>

definition row_grows :: "string \<Rightarrow> sql_table \<Rightarrow> sql_table \<Rightarrow> (string \<rightharpoonup> string) \<Rightarrow> (string \<rightharpoonup> string) \<Rightarrow> bool" where
  "row_grows n tb tb' r r' \<longleftrightarrow>
     (\<forall>c\<in>columns tb. r' c = r c)
     \<and> (\<forall>c\<in>columns tb' - columns tb. \<exists>col. AddColumn n col \<in> set added_columns \<and> c_name col = c \<and> r' c = c_default col)"

definition grows :: "db_file \<Rightarrow> db_file \<Rightarrow> bool" where
  "grows s s' \<longleftrightarrow> (\<forall>n tb. df_tables s n = Some tb \<longrightarrow>
     (\<exists>tb'. df_tables s' n = Some tb' \<and> columns tb \<subseteq> columns tb'
        \<and> list_all2 (row_grows n tb tb') (tb_rows tb) (tb_rows tb')))"

lemma grows_refl [simp]: "grows s s"
  by (auto simp: grows_def row_grows_def list_all2_same)

lemma grows_trans:
  assumes "grows s t" "grows t u"
  shows "grows s u"
  unfolding grows_def
proof (intro allI impI)
  fix n tb assume "df_tables s n = Some tb"
  then obtain tb' where 1: "df_tables t n = Some tb'" "columns tb \<subseteq> columns tb'"
    "list_all2 (row_grows n tb tb') (tb_rows tb) (tb_rows tb')" using assms(1) unfolding grows_def by blast
  then obtain tb'' where 2: "df_tables u n = Some tb''" "columns tb' \<subseteq> columns tb''"
    "list_all2 (row_grows n tb' tb'') (tb_rows tb') (tb_rows tb'')" using assms(2) unfolding grows_def by blast
  have "row_grows n tb tb'' r r''" if r: "row_grows n tb tb' r r'" "row_grows n tb' tb'' r' r''" for r r' r''
    unfolding row_grows_def
  proof (intro conjI ballI)
    fix c assume "c \<in> columns tb'' - columns tb"
    then consider "c \<in> columns tb' - columns tb" | "c \<in> columns tb'' - columns tb'" by blast
    then show "\<exists>col. AddColumn n col \<in> set added_columns \<and> c_name col = c \<and> r'' c = c_default col"
      using r by cases (auto simp: row_grows_def)
  qed (use r 1(2) in \<open>auto simp: row_grows_def\<close>)
  then have "list_all2 (row_grows n tb tb'') (tb_rows tb) (tb_rows tb'')"
    using list_all2_trans [OF _ 1(3) 2(3)] by blast
  with 1 2 show "\<exists>tb''. df_tables u n = Some tb'' \<and> columns tb \<subseteq> columns tb''
      \<and> list_all2 (row_grows n tb tb'') (tb_rows tb) (tb_rows tb'')" by blast
qed

lemma exec_grows:
  assumes "exec st s = Inr s'" "\<forall>n c. st = AddColumn n c \<longrightarrow> st \<in> set added_columns"
  shows "grows s s'"
proof (cases st)
  case (CreateTable n cols)
  with assms(1) show ?thesis
    by (auto simp: grows_def row_grows_def list_all2_same split: option.splits)
next
  case (CreateIndex i n cols)
  with assms(1) have "df_tables s' = df_tables s" by (auto split: option.splits if_splits list.splits)
  then show ?thesis by (auto simp: grows_def row_grows_def list_all2_same)
next
  case (AddColumn n c)
  with assms obtain tb where tb: "df_tables s n = Some tb" "c_name c \<notin> columns tb"
    "df_tables s' = (df_tables s)(n \<mapsto> \<lparr>tb_columns = tb_columns tb @ [c],
       tb_rows = map (\<lambda>r. r(c_name c := c_default c)) (tb_rows tb)\<rparr>)" "AddColumn n c \<in> set added_columns"
    by (auto split: option.splits if_splits)
  let ?tb = "\<lparr>tb_columns = tb_columns tb @ [c], tb_rows = map (\<lambda>r. r(c_name c := c_default c)) (tb_rows tb)\<rparr>"
  have "columns ?tb = insert (c_name c) (columns tb)" by (auto simp: columns_def)
  with tb have "list_all2 (row_grows n tb ?tb) (tb_rows tb) (tb_rows ?tb)" "columns tb \<subseteq> columns ?tb"
    by (auto simp: list_all2_map2 list_all2_same row_grows_def)
  with tb(1,3) show ?thesis
    by (auto simp: grows_def row_grows_def list_all2_same)
qed

subsection \<open>Databases of every release\<close>

text \<open>
  What a database may be when it is opened: each table that is there was made by some release, so it has
  at least the columns of the first one, which are those of the schema less the columns added later.
\<close>

definition first_columns :: "string \<Rightarrow> string list" where
  "first_columns n =
     concat (map (\<lambda>st. case st of CreateTable m cols \<Rightarrow>
         if m = n then filter (\<lambda>c. c \<notin> set (concat (map (\<lambda>st. case st of AddColumn k col \<Rightarrow>
             if k = n then [c_name col] else [] | _ \<Rightarrow> []) added_columns))) (map c_name cols)
         else [] | _ \<Rightarrow> []) schema)"

definition released :: "db_file \<Rightarrow> bool" where
  "released s \<longleftrightarrow> (\<forall>n tb. df_tables s n = Some tb \<longrightarrow> set (first_columns n) \<subseteq> columns tb)"

text \<open>Statements that only use tables made before them (in \<open>T\<close>), with columns of the first release.\<close>

fun in_order :: "string list \<Rightarrow> statement list \<Rightarrow> bool" where
  "in_order T [] = True"
| "in_order T (CreateTable n cols # sts) =
     (list_all (\<lambda>c. c \<in> set (map c_name cols)) (first_columns n) \<and> in_order (n # T) sts)"
| "in_order T (CreateIndex i n cols # sts) =
     (n \<in> set T \<and> list_all (\<lambda>c. c \<in> set (first_columns n)) cols \<and> in_order T sts)"
| "in_order T (AddColumn n c # sts) = (n \<in> set T \<and> AddColumn n c \<in> set added_columns \<and> c_default c \<noteq> None \<and> in_order T sts)"

lemma schema_in_order: "in_order [] schema"
  by code_simp

lemma added_in_order: "in_order [''emails'', ''deliveries''] added_columns"
  by code_simp

lemma grows_released: "grows s s' \<Longrightarrow> released s \<Longrightarrow> dom (df_tables s') \<subseteq> dom (df_tables s) \<Longrightarrow> released s'"
  by (fastforce simp: grows_def released_def)

lemma exec_in_order:
  assumes "in_order T (st # sts)" "released s" "set T \<subseteq> dom (df_tables s)"
  shows "(case exec st s of Inl e \<Rightarrow> in_force st s \<and> (\<exists>n c. st = AddColumn n c \<and> e = ''duplicate column name: '' @ c_name c)
      | Inr s' \<Rightarrow> released s' \<and> grows s s' \<and> dom (df_tables s) \<subseteq> dom (df_tables s'))
    \<and> (\<forall>n cols. st = CreateTable n cols \<longrightarrow> (\<exists>s'. exec st s = Inr s' \<and> df_tables s' n \<noteq> None))"
proof (cases st)
  case (CreateTable n cols)
  have "set (first_columns n) \<subseteq> columns \<lparr>tb_columns = cols, tb_rows = []\<rparr>"
    using assms(1) by (auto simp: CreateTable columns_def list_all_iff)
  with assms(2) CreateTable exec_grows [of st s] show ?thesis
    by (auto simp: released_def split: option.splits if_splits)
next
  case (CreateIndex i n cols)
  obtain tb where tb: "df_tables s n = Some tb" using assms(1,3) CreateIndex by auto
  have "set cols \<subseteq> columns tb"
    using assms(1,2) tb by (auto simp: CreateIndex list_all_iff released_def)
  then have "filter (\<lambda>c. c \<notin> columns tb) cols = []" by (auto simp: filter_empty_conv)
  with assms(2) CreateIndex tb exec_grows [of st s] show ?thesis
    by (auto simp: released_def)
next
  case (AddColumn n c)
  obtain tb where tb: "df_tables s n = Some tb" using assms(1,3) AddColumn by auto
  show ?thesis
  proof (cases "exec st s")
    case (Inl e)
    with AddColumn tb assms(1) show ?thesis by (auto split: if_splits)
  next
    case (Inr s')
    have g: "grows s s'" using exec_grows [OF Inr] assms(1) AddColumn by auto
    have "dom (df_tables s') = dom (df_tables s)" using Inr AddColumn tb by (auto split: if_splits)
    with g grows_released [OF g assms(2)] Inr AddColumn show ?thesis by auto
  qed
qed

lemma exec_all_in_order:
  assumes "in_order T sts" "\<forall>n c. AddColumn n c \<notin> set sts" "released s" "set T \<subseteq> dom (df_tables s)"
  shows "\<exists>s'. exec_all sts s = (None, s') \<and> released s' \<and> grows s s'"
  using assms
proof (induction sts arbitrary: T s)
  case (Cons st sts)
  note ok = exec_in_order [OF Cons.prems(1,3,4)]
  obtain t where t: "exec st s = Inr t" using ok Cons.prems(2) by (cases "exec st s") auto
  have r: "released t" "grows s t" "dom (df_tables s) \<subseteq> dom (df_tables t)" using ok t by auto
  obtain T' where T': "in_order T' sts" "set T' \<subseteq> dom (df_tables t)"
  proof (cases st)
    case (CreateTable n cols)
    then have "df_tables t n \<noteq> None" using ok t by auto
    moreover have "set T \<subseteq> dom (df_tables t)" using Cons.prems(4) r(3) by (rule subset_trans)
    ultimately have "set (n # T) \<subseteq> dom (df_tables t)" by (simp add: domIff)
    then show ?thesis using that [of "n # T"] Cons.prems(1) CreateTable by simp
  next
    case (CreateIndex i n cols)
    have "set T \<subseteq> dom (df_tables t)" using Cons.prems(4) r(3) by (rule subset_trans)
    then show ?thesis using that [of T] Cons.prems(1) CreateIndex by simp
  qed (use Cons.prems(2) in auto)
  from Cons.IH [OF T'(1) _ r(1) T'(2)] Cons.prems(2)
  obtain s' where "exec_all sts t = (None, s')" "released s'" "grows t s'" by auto
  with t r(2) grows_trans show ?case by auto
qed simp

lemma add_columns_in_order:
  assumes "in_order T sts" "\<forall>st\<in>set sts. \<exists>n c. st = AddColumn n c" "released s" "set T \<subseteq> dom (df_tables s)"
  shows "\<exists>s'. add_columns sts s = (None, s') \<and> grows s s' \<and> released s'
    \<and> (\<forall>st\<in>set sts. in_force st s') \<and> (\<forall>st. in_force st s \<longrightarrow> in_force st s')"
  using assms
proof (induction sts arbitrary: s)
  case (Cons st sts)
  note ok = exec_in_order [OF Cons.prems(1,3,4)]
  have o: "in_order T sts" using Cons.prems(1,2) by auto
  have kinds: "\<forall>st\<in>set sts. \<exists>n c. st = AddColumn n c" using Cons.prems(2) by simp
  show ?case
  proof (cases "exec st s")
    case (Inl e)
    then have e: "sublist ''duplicate column name'' e" "in_force st s" using ok duplicate_tolerated by auto
    from Cons.IH [OF o kinds Cons.prems(3,4)] obtain s' where "add_columns sts s = (None, s')" "grows s s'"
      "released s'" "\<forall>st\<in>set sts. in_force st s'" "\<forall>st. in_force st s \<longrightarrow> in_force st s'" by blast
    with e Inl show ?thesis by simp
  next
    case (Inr t)
    then have r: "released t" "grows s t" "dom (df_tables s) \<subseteq> dom (df_tables t)" using ok by simp_all
    from Cons.IH [OF o kinds r(1) subset_trans [OF Cons.prems(4) r(3)]]
    obtain s' where s': "add_columns sts t = (None, s')" "grows t s'" "released s'"
      "\<forall>st\<in>set sts. in_force st s'" "\<forall>st. in_force st t \<longrightarrow> in_force st s'" by blast
    have "grows s s'" using r(2) s'(2) by (rule grows_trans)
    with s' Inr exec_in_force [OF Inr] in_force_exec [OF _ Inr] show ?thesis by auto
  qed
qed simp

subsection \<open>Properties\<close>

text \<open>The columns that the statements of the store name, table by table.\<close>

definition used_columns :: "(string \<times> string list) list" where
  "used_columns = [
     (''emails'', [''id'', ''received_at'', ''envelope_from'', ''envelope_to'', ''header_from'', ''header_to'',
        ''subject'', ''status'', ''rejection_reason'', ''parsed_email'', ''auth_result'', ''delivery_batch'']),
     (''deliveries'', [''id'', ''email_id'', ''rule_name'', ''status'', ''status_code'', ''error_message'',
        ''response_body'', ''attempts'', ''created_at'', ''updated_at'']),
     (''delivery_queue'', [''delivery_id'', ''batch_id'', ''email_id'', ''snapshot'', ''next_attempt_at'']),
     (''rules'', [''id'', ''name'', ''enabled'', ''match_config'', ''webhook_config'', ''position'',
        ''created_at'', ''updated_at'']),
     (''settings'', [''id'', ''config_json'', ''updated_at''])]"

definition has_columns :: "db_file \<Rightarrow> string \<times> string list \<Rightarrow> bool" where
  "has_columns s tc = (case df_tables s (fst tc) of None \<Rightarrow> False | Some tb \<Rightarrow> set (snd tc) \<subseteq> columns tb)"

text \<open>Each of them is of the first release or added later.\<close>

lemma used_columns_made:
  "list_all (\<lambda>(n, cs). list_ex (\<lambda>st. case st of CreateTable m _ \<Rightarrow> m = n | _ \<Rightarrow> False) schema
     \<and> list_all (\<lambda>c. c \<in> set (first_columns n)
          \<or> list_ex (\<lambda>st. case st of AddColumn m col \<Rightarrow> m = n \<and> c_name col = c | _ \<Rightarrow> False) added_columns) cs)
     used_columns"
  by code_simp

lemma in_force_columns:
  assumes "\<forall>st\<in>set schema. in_force st s" "\<forall>st\<in>set added_columns. in_force st s" "released s" "(n, cs) \<in> set used_columns"
  shows "has_columns s (n, cs)"
proof -
  have u: "list_ex (\<lambda>st. case st of CreateTable m _ \<Rightarrow> m = n | _ \<Rightarrow> False) schema"
    "\<forall>c\<in>set cs. c \<in> set (first_columns n)
        \<or> list_ex (\<lambda>st. case st of AddColumn m col \<Rightarrow> m = n \<and> c_name col = c | _ \<Rightarrow> False) added_columns"
    using used_columns_made assms(4) by (auto simp only: list_all_iff split: prod.splits)
  from u(1) obtain st where "st \<in> set schema" "case st of CreateTable m _ \<Rightarrow> m = n | _ \<Rightarrow> False"
    by (auto simp only: list_ex_iff)
  with assms(1) obtain tb where tb: "df_tables s n = Some tb" by (cases st) force+
  have "c \<in> columns tb" if "c \<in> set cs" for c
  proof -
    from u(2) that consider "c \<in> set (first_columns n)"
      | st where "st \<in> set added_columns" "case st of AddColumn m col \<Rightarrow> m = n \<and> c_name col = c | _ \<Rightarrow> False"
      by (auto simp only: list_ex_iff)
    then show ?thesis
    proof cases
      case 1
      with assms(3) tb show ?thesis by (auto simp: released_def)
    next
      case 2
      with assms(2) have "in_force st s" by blast
      with 2(2) tb show ?thesis by (cases st) simp_all
    qed
  qed
  then show ?thesis using tb by (auto simp: has_columns_def)
qed

lemma statement_kinds:
  "\<forall>n c. AddColumn n c \<notin> set schema" "\<forall>st\<in>set added_columns. \<exists>n c. st = AddColumn n c"
  by (simp_all add: schema_def added_columns_def)


text \<open>A file of the first release, with one email and nothing else.\<close>

definition demo_first_row :: "string \<rightharpoonup> string" where
  "demo_first_row = Map.empty(''id'' \<mapsto> ''m1'', ''received_at'' \<mapsto> ''60'', ''envelope_from'' \<mapsto> ''a@x'',
     ''envelope_to'' \<mapsto> ''[]'', ''subject'' \<mapsto> ''hi'', ''status'' \<mapsto> ''delivered'', ''parsed_email'' \<mapsto> ''{}'')"

definition demo_first_file :: db_file where
  "demo_first_file = \<lparr>df_tables = [''emails'' \<mapsto> \<lparr>tb_columns = map required [''id'', ''received_at'',
     ''envelope_from'', ''envelope_to'', ''subject'', ''status'', ''parsed_email'', ''auth_result''],
     tb_rows = [demo_first_row]\<rparr>], df_indexes = Map.empty\<rparr>"

lemma demo_first_released: "released demo_first_file"
proof -
  have f: "first_columns ''emails'' = [''id'', ''received_at'', ''envelope_from'', ''envelope_to'', ''subject'', ''status'',
      ''parsed_email'', ''auth_result'']" by code_simp
  have "columns tb = set (first_columns ''emails'')" if "df_tables demo_first_file n = Some tb" for n tb
    unfolding f using that by (clarsimp simp: demo_first_file_def columns_def required_def split: if_splits)
  moreover have "n = ''emails''" if "df_tables demo_first_file n = Some tb" for n tb
    using that by (simp add: demo_first_file_def split: if_splits)
  ultimately show ?thesis unfolding released_def by blast
qed


end
