(* ===== verification/Events.thy ===== *)
theory Events
  imports Prelude
begin

section \<open>Live refresh of the web UI (\<open>EventBus\<close>, \<open>handleSSE\<close>)\<close>

text \<open>
  The bus of \<open>internal/webui/handler.go\<close>: a set of channels with room for one signal each, and the
  streams that \<open>handleSSE\<close> writes from them. A channel is its number, in the order of \<open>make\<close>; a signal
  carries nothing, so the buffer is full or empty. The streams are a transition system over the events
  of the bus, each one section under its mutex or one case of the \<open>select\<close> loop.
\<close>

record EventBus =
  eb_made :: nat
  eb_clients :: "(nat \<times> bool) list"

definition NewEventBus :: EventBus where
  "NewEventBus = \<lparr>eb_made = 0, eb_clients = []\<rparr>"

definition Subscribe :: "EventBus \<Rightarrow> nat \<times> EventBus" where
  "Subscribe b = (eb_made b, \<lparr>eb_made = Suc (eb_made b), eb_clients = eb_clients b @ [(eb_made b, False)]\<rparr>)"

text \<open>Closing a channel a second time panics, which is \<open>None\<close>; a channel is closed once it was deleted.\<close>

definition Unsubscribe :: "nat \<Rightarrow> EventBus \<Rightarrow> EventBus option" where
  "Unsubscribe ch b =
     (if ch \<in> fst ` set (eb_clients b) then Some (b\<lparr>eb_clients := filter (\<lambda>c. fst c \<noteq> ch) (eb_clients b)\<rparr>)
      else None)"

text \<open>A send that would block is given up: the client has a signal to read already.\<close>

definition Notify :: "EventBus \<Rightarrow> EventBus" where
  "Notify b = b\<lparr>eb_clients := map (\<lambda>(ch, _). (ch, True)) (eb_clients b)\<rparr>"

definition signalled :: "EventBus \<Rightarrow> nat \<Rightarrow> bool" where
  "signalled b ch = ((ch, True) \<in> set (eb_clients b))"

definition receive :: "nat \<Rightarrow> EventBus \<Rightarrow> EventBus option" where
  "receive ch b =
     (if signalled b ch
      then Some (b\<lparr>eb_clients := map (\<lambda>(c, f). (c, if c = ch then False else f)) (eb_clients b)\<rparr>)
      else None)"

subsection \<open>Streams\<close>

datatype frame = Connected | RefreshFrame | PingFrame

record streams =
  st_bus :: EventBus
  st_sent :: "nat \<Rightarrow> frame list"

datatype bus_event = Connect nat | Notified | Refresh nat | Ping nat | Disconnect nat

definition open_stream :: "streams \<Rightarrow> nat \<Rightarrow> bool" where
  "open_stream s ch = (ch \<in> fst ` set (eb_clients (st_bus s)))"

definition send_frame :: "nat \<Rightarrow> frame \<Rightarrow> streams \<Rightarrow> streams" where
  "send_frame ch f s = s\<lparr>st_sent := (st_sent s)(ch := st_sent s ch @ [f])\<rparr>"

text \<open>\<open>None\<close> when the event cannot happen: a case of \<open>select\<close> that is not ready, or a panic.\<close>

fun stream_step :: "bus_event \<Rightarrow> streams \<Rightarrow> streams option" where
  "stream_step (Connect ch) s =
     (let (c, b) = Subscribe (st_bus s) in
      if c = ch then Some (send_frame ch Connected (s\<lparr>st_bus := b\<rparr>)) else None)"
| "stream_step Notified s = Some (s\<lparr>st_bus := Notify (st_bus s)\<rparr>)"
| "stream_step (Refresh ch) s =
     map_option (\<lambda>b. send_frame ch RefreshFrame (s\<lparr>st_bus := b\<rparr>)) (receive ch (st_bus s))"
| "stream_step (Ping ch) s = (if open_stream s ch then Some (send_frame ch PingFrame s) else None)"
| "stream_step (Disconnect ch) s =
     (if open_stream s ch then map_option (\<lambda>b. s\<lparr>st_bus := b\<rparr>) (Unsubscribe ch (st_bus s)) else None)"

fun stream_run :: "bus_event list \<Rightarrow> streams option" where
  "stream_run [] = Some \<lparr>st_bus = NewEventBus, st_sent = (\<lambda>_. [])\<rparr>"
| "stream_run (e # es) = Option.bind (stream_run es) (stream_step e)"

subsection \<open>What a client is owed\<close>

text \<open>The events are listed latest first. A refresh is owed when something happened since the last one.\<close>

definition owed :: "nat \<Rightarrow> bus_event list \<Rightarrow> bool" where
  "owed ch es = (Notified \<in> set (takeWhile (\<lambda>e. e \<noteq> Connect ch \<and> e \<noteq> Refresh ch) es))"

lemma owed_Cons:
  "owed ch (e # es) \<longleftrightarrow> e = Notified \<or> e \<noteq> Connect ch \<and> e \<noteq> Refresh ch \<and> owed ch es"
  by (auto simp: owed_def)

definition bus_inv :: "EventBus \<Rightarrow> bool" where
  "bus_inv b \<longleftrightarrow> key_distinct fst (eb_clients b) \<and> (\<forall>(ch, _)\<in>set (eb_clients b). ch < eb_made b)"

lemma clients_Notify: "fst ` set (eb_clients (Notify b)) = fst ` set (eb_clients b)"
  by (force simp: Notify_def image_image split_def)

lemma bus_inv_Notify: "bus_inv b \<Longrightarrow> bus_inv (Notify b)"
  by (force simp: bus_inv_def Notify_def key_distinct_def split_def comp_def)

lemma receive_Some: "receive ch b = Some b' \<longleftrightarrow>
    signalled b ch \<and> b' = b\<lparr>eb_clients := map (\<lambda>c. (fst c, fst c \<noteq> ch \<and> snd c)) (eb_clients b)\<rparr>"
  by (auto simp: receive_def split_def)

lemma bus_inv_step:
  assumes "stream_step e s = Some s'" "bus_inv (st_bus s)"
  shows "bus_inv (st_bus s')"
  using assms
  by (cases e)
    (force simp: bus_inv_def Subscribe_def Notify_def receive_Some Unsubscribe_def send_frame_def
      key_distinct_def comp_def split_def Let_def image_iff distinct_map_filter split: if_splits)+

lemma signalled_Notify: "signalled (Notify b) ch \<longleftrightarrow> ch \<in> fst ` set (eb_clients b)"
  by (force simp: signalled_def Notify_def image_iff)

lemma signalled_step:
  assumes "stream_step e s = Some s'"
  shows "signalled (st_bus s') ch \<longleftrightarrow> (case e of
      Notified \<Rightarrow> open_stream s ch
    | Refresh c \<Rightarrow> c \<noteq> ch \<and> signalled (st_bus s) ch
    | Disconnect c \<Rightarrow> c \<noteq> ch \<and> signalled (st_bus s) ch
    | _ \<Rightarrow> signalled (st_bus s) ch)"
proof (cases e)
  case Notified
  with assms have "s' = s\<lparr>st_bus := Notify (st_bus s)\<rparr>" by simp
  then show ?thesis using Notified by (simp add: signalled_Notify open_stream_def)
next
  case (Refresh c)
  then show ?thesis using assms by (force simp: signalled_def receive_Some send_frame_def)
qed (use assms in \<open>auto simp: signalled_def open_stream_def Subscribe_def Unsubscribe_def send_frame_def
      Let_def split: if_splits\<close>)

lemma open_step:
  assumes "stream_step e s = Some s'"
  shows "open_stream s' ch \<longleftrightarrow> (case e of
      Connect c \<Rightarrow> c = ch \<or> open_stream s ch
    | Disconnect c \<Rightarrow> c \<noteq> ch \<and> open_stream s ch
    | _ \<Rightarrow> open_stream s ch)"
proof (cases e)
  case Notified
  with assms have "s' = s\<lparr>st_bus := Notify (st_bus s)\<rparr>" by simp
  then show ?thesis using Notified by (simp add: clients_Notify open_stream_def)
qed (use assms in \<open>force simp: open_stream_def Subscribe_def receive_Some Unsubscribe_def send_frame_def image_image
      split_def Let_def split: if_splits\<close>)+

lemma fresh_not_signalled: "bus_inv b \<Longrightarrow> \<not> signalled b (eb_made b)"
  by (auto simp: bus_inv_def signalled_def)

definition refreshes :: "streams \<Rightarrow> nat \<Rightarrow> nat" where
  "refreshes s ch = count_list (st_sent s ch) RefreshFrame"

lemma refreshes_step:
  "stream_step e s = Some s' \<Longrightarrow> refreshes s' ch = (if e = Refresh ch then Suc (refreshes s ch) else refreshes s ch)"
  by (cases e) (auto simp: refreshes_def send_frame_def Let_def split: prod.splits if_splits)

text \<open>
  C39: No refresh of the web UI is lost and none is made up. In every run, a connected browser has a signal
  waiting exactly when something changed after it connected and after its last refresh; then its stream
  can send the refresh, whatever the other clients do. It is never sent more refreshes than there were
  changes, and a change never blocks the program.
\<close>

theorem no_refresh_lost:
  assumes "stream_run es = Some s"
  shows "(\<forall>ch. open_stream s ch \<longrightarrow> signalled (st_bus s) ch = owed ch es)
    \<and> (\<forall>ch. signalled (st_bus s) ch \<longrightarrow> stream_step (Refresh ch) s \<noteq> None)
    \<and> (\<forall>ch. refreshes s ch \<le> count_list es Notified) \<and> stream_step Notified s \<noteq> None"
proof -
  have "bus_inv (st_bus s) \<and> (\<forall>ch. open_stream s ch \<longrightarrow> signalled (st_bus s) ch = owed ch es)
      \<and> (\<forall>ch. refreshes s ch + (if signalled (st_bus s) ch then 1 else 0) \<le> count_list es Notified)"
    using assms
  proof (induction es arbitrary: s)
    case Nil
    then show ?case
      by (auto simp: NewEventBus_def bus_inv_def open_stream_def signalled_def refreshes_def)
  next
    case (Cons e es)
    then obtain s0 where run: "stream_run es = Some s0" and st: "stream_step e s0 = Some s"
      by (auto simp: bind_eq_Some_conv)
    note IH = Cons.IH [OF run]
    have inv: "bus_inv (st_bus s0)" using IH by simp
    have new: "e = Connect ch \<Longrightarrow> \<not> signalled (st_bus s0) ch" for ch
      using st fresh_not_signalled [OF inv] by (auto simp: Subscribe_def split: if_splits)
    have "signalled (st_bus s) ch = owed ch (e # es)" if "open_stream s ch" for ch
      using that IH new [of ch] signalled_step [OF st, of ch] open_step [OF st, of ch]
      by (cases e) (auto simp: owed_Cons)
    moreover have "refreshes s ch + (if signalled (st_bus s) ch then 1 else 0) \<le> count_list (e # es) Notified" for ch
    proof -
      have "e = Refresh ch \<Longrightarrow> signalled (st_bus s0) ch" using st by (auto simp: receive_def split: if_splits)
      moreover have "refreshes s0 ch + (if signalled (st_bus s0) ch then 1 else 0) \<le> count_list es Notified"
        using IH by blast
      ultimately show ?thesis
        using signalled_step [OF st, of ch] refreshes_step [OF st, of ch] by (cases e) (auto split: if_splits)
    qed
    ultimately show ?case using bus_inv_step [OF st inv] by blast
  qed
  then show ?thesis by (auto simp: receive_def) (meson le_add1 order_trans)
qed

definition demo_stream :: "bus_event list" where
  "demo_stream = [Notified, Refresh 1, Notified, Connect 1, Connect 0]"

theorem no_refresh_lost_witness:
  "case stream_run demo_stream of None \<Rightarrow> False
   | Some s \<Rightarrow> signalled (st_bus s) 0 \<and> signalled (st_bus s) 1 \<and> refreshes s 1 \<le> 2"
proof -
  have run: "map_option (\<lambda>s. (open_stream s 0, open_stream s 1)) (stream_run demo_stream) = Some (True, True)"
    "owed 0 demo_stream" "owed 1 demo_stream" "count_list demo_stream Notified = 2"
    by code_simp+
  then obtain s where s: "stream_run demo_stream = Some s" "open_stream s 0" "open_stream s 1"
    by (cases "stream_run demo_stream") simp_all
  have "refreshes s 1 \<le> count_list demo_stream Notified" using no_refresh_lost [OF s(1)] by blast
  then show ?thesis using no_refresh_lost [OF s(1)] s(2,3) run(2-4) by (simp add: s(1) del: One_nat_def)
qed

end
