(* ===== verification/EmailList.thy ===== *)
theory EmailList
  imports WebUiMail
begin

section \<open>The list of emails (\<open>ListEmails\<close>, \<open>handleList\<close>)\<close>

text \<open>
  The query behind the first page of the web UI: the filter by status, the search with SQL's LIKE, the
  order, and the cut into pages with its arithmetic at 64 bits. The search column of an address list is
  the JSON text \<open>col\<close> of the list.
\<close>

subsection \<open>LIKE\<close>

text \<open>
  SQLite's LIKE on UTF-8: \<open>%\<close> is any text, \<open>_\<close> one character, another character itself, the letters of
  ASCII in either case. A character is a byte and, from 0xC0 on, the continuation bytes after it.
\<close>

definition continuation :: "char \<Rightarrow> bool" where
  "continuation c = (byte_of c div 64 = 2)"

definition skip_char :: "string \<Rightarrow> string" where
  "skip_char s = (case s of [] \<Rightarrow> [] | c # cs \<Rightarrow> if byte_of c \<ge> 192 then dropWhile continuation cs else cs)"

lemma skip_char_less: "s \<noteq> [] \<Longrightarrow> length (skip_char s) < length s"
  by (cases s) (auto simp: skip_char_def length_dropWhile_le intro: le_imp_less_Suc)

function like :: "string \<Rightarrow> string \<Rightarrow> bool" where
  "like [] s = (s = [])"
| "like (c # p) s =
     (if c = CHR ''%'' then like p s \<or> (if s = [] then False else like (c # p) (skip_char s))
      else if s = [] then False
      else if c = CHR ''_'' then like p (skip_char s)
      else ascii_lower (hd s) = ascii_lower c \<and> like p (tl s))"
  by pat_completeness auto

termination
  by (relation "measure (\<lambda>(p, s). length p + length s)") (use skip_char_less in fastforce)+

subsection \<open>The query\<close>

record EmailFilter =
  ef_Status :: string
  ef_Search :: string
  ef_Limit :: int
  ef_Offset :: int

record EmailListResult =
  el_Emails :: "EmailRecord list"
  el_Total :: nat

definition status_text :: "EmailStatus \<Rightarrow> string" where
  "status_text st =
     (case st of EmailStatusReceived \<Rightarrow> ''received'' | EmailStatusDropped \<Rightarrow> ''dropped''
      | EmailStatusDelivered \<Rightarrow> ''delivered'' | EmailStatusPartialFailure \<Rightarrow> ''partial_failure''
      | EmailStatusFailed \<Rightarrow> ''failed'' | EmailStatusRejected \<Rightarrow> ''rejected'')"

definition search_columns :: "(string list \<Rightarrow> string) \<Rightarrow> email_row \<Rightarrow> string list" where
  "search_columns col e =
     [em_subject e, em_envelope_from e, col (em_envelope_to e), em_header_from e, col (em_header_to e)]"

definition selected :: "(string list \<Rightarrow> string) \<Rightarrow> string \<Rightarrow> string \<Rightarrow> email_row \<Rightarrow> bool" where
  "selected col status search e =
     ((status = [] \<or> status_text (em_status e) = status)
      \<and> (search = [] \<or> list_ex (like (''%'' @ search @ ''%'')) (search_columns col e)))"

text \<open>\<open>scanEmailRow\<close>, without the parsed email, which the list does not need.\<close>

definition list_record :: "email_row \<Rightarrow> EmailRecord" where
  "list_record e = \<lparr>er_ID = em_id e, er_ReceivedAt = em_received_at e,
     er_EnvelopeFrom = em_envelope_from e, er_EnvelopeTo = em_envelope_to e,
     er_HeaderFrom = em_header_from e, er_HeaderTo = em_header_to e, er_Subject = em_subject e,
     er_Status = em_status e, er_RejectionReason = em_rejection_reason e,
     er_ParsedEmail = None, er_AuthResult = em_auth_result e\<rparr>"

text \<open>A negative OFFSET counts as none.\<close>

definition ListEmails :: "(string list \<Rightarrow> string) \<Rightarrow> EmailFilter \<Rightarrow> 's db \<Rightarrow> EmailListResult" where
  "ListEmails col f s =
     (let limit = (if ef_Limit f \<le> 0 then 50 else ef_Limit f);
          rows = filter (selected col (ef_Status f) (ef_Search f)) (t_emails s)
      in \<lparr>el_Emails = map list_record (take (nat limit) (drop (nat (ef_Offset f))
            (sort_key (\<lambda>e. - em_received_at e) rows))),
          el_Total = length rows\<rparr>)"

subsection \<open>The page\<close>

text \<open>What \<open>strconv.Atoi\<close> returns beside its error: the nearest number it can hold, or 0.\<close>

definition Atoi_value :: "string \<Rightarrow> int" where
  "Atoi_value s =
     (let neg = HasPrefix s ''-''; t = (if neg \<or> HasPrefix s ''+'' then tl s else s) in
      if t = [] then 0
      else (case digits_value 0 t of
          None \<Rightarrow> 0
        | Some n \<Rightarrow> max (- (2 ^ 63)) (min (2 ^ 63 - 1) (if neg then - int n else int n))))"

record list_page =
  lp_Emails :: "EmailRecord list"
  lp_Total :: nat
  lp_Page :: int
  lp_TotalPages :: int
  lp_Stats :: Stats
  lp_Partial :: bool

definition per_page :: int where
  "per_page = 20"

definition handleList :: "(string list \<Rightarrow> string) \<Rightarrow> ui_req \<Rightarrow> ui \<Rightarrow> list_page" where
  "handleList col r s =
     (let page = Atoi_value (ur_query r ''page'');
          page = (if page < 1 then 1 else page);
          result = ListEmails col \<lparr>ef_Status = ur_query r ''status'', ef_Search = ur_query r ''q'', ef_Limit = per_page,
            ef_Offset = int64 (int64 (page - 1) * per_page)\<rparr> (ui_db s);
          totalPages = (int (el_Total result) + per_page - 1) div per_page;
          totalPages = (if totalPages < 1 then 1 else totalPages)
      in \<lparr>lp_Emails = el_Emails result, lp_Total = el_Total result, lp_Page = page, lp_TotalPages = totalPages,
          lp_Stats = stats_of (ui_db s), lp_Partial = ur_hx r\<rparr>)"

subsection \<open>Searching\<close>

definition lower :: "string \<Rightarrow> string" where
  "lower s = map ascii_lower s"

lemma like_any: "like (''%'' @ p) s \<longleftrightarrow> like p s \<or> s \<noteq> [] \<and> like (''%'' @ p) (skip_char s)"
  by (simp add: like.simps(2) [of _ _ s] del: like.simps)

lemma like_percent: "like ''%'' s"
proof (induction "length s" arbitrary: s rule: less_induct)
  case less
  show ?case using less [OF skip_char_less] like_any [of "[]" s] by (cases "s = []") simp_all
qed

lemma like_prefix:
  assumes "\<forall>c\<in>set p. c \<noteq> CHR ''%'' \<and> c \<noteq> CHR ''_''"
  shows "like (p @ ''%'') s \<longleftrightarrow> length p \<le> length s \<and> lower (take (length p) s) = lower p"
  using assms
proof (induction p arbitrary: s)
  case Nil
  then show ?case using like_percent by (simp add: lower_def)
next
  case (Cons c p)
  then show ?case by (cases s) (auto simp: lower_def)
qed

text \<open>Where skipping characters can lead from the start of a text: to every byte that is not a continuation.\<close>

lemma skip_reaches:
  assumes "k < length s" "\<not> continuation (s ! k)" "Q (drop k s)"
    and "\<And>s. Q s \<Longrightarrow> P s" "\<And>s. s \<noteq> [] \<Longrightarrow> P (skip_char s) \<Longrightarrow> P s"
  shows "P s"
  using assms(1-3)
proof (induction "length s" arbitrary: s k rule: less_induct)
  case less
  show ?case
  proof (cases "k = 0")
    case True
    with less.prems show ?thesis by (simp add: assms(4))
  next
    case False
    obtain c cs where s: "s = c # cs" using less.prems(1) by (cases s) auto
    obtain n where n: "skip_char s = drop n s" "0 < n" "n \<le> k"
    proof (cases "byte_of c \<ge> 192")
      case True
      define m where "m = length (takeWhile continuation cs)"
      have "dropWhile continuation cs = drop m cs" by (simp add: dropWhile_eq_drop m_def)
      moreover have "m \<le> k - 1"
      proof (rule ccontr)
        assume "\<not> m \<le> k - 1"
        then have "continuation (cs ! (k - 1))"
          using set_takeWhileD [of "cs ! (k - 1)" continuation cs] nth_mem [of "k - 1" "takeWhile continuation cs"]
          by (simp add: m_def takeWhile_nth)
        with False less.prems(2) show False by (simp add: s nth_Cons')
      qed
      ultimately show thesis using True False that [of "Suc m"] by (simp add: s skip_char_def)
    next
      case small: False
      with False show thesis using that [of 1] by (simp add: s skip_char_def)
    qed
    have "P (skip_char s)"
      using less.hyps [of "drop n s" "k - n"] less.prems n by (simp add: s drop_drop)
    then show ?thesis by (simp add: assms(5) s)
  qed
qed

lemma skip_char_drop: "\<exists>n. skip_char s = drop n s"
proof (cases s)
  case (Cons c cs)
  then show ?thesis
    by (cases "byte_of c \<ge> 192") (auto simp: skip_char_def dropWhile_eq_drop intro: exI [of _ "Suc n" for n] exI [of _ 1])
qed (simp add: skip_char_def)

lemma lower_append [simp]: "lower (s @ t) = lower s @ lower t"
  by (simp add: lower_def)

lemma continuation_lower: "continuation (ascii_lower c) = continuation c"
  by (auto simp: continuation_def byte_ascii_lower)

lemma like_infix:
  assumes "\<forall>c\<in>set p. c \<noteq> CHR ''%'' \<and> c \<noteq> CHR ''_''" "p \<noteq> []" "\<not> continuation (hd p)"
  shows "like (''%'' @ p @ ''%'') s \<longleftrightarrow> (\<exists>u v. lower s = u @ lower p @ v)"
proof
  assume "like (''%'' @ p @ ''%'') s"
  then show "\<exists>u v. lower s = u @ lower p @ v"
  proof (induction "length s" arbitrary: s rule: less_induct)
    case less
    consider "like (p @ ''%'') s" | "s \<noteq> []" "like (''%'' @ p @ ''%'') (skip_char s)"
      using less.prems like_any [of "p @ ''%''" s] by blast
    then show ?case
    proof cases
      case 1
      then have "lower (take (length p) s @ drop (length p) s) = lower p @ lower (drop (length p) s)"
        by (simp only: lower_append like_prefix [OF assms(1)])
      then show ?thesis by (intro exI [of _ "[]"] exI [of _ "lower (drop (length p) s)"]) simp
    next
      case 2
      from less.hyps [OF skip_char_less [OF 2(1)] 2(2)] obtain u v where "lower (skip_char s) = u @ lower p @ v"
        by blast
      moreover obtain n where "skip_char s = drop n s" using skip_char_drop by blast
      ultimately have "lower (take n s @ drop n s) = (lower (take n s) @ u) @ lower p @ v"
        by (simp only: lower_append append_assoc)
      then show ?thesis by (metis append_take_drop_id)
    qed
  qed
next
  assume "\<exists>u v. lower s = u @ lower p @ v"
  then obtain u v where s: "map ascii_lower s = u @ lower p @ v" by (auto simp: lower_def)
  define k where "k = length u"
  have len: "length s = k + length p + length v" using arg_cong [OF s, of length] by (simp add: k_def lower_def)
  have k: "k < length s" using len assms(2) by simp
  have "map ascii_lower (drop k s) = lower p @ v" using arg_cong [OF s, of "drop k"] by (simp add: k_def drop_map)
  then have "lower (take (length p) (drop k s)) = lower p"
    by (simp add: lower_def take_map [symmetric] del: take_map)
  then have "like (p @ ''%'') (drop k s)" using len by (simp add: like_prefix [OF assms(1)])
  moreover have "ascii_lower (s ! k) = ascii_lower (hd p)"
  proof -
    have "map ascii_lower s ! k = (lower p @ v) ! 0" unfolding s by (simp add: k_def nth_append)
    then show ?thesis using k assms(2) by (simp add: lower_def nth_append hd_conv_nth)
  qed
  then have "\<not> continuation (s ! k)" using assms(3) continuation_lower by metis
  ultimately show "like (''%'' @ p @ ''%'') s"
    by (intro skip_reaches [OF k, where P = "like (''%'' @ p @ ''%'')" and Q = "like (p @ ''%'')"])
      (use like_any [of "p @ ''%''"] in blast)+
qed

text \<open>The text is in one of the columns, up to the case of ASCII letters.\<close>

definition mentions :: "(string list \<Rightarrow> string) \<Rightarrow> string \<Rightarrow> email_row \<Rightarrow> bool" where
  "mentions col q e \<longleftrightarrow> (\<exists>t\<in>set (search_columns col e). \<exists>u v. lower t = u @ lower q @ v)"

text \<open>
  Searching the emails for a text without the wildcards of LIKE finds, and counts, exactly the emails with
  the text in the subject or in one of the four address columns, the letters of ASCII in either case.
\<close>

theorem search_literal:
  assumes "\<forall>c\<in>set q. c \<noteq> CHR ''%'' \<and> c \<noteq> CHR ''_''" "q \<noteq> []" "\<not> continuation (hd q)"
  shows "el_Total (ListEmails col \<lparr>ef_Status = [], ef_Search = q, ef_Limit = n, ef_Offset = 0\<rparr> s) =
      length (filter (mentions col q) (t_emails s))
    \<and> (int (length (t_emails s)) \<le> n \<longrightarrow>
        set (el_Emails (ListEmails col \<lparr>ef_Status = [], ef_Search = q, ef_Limit = n, ef_Offset = 0\<rparr> s)) =
        list_record ` {e. e \<in> set (t_emails s) \<and> mentions col q e})"
proof -
  have sel: "selected col [] q = mentions col q"
    using like_infix [OF assms(1-3)] assms(2) by (intro ext) (simp add: selected_def mentions_def list_ex_iff)
  have "length (filter (mentions col q) (t_emails s)) \<le> nat n" if "int (length (t_emails s)) \<le> n"
    using that length_filter_le [of "mentions col q" "t_emails s"] by linarith
  moreover have "n \<le> 0 \<Longrightarrow> int (length (t_emails s)) \<le> n \<Longrightarrow> t_emails s = []"
    using length_greater_0_conv [of "t_emails s"] by linarith
  ultimately show ?thesis
    by (cases "n \<le> 0") (auto simp: ListEmails_def Let_def sel)
qed

subsection \<open>Pages\<close>

lemma concat_chunks:
  "concat (map (\<lambda>k. take c (drop (k * c) xs)) [0..<n]) = take (n * c) xs"
  by (induction n) (simp_all add: take_add add.commute [of c])

definition page_req :: "ui_req \<Rightarrow> int \<Rightarrow> ui_req" where
  "page_req r k = r\<lparr>ur_query := (ur_query r)(''page'' := FormatInt k)\<rparr>"

definition listing :: "(string list \<Rightarrow> string) \<Rightarrow> ui_req \<Rightarrow> ui \<Rightarrow> EmailRecord list" where
  "listing col r s = map list_record (sort_key (\<lambda>e. - em_received_at e)
     (filter (selected col (ur_query r ''status'') (ur_query r ''q'')) (t_emails (ui_db s))))"

definition page_emails :: "(string list \<Rightarrow> string) \<Rightarrow> ui_req \<Rightarrow> ui \<Rightarrow> int \<Rightarrow> EmailRecord list" where
  "page_emails col r s k = lp_Emails (handleList col (page_req r k) s)"

lemma Atoi_value_Atoi: "Atoi s = Some n \<Longrightarrow> Atoi_value s = n"
  by (auto simp: Atoi_def Atoi_value_def Let_def split: if_splits option.splits)

lemma handleList_page:
  assumes "1 \<le> k" "k < 2 ^ 63"
  shows "lp_Emails (handleList col (page_req r k) s) = take 20 (drop (nat (int64 (20 * (k - 1)))) (listing col r s))"
proof -
  have "Atoi_value (FormatInt k) = k" using assms by (intro Atoi_value_Atoi Atoi_FormatInt) auto
  moreover have "int64 (k - 1) = k - 1" using assms by (intro int64_id) auto
  ultimately show ?thesis
    using assms(1)
    by (simp add: handleList_def Let_def ListEmails_def page_req_def listing_def per_page_def take_map drop_map mult.commute)
qed


text \<open>The two emails of \<open>demo_db\<close>, and a search for one of the addresses in capitals.\<close>

definition demo_inbox :: ui where
  "demo_inbox = demo_ui\<lparr>ui_db := empty_db\<lparr>t_emails := [demo_email ''m1'' 10, demo_email ''m2'' 20]\<rparr>\<rparr>"

theorem search_literal_witness:
  "el_Total (ListEmails (\<lambda>xs. hd (xs @ [[]])) \<lparr>ef_Status = [], ef_Search = ''X.TEST'', ef_Limit = 5, ef_Offset = 0\<rparr>
     (ui_db demo_inbox)) = length (filter (mentions (\<lambda>xs. hd (xs @ [[]])) ''X.TEST'') (t_emails (ui_db demo_inbox)))"
proof -
  have "\<not> continuation (hd ''X.TEST'')" by code_simp
  then show ?thesis using search_literal [of "''X.TEST''" "\<lambda>xs. hd (xs @ [[]])" 5 "ui_db demo_inbox"]
    by (simp del: hd_append2)
qed


end
