(* ===== verification/Config.thy ===== *)
theory Config
  imports Smtp Worker
begin

section \<open>Configuration (\<open>internal/config\<close>)\<close>

text \<open>
  Loading: the file, when there is one, under the environment, under the defaults, and the checks. The
  koanf library is a parameter: \<open>k_file\<close> reads a file with a parser into the settings gathered so far,
  \<open>k_env\<close> adds the environment's variables with the given prefix, renamed, and \<open>k_unmarshal\<close> decodes the
  settings over a configuration. So is the file system: \<open>fs_stat\<close> tells whether a path exists, and
  \<open>fs_mkdir\<close> gives the error of creating a directory.
\<close>

datatype parser = YamlParser | JsonParser | TomlParser

record 'k conflib = golib +
  k_new :: 'k
  k_file :: "string \<Rightarrow> parser \<Rightarrow> 'k \<Rightarrow> (string, 'k) result"
  k_env :: "string \<Rightarrow> (string \<Rightarrow> string) \<Rightarrow> 'k \<Rightarrow> (string, 'k) result"
  k_unmarshal :: "'k \<Rightarrow> AppConfig \<Rightarrow> (string, AppConfig) result"
  fs_stat :: "string \<Rightarrow> bool"
  fs_mkdir :: "string \<Rightarrow> string option"

datatype invalid_config =
  TLSPairIncomplete | TLSRequired | WorkersNotPositive | ShutdownNotPositive | DBPathMissing
| RawDirNotCreated string string | InvalidAuthMode string string | InvalidRecipientPattern string

datatype config_error =
  UnsupportedExtension string | LoadingConfig string | LoadingEnv string | Unmarshalling string
| InvalidConfig invalid_config

subsection \<open>Names\<close>

text \<open>\<open>filepath.Ext\<close>: from the last dot of the last path element on.\<close>

definition Ext :: "string \<Rightarrow> string" where
  "Ext p =
     (let rest = takeWhile (\<lambda>c. c \<noteq> CHR ''.'' \<and> c \<noteq> CHR ''/'') (rev p) in
      if length rest < length p \<and> rev p ! length rest = CHR ''.'' then CHR ''.'' # rev rest else [])"

definition parserForFile :: "'z golib_scheme \<Rightarrow> string \<Rightarrow> (config_error, parser) result" where
  "parserForFile G p =
     (let e = ToLower G (Ext p) in
      if e = ''.yaml'' \<or> e = ''.yml'' then Inr YamlParser
      else if e = ''.json'' then Inr JsonParser
      else if e = ''.toml'' then Inr TomlParser
      else Inl (UnsupportedExtension (Ext p)))"

text \<open>\<open>strings.ReplaceAll(s, "__", ".")\<close>, from the left.\<close>

fun dots_for_double :: "string \<Rightarrow> string" where
  "dots_for_double (c # d # s) =
     (if c = CHR ''_'' \<and> d = CHR ''_'' then CHR ''.'' # dots_for_double s else c # dots_for_double (d # s))"
| "dots_for_double s = s"

definition TrimPrefix :: "string \<Rightarrow> string \<Rightarrow> string" where
  "TrimPrefix s p = (if HasPrefix s p then drop (length p) s else s)"

definition env_prefix :: string where
  "env_prefix = ''MAILRELAY_''"

definition envKeyReplacer :: "'z golib_scheme \<Rightarrow> string \<Rightarrow> string" where
  "envKeyReplacer G s = ToLower G (dots_for_double (TrimPrefix s env_prefix))"

subsection \<open>Defaults and checks\<close>

definition defaults :: AppConfig where
  "defaults =
     \<lparr>cfg_LogLevel = ''info'',
      cfg_SMTP = \<lparr>sc_TLSCert = [], sc_TLSKey = [], sc_RequireTLS = False, sc_Addr = ''0.0.0.0:25'', sc_Domain = [],
        sc_MaxMessageBytes = 25 * 1024 * 1024, sc_MaxRecipients = 100, sc_ReadTimeout = 60 * Second,
        sc_WriteTimeout = 60 * Second, sc_AllowedRecipients = []\<rparr>,
      cfg_Auth = \<lparr>ac_SPF = AuthModeLog, ac_DKIM = AuthModeLog, ac_DMARC = AuthModeLog\<rparr>,
      cfg_HTTP = \<lparr>hc_Addr = ''127.0.0.1:2623'',
        hc_Auth = \<lparr>ha_Enabled = False, ha_Providers = [], ha_AllowedEmailDomains = [],
          ha_CookieName = ''mailrelay_session'', ha_CookieSecure = None, ha_CookieDomain = [],
          ha_CookieSameSite = ''lax'', ha_SessionTTL = 12 * Hour, ha_SessionSecret = [], ha_RedirectURL = []\<rparr>,
        hc_ProtectMetrics = False\<rparr>,
      cfg_Retry = \<lparr>rc_MaxRetries = 3, rc_InitialWait = 1 * Second, rc_MaxWait = 30 * Second,
        rc_Timeout = 30 * Second, rc_RetryOnTimeout = True\<rparr>,
      cfg_Webhook = \<lparr>wp_Workers = 4, wp_ShutdownTimeout = 30 * Second, wp_AllowPrivateNetworks = False\<rparr>,
      cfg_WebUI = \<lparr>wu_Enabled = True, wu_DBPath = ''mailrelay.db'', wu_RetentionDays = 7, wu_RawEmailDir = []\<rparr>\<rparr>"

definition check_mode :: "string \<Rightarrow> auth_mode \<Rightarrow> (invalid_config, auth_mode) result" where
  "check_mode name m =
     (if m = [] then Inr AuthModeLog
      else if m = AuthModeOff \<or> m = AuthModeLog \<or> m = AuthModeEnforce then Inr m
      else Inl (InvalidAuthMode name m))"

definition check_auth :: "AuthConfig \<Rightarrow> (invalid_config, AuthConfig) result" where
  "check_auth a =
     (case check_mode ''spf'' (ac_SPF a) of Inl e \<Rightarrow> Inl e | Inr spf \<Rightarrow>
     (case check_mode ''dkim'' (ac_DKIM a) of Inl e \<Rightarrow> Inl e | Inr dkim \<Rightarrow>
     (case check_mode ''dmarc'' (ac_DMARC a) of Inl e \<Rightarrow> Inl e | Inr dmarc \<Rightarrow>
        Inr \<lparr>ac_SPF = spf, ac_DKIM = dkim, ac_DMARC = dmarc\<rparr>)))"

fun check_patterns :: "string list \<Rightarrow> invalid_config option" where
  "check_patterns [] = None"
| "check_patterns (p # ps) =
     (case path_match p ''test@example.com'' of None \<Rightarrow> Some (InvalidRecipientPattern p) | Some _ \<Rightarrow> check_patterns ps)"

text \<open>The empty modes are filled in, so the checked configuration is part of the result.\<close>

definition validate :: "('k, 'z) conflib_scheme \<Rightarrow> AppConfig \<Rightarrow> (invalid_config, AppConfig) result" where
  "validate K cfg =
     (let smtp = cfg_SMTP cfg; ui = cfg_WebUI cfg in
      if (sc_TLSCert smtp = []) \<noteq> (sc_TLSKey smtp = []) then Inl TLSPairIncomplete
      else if sc_RequireTLS smtp \<and> sc_TLSCert smtp = [] then Inl TLSRequired
      else if wp_Workers (cfg_Webhook cfg) < 1 then Inl WorkersNotPositive
      else if wp_ShutdownTimeout (cfg_Webhook cfg) \<le> 0 then Inl ShutdownNotPositive
      else if wu_Enabled ui \<and> wu_DBPath ui = [] then Inl DBPathMissing
      else case (if wu_Enabled ui \<and> wu_RawEmailDir ui \<noteq> [] then fs_mkdir K (wu_RawEmailDir ui) else None) of
        Some e \<Rightarrow> Inl (RawDirNotCreated (wu_RawEmailDir ui) e)
      | None \<Rightarrow>
          (case check_auth (cfg_Auth cfg) of
             Inl e \<Rightarrow> Inl e
           | Inr auth \<Rightarrow>
               (case check_patterns (sc_AllowedRecipients smtp) of
                  Some e \<Rightarrow> Inl e | None \<Rightarrow> Inr (cfg\<lparr>cfg_Auth := auth\<rparr>))))"

subsection \<open>Loading\<close>

definition Load :: "('k, 'z) conflib_scheme \<Rightarrow> string \<Rightarrow> (config_error, AppConfig) result" where
  "Load K configPath =
     (case (if fs_stat K configPath
            then (case parserForFile K configPath of
                Inl e \<Rightarrow> Inl e
              | Inr parser \<Rightarrow> map_sum LoadingConfig id (k_file K configPath parser (k_new K)))
            else Inr (k_new K)) of
        Inl e \<Rightarrow> Inl e
      | Inr k \<Rightarrow>
          (case k_env K env_prefix (envKeyReplacer K) k of
             Inl e \<Rightarrow> Inl (LoadingEnv e)
           | Inr k \<Rightarrow>
               (case k_unmarshal K k defaults of
                  Inl e \<Rightarrow> Inl (Unmarshalling e)
                | Inr cfg \<Rightarrow> map_sum InvalidConfig id (validate K cfg))))"

subsection \<open>Environment variables\<close>

definition upper_byte :: "char \<Rightarrow> char" where
  "upper_byte c = (if 97 \<le> byte_of c \<and> byte_of c \<le> 122 then char_of (byte_of c - 32) else c)"

text \<open>The variable of a setting, given as the path of its keys: \<open>smtp.tls_cert\<close> is \<open>MAILRELAY_SMTP__TLS_CERT\<close>.\<close>

definition env_name :: "string list \<Rightarrow> string" where
  "env_name ks = env_prefix @ Join (map (map upper_byte) ks) ''__''"

text \<open>Keys without a double underscore, and without one at the end.\<close>

fun single_underscores :: "string \<Rightarrow> bool" where
  "single_underscores (c # d # s) = (\<not> (c = CHR ''_'' \<and> d = CHR ''_'') \<and> single_underscores (d # s))"
| "single_underscores [c] = (c \<noteq> CHR ''_'')"
| "single_underscores [] = False"

definition setting_key :: "string \<Rightarrow> bool" where
  "setting_key k = (single_underscores k \<and> list_all (\<lambda>c. byte_of c < 128 \<and> ascii_lower c = c) k)"

lemma upper_byte_code: "byte_of (upper_byte c) = (if 97 \<le> byte_of c \<and> byte_of c \<le> 122 then byte_of c - 32 else byte_of c)"
  by (auto simp: upper_byte_def)

lemma upper_byte_fixed:
  assumes "byte_of d < 65 \<or> 90 < byte_of d \<and> byte_of d < 97 \<or> 122 < byte_of d"
  shows "upper_byte c = d \<longleftrightarrow> c = d"
proof
  assume "upper_byte c = d"
  then have "byte_of (upper_byte c) = byte_of d" by simp
  with assms have "byte_of c = byte_of d"
    by (auto simp: upper_byte_code split: if_splits)
  then show "c = d" by simp
qed (use assms in \<open>auto simp: upper_byte_def\<close>)

lemma upper_underscore: "upper_byte c = CHR ''_'' \<longleftrightarrow> c = CHR ''_''"
  by (rule upper_byte_fixed) simp

lemma lower_upper: "ascii_lower c = c \<Longrightarrow> ascii_lower (upper_byte c) = c"
  by (auto simp: upper_byte_def ascii_lower_def)

lemma upper_ascii: "byte_of c < 128 \<Longrightarrow> byte_of (upper_byte c) < 128"
  by (auto simp: upper_byte_code)

lemma dots_single: "single_underscores k \<Longrightarrow> dots_for_double k = k"
  by (induction k rule: single_underscores.induct) auto

lemma dots_join: "single_underscores k \<Longrightarrow>
    dots_for_double (k @ CHR ''_'' # CHR ''_'' # s) = k @ CHR ''.'' # dots_for_double s"
  by (induction k rule: single_underscores.induct) auto

lemma single_upper: "single_underscores (map upper_byte k) = single_underscores k"
  by (induction k rule: single_underscores.induct) (auto simp: upper_underscore)

lemma dots_Join:
  "\<forall>k\<in>set ks. single_underscores k \<Longrightarrow> dots_for_double (Join ks ''__'') = Join ks ''.''"
  by (induction ks "''__''" rule: Join.induct) (auto simp: dots_single dots_join)

lemma Join_map: "map f (Join ks s) = Join (map (map f) ks) (map f s)"
  by (induction ks s rule: Join.induct) auto

lemma Join_ascii: "is_ascii (Join ks s) \<longleftrightarrow> (\<forall>k\<in>set ks. is_ascii k) \<and> (length ks > 1 \<longrightarrow> is_ascii s)"
  by (induction ks s rule: Join.induct) auto

text \<open>
  Every setting can be given in the environment: for a path of keys in lower case without doubled or
  trailing underscores, the variable with the prefix, the keys in capitals and \<open>__\<close> between them is renamed
  to the path with dots. Different settings have different variables.
\<close>

theorem env_name_roundtrip:
  assumes "\<forall>k\<in>set ks. setting_key k" "\<forall>k\<in>set ks'. setting_key k"
  shows "envKeyReplacer G (env_name ks) = Join ks ''.''
    \<and> (env_name ks = env_name ks' \<longrightarrow> Join ks ''.'' = Join ks' ''.'')"
proof -
  have main: "envKeyReplacer G (env_name ks) = Join ks ''.''" if "\<forall>k\<in>set ks. setting_key k" for ks
  proof -
    have "TrimPrefix (env_name ks) env_prefix = Join (map (map upper_byte) ks) ''__''"
      by (simp add: TrimPrefix_def env_name_def HasPrefix_iff)
    also have "dots_for_double \<dots> = Join (map (map upper_byte) ks) ''.''"
      using that by (intro dots_Join) (auto simp: setting_key_def single_upper)
    finally have d: "dots_for_double (TrimPrefix (env_name ks) env_prefix) = Join (map (map upper_byte) ks) ''.''" .
    have "map (map ascii_lower) (map (map upper_byte) ks) = ks"
      using that by (auto simp: setting_key_def list_all_iff lower_upper comp_def intro!: map_idI)
    moreover have "is_ascii (Join (map (map upper_byte) ks) ''.'')"
    proof -
      have "is_ascii (map upper_byte k)" if "k \<in> set ks" for k
        using that \<open>\<forall>k\<in>set ks. setting_key k\<close> by (auto simp: setting_key_def is_ascii_def list_all_iff upper_ascii)
      then show ?thesis by (simp add: Join_ascii)
    qed
    ultimately show ?thesis
      by (simp add: envKeyReplacer_def d ToLower_ascii Join_map) (simp add: ascii_lower_def)
  qed
  show ?thesis using main [OF assms(1)] main [OF assms(2)] by metis
qed

text \<open>The settings of \<open>AppConfig\<close>, by their koanf tags.\<close>

definition config_keys :: "string list list" where
  "config_keys =
     [[''log_level''], [''smtp'', ''tls_cert''], [''smtp'', ''tls_key''], [''smtp'', ''require_tls''],
      [''smtp'', ''addr''], [''smtp'', ''domain''], [''smtp'', ''max_message_bytes''],
      [''smtp'', ''max_recipients''], [''smtp'', ''read_timeout''], [''smtp'', ''write_timeout''],
      [''smtp'', ''allowed_recipients''], [''auth'', ''spf''], [''auth'', ''dkim''],
      [''auth'', ''dmarc''], [''http'', ''addr''], [''http'', ''auth'', ''enabled''],
      [''http'', ''auth'', ''providers''], [''http'', ''auth'', ''allowed_email_domains''],
      [''http'', ''auth'', ''cookie_name''], [''http'', ''auth'', ''cookie_secure''],
      [''http'', ''auth'', ''cookie_domain''], [''http'', ''auth'', ''cookie_samesite''],
      [''http'', ''auth'', ''session_ttl''], [''http'', ''auth'', ''session_secret''],
      [''http'', ''auth'', ''redirect_url''], [''http'', ''protect_metrics''],
      [''retry'', ''max_retries''], [''retry'', ''initial_wait''], [''retry'', ''max_wait''],
      [''retry'', ''timeout''], [''retry'', ''retry_on_timeout''], [''webhook'', ''workers''],
      [''webhook'', ''shutdown_timeout''], [''webhook'', ''allow_private_networks''],
      [''webui'', ''enabled''], [''webui'', ''db_path''], [''webui'', ''retention_days''],
      [''webui'', ''raw_email_dir'']]"

theorem env_name_roundtrip_witness:
  "list_all (\<lambda>ks. envKeyReplacer ascii_lib (env_name ks) = Join ks ''.'') config_keys"
proof -
  have "list_all (list_all setting_key) config_keys" by code_simp
  then have ok: "\<forall>k\<in>set ks. setting_key k" if "ks \<in> set config_keys" for ks
    using that by (simp add: list_all_iff)
  have "envKeyReplacer ascii_lib (env_name ks) = Join ks ''.''" if "ks \<in> set config_keys" for ks
    using env_name_roundtrip [OF ok [OF that], of "[]" ascii_lib] by simp
  then show ?thesis by (simp add: list_all_iff)
qed

subsection \<open>A loaded configuration can be started\<close>

lemma check_patterns_None: "check_patterns ps = None \<longleftrightarrow> (\<forall>p\<in>set ps. path_match p ''test@example.com'' \<noteq> None)"
  by (induction ps) (auto split: option.splits)

lemma check_mode_Inr: "check_mode n m = Inr m' \<Longrightarrow> m' \<in> {AuthModeOff, AuthModeLog, AuthModeEnforce}"
  by (auto simp: check_mode_def split: if_splits)

lemma check_auth_modes:
  assumes "check_auth a = Inr b"
  shows "{ac_SPF b, ac_DKIM b, ac_DMARC b} \<subseteq> {AuthModeOff, AuthModeLog, AuthModeEnforce}"
proof -
  from assms obtain spf dkim dmarc where "check_mode ''spf'' (ac_SPF a) = Inr spf"
    "check_mode ''dkim'' (ac_DKIM a) = Inr dkim" "check_mode ''dmarc'' (ac_DMARC a) = Inr dmarc"
    "b = \<lparr>ac_SPF = spf, ac_DKIM = dkim, ac_DMARC = dmarc\<rparr>"
    by (auto simp: check_auth_def split: sum.splits)
  then show ?thesis using check_mode_Inr [of _ _ spf] check_mode_Inr [of _ _ dkim] check_mode_Inr [of _ _ dmarc] by simp
qed

lemma validate_auth: "validate K c = Inr cfg \<Longrightarrow> check_auth (cfg_Auth c) = Inr (cfg_Auth cfg)"
  by (auto simp: validate_def Let_def split: if_splits sum.splits option.splits)

lemma map_sum_Inr: "map_sum f id x = Inr c \<longleftrightarrow> x = Inr c"
  by (cases x) simp_all

text \<open>
  C26: A configuration that loads can be started: its authentication modes are known ones, the delivery
  queue starts on any database, the TLS settings of the SMTP server are complete (only an unreadable
  certificate stops it), and no pattern of allowed recipients (in ASCII) is malformed, whatever address it
  is matched against, although it was tried on one address only and before it is lower-cased.
\<close>

theorem Load_usable:
  assumes "Load K path = Inr cfg"
  shows "{ac_SPF (cfg_Auth cfg), ac_DKIM (cfg_Auth cfg), ac_DMARC (cfg_Auth cfg)} \<subseteq>
      {AuthModeOff, AuthModeLog, AuthModeEnforce}
    \<and> (\<forall>db. \<exists>s. StartQueue (wp_Workers (cfg_Webhook cfg)) db = Inr s)
    \<and> (\<forall>load. configureTLS load (cfg_SMTP cfg) \<notin> {Inl PairIncomplete, Inl CertificateRequired})
    \<and> (\<forall>p\<in>set (sc_AllowedRecipients (cfg_SMTP cfg)). is_ascii p \<longrightarrow> (\<forall>r. path_match (ToLower K p) r \<noteq> None))"
proof -
  obtain c where v: "validate K c = Inr cfg"
    using assms by (auto simp: Load_def map_sum_Inr split: sum.splits if_splits)
  have "path_match (ToLower K p) r \<noteq> None" if "p \<in> set (sc_AllowedRecipients (cfg_SMTP cfg))" "is_ascii p" for p r
  proof -
    have "path_match p ''test@example.com'' \<noteq> None"
      using v that(1)
      by (auto simp: validate_def Let_def check_patterns_None split: if_splits sum.splits option.splits)
    then show ?thesis
      using check_rest_if_match path_match_total check_rest_lower [OF that(2)] by (simp add: ToLower_ascii that(2))
  qed
  moreover have "\<exists>s. StartQueue (wp_Workers (cfg_Webhook cfg)) db = Inr s" for db
    using v by (auto simp: validate_def Let_def StartQueue_def split: if_splits sum.splits option.splits)
  moreover have "configureTLS load (cfg_SMTP cfg) \<notin> {Inl PairIncomplete, Inl CertificateRequired}" for load
    using v by (auto simp: validate_def Let_def configureTLS_def split: if_splits sum.splits option.splits)
  moreover note check_auth_modes [OF validate_auth [OF v]]
  ultimately show ?thesis by simp
qed

text \<open>No file, and an environment that sets the allowed recipients.\<close>

definition demo_conf :: "unit conflib" where
  "demo_conf = golib.extend ascii_lib
     \<lparr>k_new = (), k_file = (\<lambda>_ _ _. Inl ''no file''), k_env = (\<lambda>_ _ k. Inr k),
      k_unmarshal = (\<lambda>_ c. Inr (c\<lparr>cfg_SMTP := (cfg_SMTP c)\<lparr>sc_AllowedRecipients := [''*@X.test'']\<rparr>\<rparr>)),
      fs_stat = (\<lambda>_. False), fs_mkdir = (\<lambda>_. None)\<rparr>"

theorem Load_usable_witness:
  "case Load demo_conf ''config.yaml'' of Inl _ \<Rightarrow> False
   | Inr cfg \<Rightarrow> path_match (ToLower demo_conf ''*@X.test'') ''a@x.test'' \<noteq> None \<and> ac_SPF (cfg_Auth cfg) = AuthModeLog"
proof -
  have l: "map_sum id (\<lambda>c. (sc_AllowedRecipients (cfg_SMTP c), ac_SPF (cfg_Auth c))) (Load demo_conf ''config.yaml'') =
      Inr ([''*@X.test''], AuthModeLog)"
    by code_simp
  then obtain cfg where cfg: "Load demo_conf ''config.yaml'' = Inr cfg" by (cases "Load demo_conf ''config.yaml''") auto
  then have "sc_AllowedRecipients (cfg_SMTP cfg) = [''*@X.test'']" "ac_SPF (cfg_Auth cfg) = AuthModeLog" using l by simp_all
  moreover have "is_ascii ''*@X.test''" by code_simp
  ultimately show ?thesis using Load_usable [OF cfg] by (simp add: cfg)
qed

end
