(* ===== verification/Cli.thy ===== *)
theory Cli
  imports WebUiProps Config "HOL-Library.Multiset"
begin

section \<open>The command line (\<open>run\<close>, \<open>cmd/mailrelay/rules_transfer.go\<close>)\<close>

text \<open>
  What the flags choose, and the transfer of rules between a file and the database. A file that can be
  read is an entry of \<open>cl_files\<close>; the record \<open>osenv\<close> gives the errors of opening the database, of creating
  a file, and of writing one, with what had been written by then. A file name that exists is never
  opened for writing (\<open>O_EXCL\<close>).
\<close>

record osenv =
  os_open_db :: "string \<Rightarrow> string option"
  os_create :: "string \<Rightarrow> string option"
  os_write :: "string \<Rightarrow> string \<Rightarrow> (string \<times> string) option"

record cli =
  cl_files :: "string \<Rightarrow> string option"
  cl_rules :: rules_table
  cl_stdout :: string

datatype transfer_error =
  MutuallyExclusive | ReplaceNeedsImport | FileUnreadable | FileTooBig | FileRejected decode_error
| DatabaseUnopened string | ImportRefused rule_sql_error | ListRefused rule_sql_error | ExportRefused string
| FileExists | FileNotCreated string | FileNotWritten string

definition read_import :: "'z filelib_scheme \<Rightarrow> string \<Rightarrow> cli \<Rightarrow> (transfer_error, TransferRule list) result" where
  "read_import F importPath s =
     (case cl_files s importPath of
        None \<Rightarrow> Inl FileUnreadable
      | Some data \<Rightarrow>
          if int (length data) > 2 * 1024 * 1024 then Inl FileTooBig
          else map_sum FileRejected id (Decode F data))"

definition write_export :: "osenv \<Rightarrow> string \<Rightarrow> string \<Rightarrow> cli \<Rightarrow> transfer_error option \<times> cli" where
  "write_export os exportPath data s =
     (if exportPath = ''-'' then (None, s\<lparr>cl_stdout := cl_stdout s @ data\<rparr>)
      else if cl_files s exportPath \<noteq> None then (Some FileExists, s)
      else case os_create os exportPath of
        Some e \<Rightarrow> (Some (FileNotCreated e), s)
      | None \<Rightarrow>
          (case os_write os exportPath data of
             Some (e, part) \<Rightarrow> (Some (FileNotWritten e), s\<lparr>cl_files := (cl_files s)(exportPath \<mapsto> part)\<rparr>)
           | None \<Rightarrow> (None, s\<lparr>cl_files := (cl_files s)(exportPath \<mapsto> data)\<rparr>)))"

definition export_format :: "'z golib_scheme \<Rightarrow> string \<Rightarrow> string" where
  "export_format G p = (if EqualFold G (Ext p) ''.json'' then ''json'' else ''yaml'')"

definition transferRules ::
    "'z filelib_scheme \<Rightarrow> osenv \<Rightarrow> (nat \<Rightarrow> string) \<Rightarrow> (nat \<Rightarrow> int) \<Rightarrow> AppConfig \<Rightarrow> string \<Rightarrow> string \<Rightarrow> bool \<Rightarrow> cli
      \<Rightarrow> transfer_error option \<times> cli" where
  "transferRules F os uuid now cfg exportPath importPath replace s =
     (if exportPath \<noteq> [] \<and> importPath \<noteq> [] then (Some MutuallyExclusive, s)
      else if replace \<and> importPath = [] then (Some ReplaceNeedsImport, s)
      else case (if importPath \<noteq> [] then read_import F importPath s else Inr []) of
        Inl e \<Rightarrow> (Some e, s)
      | Inr items \<Rightarrow>
          (case os_open_db os (wu_DBPath (cfg_WebUI cfg)) of
             Some e \<Rightarrow> (Some (DatabaseUnopened e), s)
           | None \<Rightarrow>
               if importPath \<noteq> [] then
                 (case ImportRules uuid now items replace (cl_rules s) of
                    (err, rows) \<Rightarrow> (map_option ImportRefused err, s\<lparr>cl_rules := rows\<rparr>))
               else (case ListRules F (cl_rules s) of
                   Inl e \<Rightarrow> (Some (ListRefused e), s)
                 | Inr records \<Rightarrow>
                     (case Export F records (export_format F exportPath) of
                        Inl e \<Rightarrow> (Some (ExportRefused e), s)
                      | Inr data \<Rightarrow> write_export os exportPath data s))))"

subsection \<open>The flags\<close>

record cli_flags =
  fl_config :: string
  fl_export :: string
  fl_import :: string
  fl_replace :: bool
  fl_version :: bool

datatype run_choice = ShowVersion | ConfigFailed config_error | Transfer AppConfig | Serve AppConfig

definition run_choice :: "('k, 'z) conflib_scheme \<Rightarrow> cli_flags \<Rightarrow> run_choice" where
  "run_choice K fl =
     (if fl_version fl then ShowVersion
      else case Load K (fl_config fl) of
        Inl e \<Rightarrow> ConfigFailed e
      | Inr cfg \<Rightarrow> if fl_export fl \<noteq> [] \<or> fl_import fl \<noteq> [] \<or> fl_replace fl then Transfer cfg else Serve cfg)"

subsection \<open>A rules file is read back\<close>

definition export_json :: "RuleRecord list \<Rightarrow> json" where
  "export_json records =
     file_json \<lparr>rf_Version = 1, rf_Sensitive = sensitive_note, rf_Rules = Some (map Portable records)\<rparr>"

lemma file_json_decoded:
  assumes "list_all transfer_ok rs" "fits_int v"
  shows "file_of_json G (file_json \<lparr>rf_Version = v, rf_Sensitive = n, rf_Rules = Some rs\<rparr>) =
    Some \<lparr>rf_Version = v, rf_Sensitive = n, rf_Rules = Some (map norm_transfer rs)\<rparr>"
  using assms
  by (simp add: file_of_json_def file_json_def dec_struct_def dec_fields_append dec_entries file_fields_def
      dec_int_def dec_list_def transfers.dec_all_enc)

subsection \<open>A backup restores the rules\<close>

text \<open>What the table holds of a rule, apart from its identifier and its times.\<close>

definition row_content :: "rule_row \<Rightarrow> string \<times> int \<times> json \<times> json \<times> int" where
  "row_content row = (rw_name row, rw_enabled row, rw_match row, rw_webhook row, rw_position row)"

definition content_rule :: "'z golib_scheme \<Rightarrow> string \<times> int \<times> json \<times> json \<times> int \<Rightarrow> Rule" where
  "content_rule G c = (case c of (n, e, m, w, p) \<Rightarrow>
     \<lparr>ru_Name = n, ru_Match = the (match_of_json G False m zero_matcher),
      ru_Webhook = the (webhook_of_json G False w zero_webhook)\<rparr>)"

lemma content_rule_written:
  "written_by r row \<Longrightarrow> content_rule G (row_content row) = ToRule (norm_record r)"
  by (simp add: content_rule_def row_content_def ToRule_def written_by_def norm_record_def matchers.dec_enc webhooks.dec_enc)

lemma reload_content:
  assumes "rows_ok rows"
  shows "reloadRules G rows e = (None, \<lparr>eng_rules = map (content_rule G \<circ> row_content) (enabled_rows rows)\<rparr>)"
proof -
  obtain rs where rs: "list_all2 written_by rs (enabled_rows rows)"
    "reloadRules G rows e = (None, \<lparr>eng_rules = map (\<lambda>r. ToRule (norm_record r)) rs\<rparr>)"
    using reload_ok [OF assms, of G] by blast
  from rs(1) have "map (\<lambda>r. ToRule (norm_record r)) rs = map (content_rule G \<circ> row_content) (enabled_rows rows)"
    by (induction rule: list_all2_induct) (simp_all add: content_rule_written)
  with rs(2) show ?thesis by simp
qed

lemma same_content_reload:
  assumes "rows_ok rows" "rows_ok rows'" "mset (map row_content rows) = mset (map row_content rows')"
    and "distinct (map rw_position rows)"
  shows "reloadRules G rows e = reloadRules G rows' e'"
proof -
  define pos :: "string \<times> int \<times> json \<times> json \<times> int \<Rightarrow> int" where "pos = (\<lambda>(n, e, m, w, p). p)"
  have enabled: "mset (map row_content (enabled_rows rs)) = filter_mset (\<lambda>(n, e, m, w, p). e = 1) (mset (map row_content rs))"
    for rs by (simp add: enabled_rows_def row_content_def filter_mset_image_mset)
  have pos: "map pos (map row_content rs) = map rw_position rs" for rs
    by (simp add: pos_def row_content_def comp_def)
  have sorted: "sorted (map pos (map row_content (enabled_rows rs)))" for rs
    unfolding pos by (simp add: enabled_rows_def)
  have "inj_on pos (set (map row_content rows))"
    using assms(4) unfolding pos [symmetric] by (simp only: distinct_map)
  then have inj: "inj_on pos (set (map row_content (enabled_rows rows)))"
    by (rule inj_on_subset) (auto simp: enabled_rows_def)
  have "map row_content (enabled_rows rows) = sort_key pos (map row_content (enabled_rows rows))"
    using sorted by (simp only: sort_key_id_if_sorted)
  also have "\<dots> = map row_content (enabled_rows rows')"
    using inj sorted by (intro sort_key_inj_key_eq) (simp_all only: enabled assms(3))
  finally show ?thesis
    by (simp add: reload_content assms(1,2) flip: map_map)
qed

lemma norm_headers_idem [simp]: "norm_headers (norm_headers h) = norm_headers h"
proof (cases h)
  case (Some kvs)
  have "sort_key fst kvs = [] \<longleftrightarrow> kvs = []" by (metis length_0_conv length_sort)
  with Some show ?thesis by (simp add: norm_headers_def)
qed (simp add: norm_headers_def)

lemma Portable_name [simp]: "tr_Name (Portable (norm_record r)) = rr_Name r"
  by (simp add: norm_record_def Portable_def)

lemma new_row_content:
  "written_by r row \<Longrightarrow> row_content (new_rule_row u now (Portable (norm_record r))) = row_content row"
  by (simp add: row_content_def written_by_def new_rule_row_def Portable_def norm_record_def webhooks.norm_enc)

lemma norm_transfer_Portable [simp]: "norm_transfer (Portable (norm_record r)) = Portable (norm_record r)"
  by (simp add: norm_transfer_def norm_webhook_def norm_record_def Portable_def)

lemma Validate_Portable: "Validate W (record_of_item (Portable r)) = Validate W r"
proof -
  have "rr_Name (record_of_item (Portable r)) = rr_Name r" "rr_Webhook (record_of_item (Portable r)) = rr_Webhook r"
    "rr_Match (record_of_item (Portable r)) = rr_Match r" "rr_Position (record_of_item (Portable r)) = rr_Position r"
    by (simp_all add: record_of_item_def Portable_def)
  then show ?thesis by (simp only: Validate_def)
qed

lemma export_decoded:
  assumes "list_all transfer_ok (map Portable (map norm_record rs))"
    and "\<forall>r\<in>set rs. Validate F (norm_record r) = None" "distinct (map rr_Name rs)"
    and "yaml_stream F data = [Inr (Some (export_json (map norm_record rs)))]"
  shows "Decode F data = Inr (map Portable (map norm_record rs))"
proof -
  have "ValidateImport F (map Portable (map norm_record rs)) = None"
    using assms(2,3) by (auto simp: ValidateImport_iff list_all_iff Validate_Portable comp_def)
  moreover have "file_of_json F (export_json (map norm_record rs)) = Some \<lparr>rf_Version = 1,
      rf_Sensitive = sensitive_note, rf_Rules = Some (map Portable (map norm_record rs))\<rparr>"
    using file_json_decoded [OF assms(1), of 1 F] by (simp add: export_json_def fits_int_def int64_id comp_def)
  ultimately show ?thesis by (simp add: Decode_accepts assms(4))
qed

lemma restored_content:
  assumes "\<And>row. row \<in> set rows \<Longrightarrow> written_by (f row) row"
  shows "map row_content (map (\<lambda>j. new_rule_row (u j) (now j) (map (\<lambda>row. Portable (norm_record (f row))) rows ! j)) [0..<length rows])
    = map row_content rows"
proof (rule nth_equalityI)
  fix j assume "j < length (map row_content (map (\<lambda>j. new_rule_row (u j) (now j) (map (\<lambda>row. Portable (norm_record (f row))) rows ! j)) [0..<length rows]))"
  then have j: "j < length rows" by simp
  then have "row_content (new_rule_row (u j) (now j) (Portable (norm_record (f (rows ! j))))) = row_content (rows ! j)"
    by (intro new_row_content assms) simp
  with j show "map row_content (map (\<lambda>j. new_rule_row (u j) (now j) (map (\<lambda>row. Portable (norm_record (f row))) rows ! j)) [0..<length rows]) ! j
      = map row_content rows ! j" by simp
qed simp


text \<open>Two rules, exported to a file and restored into a database without rules.\<close>

definition demo_backup :: rules_table where
  "demo_backup = [demo_row_of demo_record, demo_row_of (demo_record\<lparr>rr_ID := ''i2'', rr_Name := ''b'', rr_Position := 1\<rparr>)]"

definition demo_os :: osenv where
  "demo_os = \<lparr>os_open_db = (\<lambda>_. None), os_create = (\<lambda>_. None), os_write = (\<lambda>_ _. None)\<rparr>"

definition demo_records :: "RuleRecord list" where
  "demo_records = [demo_record\<lparr>rr_ID := ''i2'', rr_Name := ''b'', rr_Position := 1\<rparr>, demo_record]"

lemma demo_record_written: "written_by (demo_record\<lparr>rr_ID := i, rr_Name := n, rr_Position := k\<rparr>)
    (demo_row_of (demo_record\<lparr>rr_ID := i, rr_Name := n, rr_Position := k\<rparr>))"
  by (simp add: written_by_def demo_row_of_def demo_record_def webhook_ok_def zero_webhook_def fits_int_def int64_id)


text \<open>
  Rules that share a position run by creation time, are exported newest first, and are created again in
  the order of the file: a restore turns their order around.
\<close>

definition tied_rows :: rules_table where
  "tied_rows = [demo_row_of (demo_record\<lparr>rr_Name := ''a'', rr_CreatedAt := 1\<rparr>),
     demo_row_of (demo_record\<lparr>rr_ID := ''i2'', rr_Name := ''b'', rr_CreatedAt := 2\<rparr>)]"

lemma restore_reverses_ties:
  "map rw_name (enabled_rows tied_rows) = [''a'', ''b'']
   \<and> (case ListRules ascii_lib tied_rows of Inl _ \<Rightarrow> False | Inr records \<Rightarrow>
       map rw_name (enabled_rows (snd (ImportRules demo_uuids (\<lambda>k. 10 + int k) (map Portable records) True tied_rows)))
         = [''b'', ''a''])"
  by code_simp

end
