(* ===== verification/Startup.thy ===== *)
theory Startup
  imports WebUiMail Cli
begin

section \<open>Start-up (\<open>run\<close>, \<open>cmd/mailrelay/main.go\<close>)\<close>

text \<open>
  What \<open>run\<close> sets up before it serves: the logger, the engine and the dispatcher, and with the web UI
  enabled the database, the saved settings over those of the file, the rules, the delivery queue and the
  retention sweep; then the SMTP server with its handlers, and the login manager. \<open>disk\<close> is what outlives
  the process. The record \<open>start_env\<close> gives the errors of the calls that may fail: opening the
  database, reading the settings row, parsing the templates, and the discovery of the login provider. An
  error ends the program, except one of the settings row, which is logged.
\<close>

record disk =
  dk_db :: "deliverySnapshot db"
  dk_rules :: rules_table
  dk_settings :: "AppConfig option"
  dk_files :: "string \<Rightarrow> string option"

record start_env =
  se_open_db :: "string \<Rightarrow> string option"
  se_settings :: "string option"
  se_templates :: "string option"
  se_login :: "string option"

datatype start_error = OpenFailed string | UIFailed string | QueueFailed string | LoginFailed string

record running =
  rn_cfg :: AppConfig
  rn_userAgent :: string
  rn_allowPrivate :: bool
  rn_ui :: "ui option"
  rn_queue :: "queue_state option"
  rn_server :: "(handler_error, relay) server"
  rn_login :: bool
  rn_cleanup :: bool

definition NewServer :: "SMTPConfig \<Rightarrow> AuthConfig \<Rightarrow> ('e, 's) email_handler \<Rightarrow> ('e, 's) server" where
  "NewServer cfg authCfg handler =
     \<lparr>sv_cfg = cfg, sv_authCfg = authCfg, sv_handler = handler, sv_rejectionHandler = None\<rparr>"

definition LoadSettings :: "start_env \<Rightarrow> disk \<Rightarrow> (string, AppConfig option) result" where
  "LoadSettings E d = (case se_settings E of Some e \<Rightarrow> Inl e | None \<Rightarrow> Inr (dk_settings d))"

definition saved_over :: "start_env \<Rightarrow> disk \<Rightarrow> AppConfig \<Rightarrow> AppConfig" where
  "saved_over E d cfg =
     (case LoadSettings E d of Inl _ \<Rightarrow> cfg | Inr None \<Rightarrow> cfg | Inr (Some saved) \<Rightarrow> applySettings cfg saved)"

text \<open>The web UI with what it shares with the rest, once its rules are loaded and its queue is started.\<close>

definition started_ui :: "'z golib_scheme \<Rightarrow> AppConfig \<Rightarrow> disk \<Rightarrow> queue_state \<Rightarrow> ui" where
  "started_ui G cfg d q =
     \<lparr>ui_db = qs_db q, ui_rules = dk_rules d, ui_settings = dk_settings d, ui_files = dk_files d,
      ui_rawEmailDir = wu_RawEmailDir (cfg_WebUI cfg), ui_engine = snd (LoadRules G (dk_rules d) NewEngine),
      ui_config = cfg, ui_logLevel = setLogLevel (cfg_LogLevel cfg), ui_authCfg = cfg_Auth cfg,
      ui_retry = cfg_Retry cfg, ui_retentionDays = int32 (wu_RetentionDays (cfg_WebUI cfg)), ui_notified = 0\<rparr>"

text \<open>With the web UI enabled: the first error, or the settings in force with the web UI and its queue.\<close>

definition open_ui ::
    "'z golib_scheme \<Rightarrow> start_env \<Rightarrow> AppConfig \<Rightarrow> disk \<Rightarrow> (start_error, AppConfig \<times> (ui \<times> queue_state) option) result" where
  "open_ui G E cfg d =
     (if \<not> wu_Enabled (cfg_WebUI cfg) then Inr (cfg, None)
      else case se_open_db E (wu_DBPath (cfg_WebUI cfg)) of Some e \<Rightarrow> Inl (OpenFailed e) | None \<Rightarrow>
        (let cfg = saved_over E d cfg in
         case se_templates E of Some e \<Rightarrow> Inl (UIFailed e) | None \<Rightarrow>
           (case StartQueue (wp_Workers (cfg_Webhook cfg)) (dk_db d) of
              Inl e \<Rightarrow> Inl (QueueFailed e)
            | Inr q \<Rightarrow> Inr (cfg, Some (started_ui G cfg d q, q)))))"

definition login_error :: "start_env \<Rightarrow> AppConfig \<Rightarrow> string option" where
  "login_error E cfg = (if ha_Enabled (hc_Auth (cfg_HTTP cfg)) then se_login E else None)"

text \<open>Whether \<open>runCleanup\<close> is started.\<close>

definition sweep_started :: "AppConfig \<Rightarrow> bool \<Rightarrow> bool" where
  "sweep_started cfg store = (wu_Enabled (cfg_WebUI cfg) \<and> store \<and> wu_RetentionDays (cfg_WebUI cfg) > 0)"

text \<open>\<open>envs\<close> gives each call of a handler its identifiers and its time.\<close>

definition start_run ::
    "'z weblib_scheme \<Rightarrow> 'm maillib_scheme \<Rightarrow> start_env \<Rightarrow> string \<Rightarrow> (nat \<Rightarrow> call_env) \<Rightarrow> AppConfig \<Rightarrow> disk
      \<Rightarrow> (start_error, running) result" where
  "start_run W M E version envs cfg d =
     (case open_ui W E cfg d of Inl e \<Rightarrow> Inl e | Inr (cfg, opened) \<Rightarrow>
        (let engine = (case opened of None \<Rightarrow> NewEngine | Some (s, _) \<Rightarrow> ui_engine s);
             C = \<lparr>rl_engine = engine, rl_retry = cfg_Retry cfg, rl_rawEmailDir = wu_RawEmailDir (cfg_WebUI cfg),
                  rl_env = envs\<rparr>;
             srv = NewServer (cfg_SMTP cfg) (cfg_Auth cfg) (buildHandler W C);
             srv = (if opened = None then srv else SetRejectionHandler (buildRejectionHandler M C) srv)
         in case login_error E cfg of
              Some e \<Rightarrow> Inl (LoginFailed e)
            | None \<Rightarrow> Inr
                \<lparr>rn_cfg = cfg, rn_userAgent = ''mailrelay/'' @ version,
                 rn_allowPrivate = wp_AllowPrivateNetworks (cfg_Webhook cfg),
                 rn_ui = map_option fst opened, rn_queue = map_option snd opened, rn_server = srv,
                 rn_login = ha_Enabled (hc_Auth (cfg_HTTP cfg)),
                 rn_cleanup = sweep_started cfg (opened \<noteq> None)\<rparr>))"

text \<open>What the process leaves behind, whenever it ends.\<close>

definition disk_of :: "ui \<Rightarrow> disk" where
  "disk_of s = \<lparr>dk_db = ui_db s, dk_rules = ui_rules s, dk_settings = ui_settings s, dk_files = ui_files s\<rparr>"

subsection \<open>What happens while it runs\<close>

text \<open>A call of the web UI, or what the SMTP handlers, the workers and the sweep did to the database and the files.\<close>

datatype event =
  RulesEvent rules_call
| MailEvent mail_call
| SettingsEvent "string list" bool ui_req
| MailTraffic "deliverySnapshot db" "string \<Rightarrow> string option"

fun happens :: "'z filelib_scheme \<Rightarrow> 'm maillib_scheme \<Rightarrow> event \<Rightarrow> ui \<Rightarrow> ui" where
  "happens F M (RulesEvent c) s = snd (handle_rules F c s)"
| "happens F M (MailEvent c) s = snd (handle_mail F M c s)"
| "happens F M (SettingsEvent visit save_ok r) s = snd (handleSettingsSave visit save_ok r s)"
| "happens F M (MailTraffic db files) s = s\<lparr>ui_db := db, ui_files := files\<rparr>"

subsection \<open>The settings in force are the saved ones\<close>

definition settings_view :: "ui \<Rightarrow> AppConfig option \<times> string \<times> AuthConfig \<times> RetryConfig \<times> int" where
  "settings_view s = (ui_settings s, ui_logLevel s, ui_authCfg s, ui_retry s, ui_retentionDays s)"

definition rules_view :: "ui \<Rightarrow> rules_table \<times> Engine" where
  "rules_view s = (ui_rules s, ui_engine s)"

definition settings_current :: "AppConfig \<Rightarrow> ui \<Rightarrow> bool" where
  "settings_current start s \<longleftrightarrow>
     (let c = (case ui_settings s of None \<Rightarrow> start | Some saved \<Rightarrow> applySettings start saved) in
      settings_view s = (ui_settings s, setLogLevel (cfg_LogLevel c), cfg_Auth c, cfg_Retry c,
        int32 (wu_RetentionDays (cfg_WebUI c))))"

lemma settings_current_view: "settings_view s' = settings_view s \<Longrightarrow> settings_current c s \<Longrightarrow> settings_current c s'"
  by (simp add: settings_current_def settings_view_def)

lemma rules_inv_view: "rules_view s' = rules_view s \<Longrightarrow> rules_inv_ui G s \<Longrightarrow> rules_inv_ui G s'"
  by (simp add: rules_inv_ui_def engine_current_def rules_view_def)

text \<open>Which handler touches what.\<close>

named_theorems ui_views

lemma view_updates [ui_views]:
  "settings_view (s\<lparr>ui_db := db\<rparr>) = settings_view s" "rules_view (s\<lparr>ui_db := db\<rparr>) = rules_view s"
  "settings_view (s\<lparr>ui_files := fs\<rparr>) = settings_view s" "rules_view (s\<lparr>ui_files := fs\<rparr>) = rules_view s"
  "settings_view (s\<lparr>ui_rules := rows\<rparr>) = settings_view s" "settings_view (s\<lparr>ui_engine := e\<rparr>) = settings_view s"
  "settings_view (ui_notify s) = settings_view s" "rules_view (ui_notify s) = rules_view s"
  "settings_view (ui_reload G s) = settings_view s"
  by (simp_all add: settings_view_def rules_view_def ui_notify_def ui_reload_def)

lemma view_remove [ui_views]:
  "settings_view (removeRawEmail i s) = settings_view s" "rules_view (removeRawEmail i s) = rules_view s"
  by (simp_all add: removeRawEmail_def ui_views split: option.split)

lemma view_fold_remove [ui_views]:
  "settings_view (fold removeRawEmail is s) = settings_view s" "rules_view (fold removeRawEmail is s) = rules_view s"
  by (induction "is" arbitrary: s) (simp_all add: ui_views)

lemma view_reparse [ui_views]:
  "settings_view (snd (reparseRawEmail M i pe s)) = settings_view s"
  "rules_view (snd (reparseRawEmail M i pe s)) = rules_view s"
  by (simp_all add: reparseRawEmail_def Let_def ui_views split: option.split sum.split)

lemma view_mail [ui_views]:
  "settings_view (snd (handle_mail W M c s)) = settings_view s \<and> rules_view (snd (handle_mail W M c s)) = rules_view s"
proof (cases c)
  case (CallReplay uuid now r)
  then show ?thesis
    by (auto simp: handleReplay_def Let_def case_prod_beta ui_views split: sum.split option.split)
next
  case (CallDeleteEmail r)
  then show ?thesis by (simp add: handleDelete_def ui_views)
next
  case CallDeleteAll
  then show ?thesis by (simp add: handleDeleteAll_def Let_def ui_views)
qed

lemma view_rules: "settings_view (snd (handle_rules F c s)) = settings_view s"
proof (cases c)
  case (CallImport uuid now r)
  then show ?thesis
    by (auto simp: handleRulesImport_def Let_def ui_views split: sum.split option.split prod.split)
qed (auto simp: handleRuleCreate_def handleRuleUpdate_def handleRuleDelete_def handleRuleToggle_def Let_def ui_views
    split: sum.split)

lemma view_settings: "rules_view (snd (handleSettingsSave visit save_ok r s)) = rules_view s"
  by (simp add: handleSettingsSave_def rules_view_def Let_def split: sum.split)

lemma settings_current_save:
  "settings_current start s \<Longrightarrow> settings_current start (snd (handleSettingsSave visit save_ok r s))"
  by (auto simp: handleSettingsSave_def settings_current_def settings_view_def applySettings_def Let_def
      split: sum.split option.split)

lemma happens_keeps:
  assumes "rules_inv_ui F s" "settings_current start s"
  shows "rules_inv_ui F (happens F M ev s) \<and> settings_current start (happens F M ev s)"
proof (cases ev)
  case (RulesEvent c)
  then show ?thesis using assms handle_rules_inv [OF assms(1)] settings_current_view [OF view_rules] by simp
next
  case (MailEvent c)
  then show ?thesis
    using assms settings_current_view [of "snd (handle_mail F M c s)" s] rules_inv_view [of "snd (handle_mail F M c s)" s]
    by (simp add: ui_views)
next
  case (SettingsEvent visit ok r)
  then show ?thesis using assms settings_current_save rules_inv_view [OF view_settings] by simp
next
  case (MailTraffic db fs)
  have "settings_view (s\<lparr>ui_db := db, ui_files := fs\<rparr>) = settings_view s"
    "rules_view (s\<lparr>ui_db := db, ui_files := fs\<rparr>) = rules_view s" by (simp_all add: ui_views)
  then show ?thesis using assms settings_current_view rules_inv_view MailTraffic by simp
qed

lemma happens_all_keep:
  "rules_inv_ui F s \<Longrightarrow> settings_current start s \<Longrightarrow>
   rules_inv_ui F (foldl (\<lambda>s ev. happens F M ev s) s evs) \<and> settings_current start (foldl (\<lambda>s ev. happens F M ev s) s evs)"
  by (induction evs arbitrary: s) (simp_all add: happens_keeps)

subsection \<open>A restart changes nothing\<close>

lemma started_current: "se_settings E = None \<Longrightarrow> settings_current cfg (started_ui G (saved_over E d cfg) d q)"
  by (simp add: settings_current_def settings_view_def started_ui_def saved_over_def LoadSettings_def split: option.split)

lemma started_rules: "rows_ok (dk_rules d) \<Longrightarrow> rules_inv_ui G (started_ui G cfg d q)"
  using reload_ok [of "dk_rules d" G]
  by (auto simp: rules_inv_ui_def engine_current_def started_ui_def LoadRules_def)

lemma start_run_ui:
  "start_run W M E version envs cfg d = Inr n \<and> rn_ui n = Some s \<longleftrightarrow>
   wu_Enabled (cfg_WebUI cfg) \<and> se_open_db E (wu_DBPath (cfg_WebUI cfg)) = None \<and> se_templates E = None
   \<and> (ha_Enabled (hc_Auth (cfg_HTTP (saved_over E d cfg))) \<longrightarrow> se_login E = None)
   \<and> (\<exists>q C. StartQueue (wp_Workers (cfg_Webhook (saved_over E d cfg))) (dk_db d) = Inr q
        \<and> s = started_ui W (saved_over E d cfg) d q
        \<and> C = \<lparr>rl_engine = ui_engine s, rl_retry = cfg_Retry (saved_over E d cfg),
             rl_rawEmailDir = wu_RawEmailDir (cfg_WebUI (saved_over E d cfg)), rl_env = envs\<rparr>
        \<and> n = \<lparr>rn_cfg = saved_over E d cfg, rn_userAgent = ''mailrelay/'' @ version,
             rn_allowPrivate = wp_AllowPrivateNetworks (cfg_Webhook (saved_over E d cfg)), rn_ui = Some s, rn_queue = Some q,
             rn_server = SetRejectionHandler (buildRejectionHandler M C)
               (NewServer (cfg_SMTP (saved_over E d cfg)) (cfg_Auth (saved_over E d cfg)) (buildHandler W C)),
             rn_login = ha_Enabled (hc_Auth (cfg_HTTP (saved_over E d cfg))),
             rn_cleanup = (wu_Enabled (cfg_WebUI (saved_over E d cfg)) \<and> 0 < wu_RetentionDays (cfg_WebUI (saved_over E d cfg)))\<rparr>)"
  by (auto simp: start_run_def open_ui_def login_error_def sweep_started_def Let_def split: option.splits sum.splits if_splits)

lemma saved_over_kept:
  "cfg_SMTP (saved_over E d cfg) = cfg_SMTP cfg" "cfg_HTTP (saved_over E d cfg) = cfg_HTTP cfg"
  "cfg_Webhook (saved_over E d cfg) = cfg_Webhook cfg" "wu_Enabled (cfg_WebUI (saved_over E d cfg)) = wu_Enabled (cfg_WebUI cfg)"
  "wu_RawEmailDir (cfg_WebUI (saved_over E d cfg)) = wu_RawEmailDir (cfg_WebUI cfg)"
  by (simp_all add: saved_over_def applySettings_def split: sum.split option.split)


text \<open>One rule is deleted and settings are saved between two starts.\<close>

definition demo_start :: start_env where
  "demo_start = \<lparr>se_open_db = (\<lambda>_. None), se_settings = None, se_templates = None, se_login = None\<rparr>"

definition demo_disk :: disk where
  "demo_disk = \<lparr>dk_db = empty_db, dk_rules = demo_rows, dk_settings = None, dk_files = Map.empty\<rparr>"

definition demo_events :: "event list" where
  "demo_events = [RulesEvent (CallDeleteRule (demo_ui_req ''i1'')), SettingsEvent auth_fields True demo_save]"


text \<open>
  What a restart does change: the hourly sweep of expired emails is started only when the days are
  positive at start-up. Days set in the web UI where there were none are stored and kept in the counter
  the sweep reads, but no sweep runs until the next start.
\<close>

lemma sweep_needs_restart:
  assumes "start_run W M E version envs cfg d = Inr n" "rn_ui n = Some s0" "rn_cleanup n = False"
    and "handleSettingsSave visit True r s = (RedirectTo u 303, s')" "FormValue r ''retention_days'' = ''7''"
    and "start_run W M demo_start version2 envs2 cfg (disk_of s') = Inr n'"
  shows "ui_retentionDays s' = 7 \<and> rn_cleanup n = False \<and> rn_cleanup n' = True"
proof -
  have seven: "Atoi ''7'' = Some 7" "int32 7 = 7" by code_simp+
  from assms(4,5) obtain c where c: "ui_settings s' = Some c" "wu_RetentionDays (cfg_WebUI c) = 7" "ui_retentionDays s' = int32 7"
    by (auto simp: handleSettingsSave_def settings_form_def form_atoi_def Let_def seven split: if_splits option.splits sum.splits)
  moreover have "wu_Enabled (cfg_WebUI cfg)" using assms(1,2) start_run_ui [of W M E version envs cfg d n s0] by blast
  ultimately show ?thesis
    using assms(3,6) seven
    by (auto simp: start_run_def open_ui_def sweep_started_def Let_def saved_over_def LoadSettings_def disk_of_def applySettings_def demo_start_def
        split: option.splits sum.splits if_splits)
qed

end
