(* ===== verification/Routes.thy ===== *)
theory Routes
  imports EmailList HttpSecProps
begin

section \<open>The routes (\<open>Register\<close>, the mux of \<open>run\<close>)\<close>

text \<open>
  Which handler a request gets: the patterns the web UI and \<open>main.go\<close> register, with the rules of
  \<open>http.ServeMux\<close> for them: a GET pattern takes HEAD too, a literal segment wins over a wildcard, and a
  wildcard takes one segment that is not empty. A request is given by the segments of its escaped path,
  which the mux cleans and then compares one by one, unescaped; \<open>URL.Path\<close> is the whole path unescaped. The state of the web UI travels in the response, extended to
  \<open>app_out\<close>, so the middlewares of \<open>HttpSec\<close> run around the handlers of \<open>WebUi\<close> unchanged.
\<close>

datatype route =
  RStatic | RList | RDetail string | RReplay string | RDelete string | RRaw string | RAttachment string string
| RDeleteAll | RStats | RStatsHTML | REvents | RSettings | RSettingsSave | RRules | RRulesExport | RRulesImport
| RRuleCreate | RRuleEdit string | RRuleUpdate string | RRuleDelete string | RRuleToggle string | RTestWebhook

definition get_route :: "string list \<Rightarrow> route option" where
  "get_route segs =
     (case segs of
        [p] \<Rightarrow>
          if p = [] then Some RList else if p = ''settings'' then Some RSettings
          else if p = ''rules'' then Some RRules else None
      | [p, q] \<Rightarrow>
          if p = ''static'' then Some RStatic
          else if p = ''emails'' \<and> q \<noteq> [] then Some (RDetail q)
          else if p = ''api'' \<and> q = ''stats'' then Some RStats
          else if p = ''api'' \<and> q = ''stats-html'' then Some RStatsHTML
          else if p = ''api'' \<and> q = ''events'' then Some REvents
          else if p = ''rules'' \<and> q = ''export'' then Some RRulesExport else None
      | [p, i, q] \<Rightarrow>
          if p = ''static'' then Some RStatic
          else if i = [] then None
          else if p = ''emails'' \<and> q = ''raw'' then Some (RRaw i)
          else if p = ''rules'' \<and> q = ''edit'' then Some (RRuleEdit i) else None
      | p # i # q # k # rest \<Rightarrow>
          if p = ''static'' then Some RStatic
          else if p = ''emails'' \<and> i \<noteq> [] \<and> q = ''attachments'' \<and> k \<noteq> [] \<and> rest = [] then Some (RAttachment i k)
          else None
      | [] \<Rightarrow> None)"

definition post_route :: "string list \<Rightarrow> route option" where
  "post_route segs =
     (case segs of
        [p] \<Rightarrow> if p = ''settings'' then Some RSettingsSave else if p = ''rules'' then Some RRuleCreate else None
      | [p, q] \<Rightarrow>
          if p = ''emails'' \<and> q = ''delete-all'' then Some RDeleteAll
          else if p = ''rules'' \<and> q = ''import'' then Some RRulesImport
          else if p = ''rules'' \<and> q = ''test-webhook'' then Some RTestWebhook
          else if p = ''rules'' \<and> q \<noteq> [] then Some (RRuleUpdate q) else None
      | [p, i, q] \<Rightarrow>
          if i = [] then None
          else if p = ''emails'' \<and> q = ''replay'' then Some (RReplay i)
          else if p = ''rules'' \<and> q = ''toggle'' then Some (RRuleToggle i) else None
      | _ \<Rightarrow> None)"

definition delete_route :: "string list \<Rightarrow> route option" where
  "delete_route segs =
     (case segs of
        [p, i] \<Rightarrow>
          if i = [] then None else if p = ''emails'' then Some (RDelete i)
          else if p = ''rules'' then Some (RRuleDelete i) else None
      | _ \<Rightarrow> None)"

definition Register :: "string \<Rightarrow> string list \<Rightarrow> route option" where
  "Register m segs =
     (if m = ''GET'' \<or> m = ''HEAD'' then get_route segs
      else if m = ''POST'' then post_route segs
      else if m = ''DELETE'' then delete_route segs else None)"

subsection \<open>Serving a route\<close>

datatype answer =
  Page page
| ListPage list_page
| StatsPage Stats "string option"
| SettingsPage AppConfig bool
| RulesPage "RuleRecord list" RetryConfig
| EventStream
| StaticFile

text \<open>What a handler draws from outside: identifiers, clock, order of a range, the database's answer, the network.\<close>

record app_env =
  ae_uuid :: "nat \<Rightarrow> string"
  ae_now :: "nat \<Rightarrow> int"
  ae_visit :: "string list"
  ae_save_ok :: bool
  ae_column :: "string list \<Rightarrow> string"
  ae_sender :: sender
  ae_transport :: transport

definition handleSettings :: "ui_req \<Rightarrow> ui \<Rightarrow> answer" where
  "handleSettings r s = SettingsPage (ui_config s) (ur_query r ''saved'' = ''1'')"

definition handleRulesList :: "'z golib_scheme \<Rightarrow> ui \<Rightarrow> answer" where
  "handleRulesList G s =
     (case ListRules G (ui_rules s) of
        Inl _ \<Rightarrow> Page ServerError
      | Inr records \<Rightarrow> RulesPage records (cfg_Retry (ui_config s)))"

definition handleRuleEditForm :: answer where
  "handleRuleEditForm = Page (RedirectTo ''/rules'' 303)"

definition handleStats :: "ui \<Rightarrow> answer" where
  "handleStats s = StatsPage (stats_of (ui_db s)) None"

definition handleStatsHTML :: "ui_req \<Rightarrow> ui \<Rightarrow> answer" where
  "handleStatsHTML r s = StatsPage (stats_of (ui_db s)) (Some (ur_query r ''status''))"

fun serve_route :: "'z filelib_scheme \<Rightarrow> 'm maillib_scheme \<Rightarrow> app_env \<Rightarrow> ui_req \<Rightarrow> route \<Rightarrow> ui \<Rightarrow> answer \<times> ui" where
  "serve_route F M e r RStatic s = (StaticFile, s)"
| "serve_route F M e r RList s = (ListPage (handleList (ae_column e) r s), s)"
| "serve_route F M e r (RDetail i) s = (Page (handleDetail (r\<lparr>ur_id := i\<rparr>) s), s)"
| "serve_route F M e r (RReplay i) s = map_prod Page id (handleReplay F M (ae_uuid e) (ae_now e 0) (r\<lparr>ur_id := i\<rparr>) s)"
| "serve_route F M e r (RDelete i) s = map_prod Page id (handleDelete (r\<lparr>ur_id := i\<rparr>) s)"
| "serve_route F M e r (RRaw i) s = (Page (handleRaw (r\<lparr>ur_id := i\<rparr>) s), s)"
| "serve_route F M e r (RAttachment i k) s = (Page (handleAttachment (r\<lparr>ur_id := i, ur_index := k\<rparr>) s), s)"
| "serve_route F M e r RDeleteAll s = map_prod Page id (handleDeleteAll s)"
| "serve_route F M e r RStats s = (handleStats s, s)"
| "serve_route F M e r RStatsHTML s = (handleStatsHTML r s, s)"
| "serve_route F M e r REvents s = (EventStream, s)"
| "serve_route F M e r RSettings s = (handleSettings r s, s)"
| "serve_route F M e r RSettingsSave s = map_prod Page id (handleSettingsSave (ae_visit e) (ae_save_ok e) r s)"
| "serve_route F M e r RRules s = (handleRulesList F s, s)"
| "serve_route F M e r RRulesExport s = (Page (handleRulesExport F r s), s)"
| "serve_route F M e r RRulesImport s = map_prod Page id (handleRulesImport F (ae_uuid e) (ae_now e) r s)"
| "serve_route F M e r RRuleCreate s = map_prod Page id (handleRuleCreate F (ae_uuid e) (ae_now e 0) r s)"
| "serve_route F M e r (RRuleEdit i) s = (handleRuleEditForm, s)"
| "serve_route F M e r (RRuleUpdate i) s = map_prod Page id (handleRuleUpdate F (ae_now e 0) (r\<lparr>ur_id := i\<rparr>) s)"
| "serve_route F M e r (RRuleDelete i) s = map_prod Page id (handleRuleDelete F (r\<lparr>ur_id := i\<rparr>) s)"
| "serve_route F M e r (RRuleToggle i) s = map_prod Page id (handleRuleToggle F (ae_now e 0) (r\<lparr>ur_id := i\<rparr>) s)"
| "serve_route F M e r RTestWebhook s =
     (Page (handleTestWebhook F (ae_sender e) (ae_transport e) (ae_uuid e 0) r s), s)"

record app_out = http_out +
  ap_ui :: ui
  ap_answer :: "answer option"

fun write_answer :: "answer \<Rightarrow> app_out \<Rightarrow> app_out" where
  "write_answer (Page (HttpError st msg)) w = http_error st (w\<lparr>ap_answer := Some (Page (HttpError st msg))\<rparr>)"
| "write_answer (Page (RedirectTo u st)) w = redirect u st (w\<lparr>ap_answer := Some (Page (RedirectTo u st))\<rparr>)"
| "write_answer a w = w\<lparr>ap_answer := Some a\<rparr>"

subsection \<open>The mux\<close>

text \<open>The path of a list of segments.\<close>

definition path_of :: "string list \<Rightarrow> string" where
  "path_of segs = concat (map (\<lambda>s. CHR ''/'' # s) segs)"

text \<open>\<open>url.PathUnescape\<close>; a segment with a malformed escape is compared as it is.\<close>

fun percent_decode :: "string \<Rightarrow> string option" where
  "percent_decode [] = Some []"
| "percent_decode (c # s) =
     (if c = CHR ''%'' then
        (case s of
           a # b # s' \<Rightarrow>
             (case (unhex a, unhex b, percent_decode s') of
                (Some x, Some y, Some t) \<Rightarrow> Some (char_of (16 * x + y) # t)
              | _ \<Rightarrow> None)
         | _ \<Rightarrow> None)
      else map_option ((#) c) (percent_decode s))"

definition pathUnescape :: "string \<Rightarrow> string" where
  "pathUnescape s = (case percent_decode s of None \<Rightarrow> s | Some t \<Rightarrow> t)"

text \<open>\<open>cleanPath\<close>: no empty segment but a last one, no \<open>.\<close> and no \<open>..\<close>.\<close>

fun clean_segs :: "string list \<Rightarrow> string list \<Rightarrow> string list" where
  "clean_segs stack [] = rev stack"
| "clean_segs stack (s # segs) =
     (if s = [] \<or> s = ''.'' then clean_segs stack segs
      else if s = ''..'' then clean_segs (tl stack) segs
      else clean_segs (s # stack) segs)"

definition cleanPath :: "string list \<Rightarrow> string list" where
  "cleanPath segs =
     (let c = clean_segs [] segs in
      if c = [] then [[]] else if last segs = [] then c @ [[]] else c)"

text \<open>Whether some method has a pattern for the path, also with a slash after it.\<close>

definition known_path :: "string list \<Rightarrow> bool" where
  "known_path segs =
     list_ex (\<lambda>m. Register m segs \<noteq> None \<or> Register m (segs @ [[]]) \<noteq> None) [''GET'', ''POST'', ''DELETE'']"

text \<open>
  The mux of \<open>run\<close>: the public endpoints, those of the login, then the routes of the web UI if it is
  enabled. A path that is not clean, and the bare \<open>/static\<close>, are answered with a redirect that keeps the
  query.
\<close>

definition mux_routes ::
    "'z filelib_scheme \<Rightarrow> 'm maillib_scheme \<Rightarrow> (string \<Rightarrow> ip option) \<Rightarrow> manager option \<Rightarrow> string option \<times> string option
      \<Rightarrow> bool \<Rightarrow> app_env \<Rightarrow> string list \<Rightarrow> ui_req \<Rightarrow> unit app_out_ext handler"
where
  "mux_routes F M parse_ip mgr rnd enabled e segs q u r w =
     (if segs = [''healthz''] \<or> segs = [''metrics''] then w\<lparr>ho_status := 200\<rparr>
      else case (if segs = [''auth'', ''login''] then map_option (\<lambda>m. LoginHandler F parse_ip m rnd u r w) mgr
                 else if segs = [''auth'', ''callback''] then map_option (\<lambda>m. CallbackHandler F m u r w) mgr
                 else if segs = [''auth'', ''logout''] then map_option (\<lambda>m. LogoutHandler u r w) mgr else None) of
        Some w' \<Rightarrow> w'
      | None \<Rightarrow>
          (case (if enabled then Register (rq_method r) segs else None) of
             None \<Rightarrow> http_error (if enabled \<and> known_path segs then 405 else 404) w
           | Some rt \<Rightarrow>
               (let (a, s) = serve_route F M e q rt (ap_ui w) in write_answer a (w\<lparr>ap_ui := s\<rparr>))))"

definition httpMux ::
    "'z filelib_scheme \<Rightarrow> 'm maillib_scheme \<Rightarrow> (string \<Rightarrow> ip option) \<Rightarrow> manager option \<Rightarrow> string option \<times> string option
      \<Rightarrow> bool \<Rightarrow> app_env \<Rightarrow> string list \<Rightarrow> ui_req \<Rightarrow> unit app_out_ext handler"
where
  "httpMux F M parse_ip mgr rnd enabled e escaped q u r w =
     (let path = cleanPath escaped; query = dropWhile (\<lambda>c. c \<noteq> CHR ''?'') (rq_uri r) in
      if enabled \<and> path = [''static''] \<and> (rq_method r = ''GET'' \<or> rq_method r = ''HEAD'')
      then redirect (''/static/'' @ query) 301 w
      else if path \<noteq> escaped then redirect (path_of path @ query) 301 w
      else mux_routes F M parse_ip mgr rnd enabled e (map pathUnescape path) q u r w)"

subsection \<open>What it takes to change something\<close>

named_theorems same_ui

lemma ap_ui_same [same_ui]:
  "ap_ui (http_error st w) = ap_ui w" "ap_ui (redirect u st w) = ap_ui w" "ap_ui (set_cookie c w) = ap_ui w"
  "ap_ui (clearStateCookie G m w) = ap_ui w" "ap_ui (w\<lparr>ho_headers := h\<rparr>) = ap_ui w" "ap_ui (w\<lparr>ho_status := st\<rparr>) = ap_ui w"
  "ap_ui (w\<lparr>ap_answer := a\<rparr>) = ap_ui w" "ap_ui (w\<lparr>ho_pending := p\<rparr>) = ap_ui w" "ap_ui (w\<lparr>ho_session := ss\<rparr>) = ap_ui w"
  "ap_ui (w\<lparr>ho_logged_out := b\<rparr>) = ap_ui w"
  by (simp_all add: http_error_def redirect_def set_cookie_def clearStateCookie_def)

lemma ap_ui_write [same_ui]: "ap_ui (write_answer a w) = ap_ui w"
  by (cases "(a, w)" rule: write_answer.cases) (simp_all add: same_ui)

lemma ap_ui_token [same_ui]: "ap_ui (snd (EnsureToken t r s w)) = ap_ui w"
  by (simp add: EnsureToken_def same_ui split: option.split)

lemma ap_ui_login [same_ui]:
  "ap_ui (startLogin G ip m rnd next r w) = ap_ui w" "ap_ui (LoginHandler G ip m rnd u r w) = ap_ui w"
  "ap_ui (LogoutHandler u r w) = ap_ui w"
  by (simp_all add: startLogin_def LoginHandler_def LogoutHandler_def same_ui split: option.split)

lemma ap_ui_callback [same_ui]: "ap_ui (CallbackHandler G m u r w) = ap_ui w"
  by (simp add: CallbackHandler_def same_ui Let_def split: option.split prod.split)

text \<open>A route that may change something is registered for POST or DELETE only, under a first segment of its own.\<close>

lemma changing_route:
  assumes "Register m segs = Some rt" "snd (serve_route F M e q rt s) \<noteq> s"
  shows "unsafe_method m \<and> hd segs \<in> {''emails'', ''rules'', ''settings''}"
proof -
  have get: "snd (serve_route F M e q rt s) = s" if "get_route segs = Some rt"
    using that by (auto simp: get_route_def split: list.splits if_splits)
  have post: "hd segs \<in> {''emails'', ''rules'', ''settings''}" if "post_route segs = Some rt"
    using that by (auto simp: post_route_def split: list.splits if_splits)
  have del: "hd segs \<in> {''emails'', ''rules'', ''settings''}" if "delete_route segs = Some rt"
    using that by (auto simp: delete_route_def split: list.splits if_splits)
  show ?thesis
    using assms get post del by (auto simp: Register_def unsafe_method_def split: if_splits)
qed

lemma routes_change:
  assumes "ap_ui (mux_routes F M ip mgr rnd enabled e segs q u r w) \<noteq> ap_ui w"
  shows "unsafe_method (rq_method r) \<and> hd segs \<in> {''emails'', ''rules'', ''settings''} \<and> segs \<noteq> []"
proof -
  have "Register m [] = None" for m
    by (simp add: Register_def get_route_def post_route_def delete_route_def)
  moreover have "\<exists>rt. Register (rq_method r) segs = Some rt \<and> snd (serve_route F M e q rt (ap_ui w)) \<noteq> ap_ui w"
    using assms
    by (cases mgr) (auto simp: mux_routes_def same_ui Let_def case_prod_beta split: if_splits option.splits)
  ultimately show ?thesis using changing_route by (metis option.distinct(1))
qed

lemma mux_change:
  assumes "ap_ui (httpMux F M ip mgr rnd enabled e escaped q u r w) \<noteq> ap_ui w"
  shows "unsafe_method (rq_method r) \<and> hd (map pathUnescape escaped) \<in> {''emails'', ''rules'', ''settings''}
    \<and> map pathUnescape escaped \<noteq> []"
proof (rule routes_change)
  show "ap_ui (mux_routes F M ip mgr rnd enabled e (map pathUnescape escaped) q u r w) \<noteq> ap_ui w"
    using assms by (auto simp: httpMux_def Let_def same_ui split: if_splits)
qed

lemma root_same:
  "(\<And>u w. ap_ui (mux u r w) = ap_ui w) \<Longrightarrow> ap_ui (rootHandler G ip cfg mgr rnd token mux r w) = ap_ui w"
  by (simp add: rootHandler_def csrfMiddleware_def AuthMiddleware_def withSecurityHeaders_def Let_def case_prod_beta
      same_ui split: option.split)

lemma not_auth_path: "segs \<noteq> [] \<Longrightarrow> hd segs \<in> {''emails'', ''rules'', ''settings''} \<Longrightarrow> \<not> HasPrefix (path_of segs) ''/auth/''"
  by (cases segs) (auto simp: path_of_def HasPrefix_def)


definition demo_app_out :: app_out where
  "demo_app_out = http_out.extend new_response \<lparr>ap_ui = demo_ui, ap_answer = None\<rparr>"

definition demo_app_env :: app_env where
  "demo_app_env = \<lparr>ae_uuid = demo_uuids, ae_now = (\<lambda>_. 9), ae_visit = auth_fields, ae_save_ok = True, ae_column = concat,
     ae_sender = demo_sender, ae_transport = (\<lambda>_. Inr \<lparr>hs_status = 200, hs_content_type = [], hs_body = [], hs_read_error = False\<rparr>)\<rparr>"


end
