(* ===== verification/Site.thy ===== *)
theory Site
  imports SyncDocsProps
begin

section \<open>The documentation site (\<open>site/astro.config.mjs\<close>, \<open>site/site.config.mjs\<close>)\<close>

text \<open>
  The options of the site, as given to Astro and its Starlight theme: the sidebar names pages by their
  slug in the content folder, which \<open>sync-docs.mjs\<close> fills before every build. The generators are
  libraries and not modelled.
\<close>

datatype sidebar_entry = SidebarLink jstr jstr | SidebarGroup jstr "jstr list"

record social_link =
  sl_icon :: jstr
  sl_label :: jstr
  sl_href :: jstr

record starlight_options =
  so_title :: jstr
  so_description :: jstr
  so_logo :: jstr
  so_favicon :: jstr
  so_social :: "social_link list"
  so_sidebar :: "sidebar_entry list"

record astro_options =
  ao_site :: jstr
  ao_base :: jstr
  ao_integrations :: "starlight_options list"

definition SITE :: jstr where
  "SITE = js ''https://gowthamgts.github.io''"

definition sidebar :: "sidebar_entry list" where
  "sidebar =
     [SidebarLink (js ''Introduction'') (js ''/''),
      SidebarGroup (js ''Guides'') [js ''self-hosting'', js ''reverse-proxy'', js ''webhooks'', js ''troubleshooting''],
      SidebarGroup (js ''Reference'') [js ''prometheus'']]"

definition starlight :: starlight_options where
  "starlight =
     \<lparr>so_title = js ''mailrelay'', so_description = js ''Turn incoming email into webhooks.'',
      so_logo = js ''./src/assets/logo.png'', so_favicon = js ''/favicon.svg'',
      so_social = [\<lparr>sl_icon = js ''github'', sl_label = js ''GitHub'', sl_href = REPO_URL\<rparr>],
      so_sidebar = sidebar\<rparr>"

definition astro_config :: astro_options where
  "astro_config = \<lparr>ao_site = SITE, ao_base = BASE, ao_integrations = [starlight]\<rparr>"

subsection \<open>The sidebar leads to every page\<close>

text \<open>The content files the sidebar names: the home page for the link \<open>/\<close>, and one for each slug.\<close>

fun entry_files :: "sidebar_entry \<Rightarrow> jstr list" where
  "entry_files (SidebarLink label link) = (if link = js ''/'' then [js ''index.md''] else [])"
| "entry_files (SidebarGroup label slugs) = map (\<lambda>s. s @ js ''.md'') slugs"

text \<open>The directory \<open>docs/\<close> of this commit.\<close>

definition docs_listing :: "jstr list" where
  "docs_listing = [js ''README.md'', js ''grafana-dashboard.json'', js ''prometheus.md'', js ''reverse-proxy.md'',
     js ''screenshots'', js ''self-hosting.md'', js ''troubleshooting.md'', js ''webhooks.md'']"

lemma page_names_set:
  "set (page_names ls) = (\<lambda>f. take (length f - 3) f) ` {f \<in> set ls. endsWith f (js ''.md'') \<and> f \<noteq> js ''README.md''}"
  by (auto simp: page_names_def)


definition site_docs :: doc_repo where
  "site_docs = demo_docs\<lparr>dc_listing := docs_listing\<rparr>"


end
