(* ===== verification/EndToEnd.thy ===== *)
theory EndToEnd
  imports RelayProps QueueDrain
begin

section \<open>From an accepted message to the end of its deliveries\<close>

text \<open>
  The handler of \<open>main.go\<close> and the workers together: what a message that was answered OK has become once
  the queue has drained.
\<close>

subsection \<open>The handler on a queue at rest\<close>

definition relay_idle :: "relay \<Rightarrow> bool" where
  "relay_idle s = (case rl_db s of None \<Rightarrow> True | Some db \<Rightarrow> idle_inv db)"

lemma idle_same_queue:
  assumes "queue_inv s'" "t_queue s' = t_queue s" "t_deliveries s' = t_deliveries s" "idle_inv s"
  shows "idle_inv s'"
proof -
  have "qstat s' = qstat s" by (rule ext) (simp add: qstat_def assms(2,3))
  with assms(1,4) show ?thesis by (simp add: idle_inv_def)
qed

lemma idle_SaveEmail:
  assumes "idle_inv db" "SaveEmail u now r db = Inr db'"
  shows "idle_inv db'"
proof (rule idle_same_queue [OF _ _ _ assms(1)])
  show "queue_inv db'"
    using assms unfolding SaveEmail_def idle_inv_def by (auto elim: queue_inv_insert_email)
  show "t_queue db' = t_queue db" "t_deliveries db' = t_deliveries db"
    using assms(2) by (auto simp: SaveEmail_def insert_email_def split: if_splits)
qed

lemma idle_Drop: "idle_inv db \<Longrightarrow> idle_inv (UpdateEmailStatus i EmailStatusDropped db)"
  by (rule idle_same_queue [of _ db], rule queue_inv_UpdateEmailStatus)
    (simp_all add: idle_inv_def UpdateEmailStatus_def)

lemma idle_Enqueue:
  assumes "idle_inv db" "rules \<noteq> []" "Enqueue W g u now i e rules db = (err, db')"
  shows "idle_inv db'"
proof -
  let ?jobs = "map (\<lambda>r. (ru_Name r, snapshot_of W g e r)) rules"
  have inv: "store_inv db" using assms(1) by (simp add: idle_inv_def queue_inv_def)
  have q': "queue_inv db'"
    using assms queue_inv_EnqueueDeliveries [of db ?jobs u i now err db'] by (simp add: Enqueue_def idle_inv_def)
  have "qstat db' k \<noteq> Some DInProgress" for k
  proof (cases "enqueue_jobs u 1 (u 0) i now ?jobs db")
    case (Inl x)
    with assms show ?thesis by (auto simp: Enqueue_def EnqueueDeliveries_def idle_inv_def Let_def)
  next
    case (Inr s1)
    then have db': "db' = s1\<lparr>t_emails := t_emails db'\<rparr>"
      using assms(3) by (auto simp: Enqueue_def EnqueueDeliveries_def Let_def)
    have s1: "s1 = added (u 0) i now (zip (job_ids u 1 ?jobs) ?jobs) db"
      by (rule enqueue_jobs_result [OF inv Inr])
    have "store_inv s1" using store_inv_enqueue_jobs [OF inv Inr] .
    then have "qstat s1 k \<noteq> Some DInProgress"
      using assms(1) qstat_added [OF inv] by (simp add: s1 idle_inv_def)
    moreover have "qstat db' = qstat s1" by (subst db') simp
    ultimately show ?thesis by simp
  qed
  with q' show ?thesis by (simp add: idle_inv_def)
qed

lemma buildHandler_idle:
  assumes "relay_idle s" "buildHandler W C e raw s = (err, s')"
  shows "relay_idle s'"
proof (cases "rl_db s")
  case None
  with assms(2) show ?thesis by (auto simp: buildHandler_def relay_idle_def Let_def split: if_splits)
next
  case (Some db)
  then have inv: "idle_inv db" using assms(1) by (simp add: relay_idle_def)
  let ?env = "rl_env C (rl_calls s)"
  show ?thesis
  proof (cases "SaveEmail (ce_uuid ?env) (ce_now ?env) (received_record (ce_uuid ?env 0) (ce_now ?env) e) db")
    case (Inl err')
    with Some assms show ?thesis by (auto simp: buildHandler_def Let_def relay_idle_def)
  next
    case (Inr db1)
    note inv1 = idle_SaveEmail [OF inv Inr]
    show ?thesis
      using Some Inr assms(2) inv1 idle_Enqueue [OF inv1]
      by (auto simp: buildHandler_def Let_def relay_idle_def idle_Drop split: prod.splits option.splits if_splits)
  qed
qed

subsection \<open>One turn\<close>

text \<open>What a turn leaves of the rows: their keys, and the whole row of an email with no work left.\<close>

definition email_keys :: "email_row \<Rightarrow> string \<times> string \<times> ParsedEmail option" where
  "email_keys e = (em_id e, em_delivery_batch e, em_parsed_email e)"

definition delivery_keys :: "delivery_row \<Rightarrow> string \<times> string \<times> string" where
  "delivery_keys d = (dl_id d, dl_email_id d, dl_rule_name d)"

definition queue_keys :: "'s queue_row \<Rightarrow> string \<times> string \<times> string" where
  "queue_keys q = (q_delivery_id q, q_email_id q, q_batch_id q)"

definition same_keys :: "'s db \<Rightarrow> 's db \<Rightarrow> bool" where
  "same_keys s s' \<longleftrightarrow> map email_keys (t_emails s') = map email_keys (t_emails s)
     \<and> map delivery_keys (t_deliveries s') = map delivery_keys (t_deliveries s)
     \<and> map queue_keys (t_queue s') = map queue_keys (t_queue s)"

lemma map_where_keys: "(\<And>x. k (f x) = k x) \<Longrightarrow> map k (map_where p f xs) = map k xs"
  by (simp add: map_where_def)

lemma turn_keys: "same_keys s (work_turn W t s)"
proof (cases "ClaimDelivery (tn_tie t) (tn_claimed_at t) s")
  case (Pair j s')
  show ?thesis
  proof (cases j)
    case None
    with Pair show ?thesis by (simp add: work_turn_idle same_keys_def)
  next
    case (Some job)
    obtain req result nxt where run: "runQueued W (tn_env t) job = (req, result, nxt)" by (metis prod_cases3)
    have s': "s' = set_in_progress (qd_ID job) (tn_claimed_at t) s"
      using ClaimDelivery_rows [of "tn_tie t" "tn_claimed_at t" s job s'] Pair Some by auto
    have turn: "work_turn W t s = attempted job result nxt (tn_claimed_at t) (tn_finished_at t) s"
      using Pair Some run by (simp add: work_turn_def attempted_def s')
    have "map email_keys (t_emails (work_turn W t s)) = map email_keys (t_emails s)"
      by (simp add: turn attempted_def FinishDelivery_def settle_email_def reschedule_def save_result_def
          set_in_progress_def map_where_keys email_keys_def)
    moreover have "map queue_keys (t_queue (work_turn W t s)) = map queue_keys (t_queue s)"
      unfolding turn attempted_rows by (cases nxt) (simp_all add: map_where_keys queue_keys_def)
    moreover have "map delivery_keys (t_deliveries (work_turn W t s)) = map delivery_keys (t_deliveries s)"
      by (simp add: turn attempted_rows map_where_keys delivery_keys_def)
    ultimately show ?thesis by (simp add: same_keys_def)
  qed
qed

lemma run_keys: "same_keys s (run_queue W ts s)"
proof (induction ts arbitrary: s)
  case (Cons t ts)
  from Cons.IH [of "work_turn W t s"] turn_keys [of s W t] show ?case by (simp add: run_queue_def same_keys_def)
qed (simp add: run_queue_def same_keys_def)

lemma map_eq_mem: "map f ys = map f xs \<Longrightarrow> x \<in> set xs \<Longrightarrow> \<exists>y\<in>set ys. f y = f x"
  by (metis imageE image_eqI list.set_map)

text \<open>The work of an email other than the job's is not touched.\<close>

lemma turn_cases:
  assumes "idle_inv s"
  obtains "work_turn W t s = s"
  | j r nxt where "work_turn W t s = attempted j r nxt (tn_claimed_at t) (tn_finished_at t) s"
      "has_unfinished s (qd_EmailID j)"
      "\<And>q. q \<in> set (t_queue s) \<Longrightarrow> q_delivery_id q = qd_ID j \<Longrightarrow> q_email_id q = qd_EmailID j"
proof (cases "ClaimDelivery (tn_tie t) (tn_claimed_at t) s")
  case (Pair j s')
  show ?thesis
  proof (cases j)
    case None
    with Pair that(1) show ?thesis by (simp add: work_turn_idle)
  next
    case (Some job)
    obtain req result nxt where run: "runQueued W (tn_env t) job = (req, result, nxt)" by (metis prod_cases3)
    have inv: "store_inv s" using assms by (simp add: idle_inv_def queue_inv_def)
    obtain d q where rows: "d \<in> set (t_deliveries s)" "q \<in> set (t_queue s)" "dl_id d = qd_ID job" "q_delivery_id q = qd_ID job"
        "q_email_id q = qd_EmailID job" "dl_status d = DPending"
      and s': "s' = set_in_progress (qd_ID job) (tn_claimed_at t) s"
      using ClaimDelivery_rows [of "tn_tie t" "tn_claimed_at t" s job s'] Pair Some by auto
    have "work_turn W t s = attempted job result nxt (tn_claimed_at t) (tn_finished_at t) s"
      using Pair Some run by (simp add: work_turn_def attempted_def s')
    moreover have "has_unfinished s (qd_EmailID job)"
      using rows unfolding has_unfinished_iff unfinished_status_def by metis
    moreover have "q' = q" if "q' \<in> set (t_queue s)" "q_delivery_id q' = qd_ID job" for q'
      using inv rows(2,4) that by (auto simp: store_inv_def dest: key_distinct_inj [of q_delivery_id])
    ultimately show ?thesis using that(2) rows(5) by metis
  qed
qed

lemma attempted_email:
  "t_emails (attempted j r nxt now now' s) =
     map (\<lambda>e. let s' = attempted j r nxt now now' s; sts = dl_status ` batch_deliveries s' e in
       if em_id e = qd_EmailID j \<and> \<not> has_unfinished s' (em_id e) then
         e\<lparr>em_status := (if sts = {DSuccess} then EmailStatusDelivered
              else if DSuccess \<in> sts then EmailStatusPartialFailure else EmailStatusFailed)\<rparr>
       else e) (t_emails s)"
proof -
  have "t_emails (set_in_progress (qd_ID j) now s) = t_emails s" by (simp add: set_in_progress_def)
  then show ?thesis
    unfolding attempted_def using FinishDelivery_settles_email [of j r nxt now' "set_in_progress (qd_ID j) now s"] by simp
qed

lemma attempted_other:
  assumes "\<And>q. q \<in> set (t_queue s) \<Longrightarrow> q_delivery_id q = qd_ID j \<Longrightarrow> q_email_id q = qd_EmailID j"
    and "em_id e \<noteq> qd_EmailID j"
  shows "batch_deliveries (attempted j r nxt now now' s) e = batch_deliveries s e"
    and "has_unfinished (attempted j r nxt now now' s) (em_id e) = has_unfinished s (em_id e)"
proof -
  let ?s = "attempted j r nxt now now' s"
  have q: "q \<in> set (t_queue ?s) \<and> q_email_id q = em_id e \<longleftrightarrow> q \<in> set (t_queue s) \<and> q_email_id q = em_id e" for q
    using assms unfolding attempted_rows by (cases nxt) (auto simp: set_map_where)
  have nq: "q_delivery_id q \<noteq> qd_ID j" if "q \<in> set (t_queue s)" "q_email_id q = em_id e" for q
    using assms that by auto
  have d: "d \<in> set (t_deliveries ?s) \<longleftrightarrow> d \<in> set (t_deliveries s)" if "dl_id d \<noteq> qd_ID j" for d
    using that unfolding attempted_rows by (auto simp: set_map_where)
  show "batch_deliveries ?s e = batch_deliveries s e"
    unfolding batch_deliveries_def using q nq d by (intro Collect_cong) metis
  show "has_unfinished ?s (em_id e) = has_unfinished s (em_id e)"
    unfolding has_unfinished_iff using q nq d by metis
qed

subsection \<open>What becomes of an email\<close>

definition outcome :: "delivery_status set \<Rightarrow> EmailStatus" where
  "outcome sts = (if sts = {DSuccess} then EmailStatusDelivered
     else if DSuccess \<in> sts then EmailStatusPartialFailure else EmailStatusFailed)"

definition settled :: "'s db \<Rightarrow> email_row \<Rightarrow> bool" where
  "settled s e \<longleftrightarrow> has_unfinished s (em_id e) \<or> em_status e = outcome (dl_status ` batch_deliveries s e)"

lemma batch_deliveries_keys:
  "em_id e' = em_id e \<Longrightarrow> em_delivery_batch e' = em_delivery_batch e \<Longrightarrow> batch_deliveries s e' = batch_deliveries s e"
  by (simp add: batch_deliveries_def)

text \<open>Rows of one email before and after a turn.\<close>

lemma turn_email:
  assumes "idle_inv s" "e \<in> set (t_emails s)"
  shows "\<exists>e'\<in>set (t_emails (work_turn W t s)). email_keys e' = email_keys e
    \<and> (settled s e \<longrightarrow> settled (work_turn W t s) e')
    \<and> (\<not> has_unfinished s (em_id e) \<longrightarrow> em_status e' = em_status e \<and> \<not> has_unfinished (work_turn W t s) (em_id e))"
  using assms(1)
proof (cases rule: turn_cases [where W = W and t = t])
  case 1
  with assms(2) show ?thesis by auto
next
  case (2 j r nxt)
  let ?s = "work_turn W t s"
  define f where "f e = (let sts = dl_status ` batch_deliveries ?s e in
       if em_id e = qd_EmailID j \<and> \<not> has_unfinished ?s (em_id e) then
         e\<lparr>em_status := (if sts = {DSuccess} then EmailStatusDelivered
              else if DSuccess \<in> sts then EmailStatusPartialFailure else EmailStatusFailed)\<rparr>
       else e)" for e
  have "t_emails ?s = map f (t_emails s)"
    using attempted_email [of j r nxt "tn_claimed_at t" "tn_finished_at t" s] by (simp add: 2(1) f_def [abs_def] Let_def)
  then have mem: "f e \<in> set (t_emails ?s)" using assms(2) by simp
  have keys: "email_keys (f e) = email_keys e" "batch_deliveries ?s (f e) = batch_deliveries ?s e" "em_id (f e) = em_id e"
    by (simp_all add: f_def email_keys_def Let_def batch_deliveries_def)
  show ?thesis
  proof (cases "em_id e = qd_EmailID j")
    case True
    then have "settled ?s (f e)"
      unfolding settled_def keys by (simp add: f_def Let_def outcome_def)
    moreover have "has_unfinished s (em_id e)" using 2(2) True by simp
    ultimately show ?thesis using mem keys(1) by blast
  next
    case False
    have "f e = e" using False by (simp add: f_def)
    with mem attempted_other [OF 2(3) False] show ?thesis
      by (intro bexI [of _ e]) (auto simp: 2(1) settled_def)
  qed
qed

lemma run_email:
  assumes "idle_inv s" "e \<in> set (t_emails s)"
  shows "\<exists>e'\<in>set (t_emails (run_queue W ts s)). email_keys e' = email_keys e
    \<and> (settled s e \<longrightarrow> settled (run_queue W ts s) e')
    \<and> (\<not> has_unfinished s (em_id e) \<longrightarrow> em_status e' = em_status e)"
  using assms
proof (induction ts arbitrary: s e)
  case (Cons t ts)
  let ?s = "work_turn W t s"
  have run: "run_queue W (t # ts) s = run_queue W ts ?s" by (simp add: run_queue_def)
  obtain e1 where e1: "e1 \<in> set (t_emails ?s)" "email_keys e1 = email_keys e"
    "settled s e \<longrightarrow> settled ?s e1"
    "\<not> has_unfinished s (em_id e) \<longrightarrow> em_status e1 = em_status e \<and> \<not> has_unfinished ?s (em_id e)"
    using turn_email [OF Cons.prems, of W t] by blast
  have "em_id e1 = em_id e" using e1(2) by (simp add: email_keys_def)
  with Cons.IH [OF work_turn_inv [OF Cons.prems(1)] e1(1)] e1 show ?case unfolding run by metis
qed (auto simp: run_queue_def)

subsection \<open>Accepted messages\<close>

lemma buildRejectionHandler_idle:
  assumes "relay_idle s"
  shows "relay_idle (buildRejectionHandler M C from to r raw reason s)"
  using assms idle_SaveEmail
  by (auto simp: buildRejectionHandler_def Let_def relay_idle_def split: option.splits sum.splits)

lemma relay_idle_inv: "relay_idle s \<Longrightarrow> relay_inv s"
  by (auto simp: relay_idle_def relay_inv_def idle_inv_def queue_inv_def split: option.splits)

interpretation idle_sink: email_sink "buildHandler W C" "buildRejectionHandler M C" relay_idle
    "\<lambda>s e. relay_kept W C s e \<and> relay_idle s"
  for W :: "'z weblib_scheme" and C and M :: "'m maillib_scheme"
  by unfold_locales (blast intro: buildHandler_idle buildHandler_keeps buildRejectionHandler_idle relay_idle_inv)+

lemma queued_after:
  assumes "queued_for db eid b n snap" "same_keys db db'" "store_inv db'" "em_id r = eid" "em_delivery_batch r = b"
    and "\<And>i st. qstat db' i = Some st \<Longrightarrow> \<not> unfinished_status st"
  shows "\<exists>d\<in>batch_deliveries db' r. dl_rule_name d = n \<and> \<not> unfinished_status (dl_status d)"
proof -
  obtain d q where dq: "d \<in> set (t_deliveries db)" "q \<in> set (t_queue db)" "q_email_id q = eid" "q_batch_id q = b"
    "dl_id d = q_delivery_id q" "dl_rule_name d = n"
    using assms(1) by (auto simp: queued_for_def)
  obtain d' where d': "d' \<in> set (t_deliveries db')" "delivery_keys d' = delivery_keys d"
    using map_eq_mem [OF _ dq(1), of delivery_keys] assms(2) unfolding same_keys_def by blast
  obtain q' where q': "q' \<in> set (t_queue db')" "queue_keys q' = queue_keys q"
    using map_eq_mem [OF _ dq(2), of queue_keys] assms(2) unfolding same_keys_def by blast
  have "qstat db' (dl_id d') = Some (dl_status d')"
    unfolding qstat_Some_iff [OF assms(3)] using d' q' dq(5) by (auto simp: delivery_keys_def queue_keys_def)
  then have "\<not> unfinished_status (dl_status d')" by (rule assms(6))
  moreover have "d' \<in> batch_deliveries db' r" "dl_rule_name d' = n"
    using d' q' dq assms(4,5) by (auto simp: batch_deliveries_def delivery_keys_def queue_keys_def)
  ultimately show ?thesis by blast
qed

lemma queued_unfinished: "queued_for db eid b n snap \<Longrightarrow> has_unfinished db eid"
  unfolding queued_for_def has_unfinished_iff unfinished_status_def by metis

lemma stored_after:
  assumes "stored_email W C db email" "idle_inv db" "timely W ts db" "queue_tries db \<le> length ts"
  shows "\<exists>row\<in>set (t_emails (run_queue W ts db)). em_parsed_email row = Some email
    \<and> (if Match W (rl_engine C) email = [] then em_status row = EmailStatusDropped
       else em_status row = outcome (dl_status ` batch_deliveries (run_queue W ts db) row)
         \<and> (\<forall>rule\<in>set (Match W (rl_engine C) email). \<exists>d\<in>batch_deliveries (run_queue W ts db) row.
              dl_rule_name d = ru_Name rule \<and> \<not> unfinished_status (dl_status d)))"
proof -
  let ?s = "run_queue W ts db" and ?rules = "Match W (rl_engine C) email"
  obtain r where r: "r \<in> set (t_emails db)" "em_parsed_email r = Some email"
    and kept: "if ?rules = [] then em_status r = EmailStatusDropped
      else em_status r = EmailStatusReceived
        \<and> (\<forall>rule\<in>set ?rules. queued_for db (em_id r) (em_delivery_batch r) (ru_Name rule) (snapshot_of W (rl_retry C) email rule))"
    using assms(1) unfolding stored_email_def Let_def by blast
  obtain row where row: "row \<in> set (t_emails ?s)" "email_keys row = email_keys r" "settled db r \<longrightarrow> settled ?s row"
    "\<not> has_unfinished db (em_id r) \<longrightarrow> em_status row = em_status r"
    using run_email [OF assms(2) r(1), of W ts] by blast
  have keys: "em_id row = em_id r" "em_delivery_batch row = em_delivery_batch r" "em_parsed_email row = Some email"
    using row(2) r(2) by (simp_all add: email_keys_def)
  have fin: "idle_inv ?s" "queue_tries ?s = 0"
    using run_queue_tries [OF assms(2,3)] assms(4) by simp_all
  then have inv: "store_inv ?s" by (simp add: idle_inv_def queue_inv_def)
  have over: "\<not> unfinished_status st" if "qstat ?s i = Some st" for i st
    using tries_left_zero [OF inv fin(2)] that by blast
  show ?thesis
  proof (cases "?rules = []")
    case True
    have "\<not> has_unfinished db (em_id r)"
      using kept True r(1) assms(2) by (auto simp: idle_inv_def queue_inv_def email_inv_def)
    with row(4) kept True keys row(1) show ?thesis by auto
  next
    case False
    then obtain rule where "rule \<in> set ?rules" by (metis hd_in_set)
    with kept False have "has_unfinished db (em_id r)" by (auto dest: queued_unfinished)
    then have "settled ?s row" using row(3) by (simp add: settled_def)
    moreover have "\<not> has_unfinished ?s (em_id row)"
      using over by (auto simp: has_unfinished_qstat [OF inv])
    ultimately have "em_status row = outcome (dl_status ` batch_deliveries ?s row)" by (simp add: settled_def)
    moreover have "\<exists>d\<in>batch_deliveries ?s row. dl_rule_name d = ru_Name rule \<and> \<not> unfinished_status (dl_status d)"
      if "rule \<in> set ?rules" for rule
      using kept False that keys over by (intro queued_after [OF _ run_keys inv]) auto
    ultimately show ?thesis using row(1) keys(3) False by (intro bexI [of _ row]) auto
  qed
qed


text \<open>The demo configuration without retries.\<close>

definition demo_once :: relay_config where
  "demo_once = demo_relay_config\<lparr>rl_retry := (rl_retry demo_relay_config)\<lparr>rc_MaxRetries := 0\<rparr>\<rparr>"

definition demo_once_server :: "(handler_error, relay) server" where
  "demo_once_server = demo_server\<lparr>sv_handler := buildHandler demo_web demo_once,
     sv_rejectionHandler := Some (buildRejectionHandler demo_mail demo_once)\<rparr>"

definition demo_accepted :: "deliverySnapshot db" where
  "demo_accepted = the (rl_db (snd (Data (demo_auth [] SpfPass) (\<lambda>_. None) demo_once_server (Some ''hi'') demo_session demo_relay)))"

lemma demo_accepted_tries: "queue_tries demo_accepted \<le> 1"
  by code_simp

lemma demo_accepted_timely: "timely demo_web [demo_turn] demo_accepted"
proof -
  have "\<not> env_ctx_err (tn_env demo_turn)" by code_simp
  moreover have "list_all (\<lambda>q. qstat demo_accepted (q_delivery_id q) = Some DPending
      \<longrightarrow> q_next_attempt_at q \<le> UnixNano (tn_claimed_at demo_turn)) (t_queue demo_accepted)"
    by code_simp
  ultimately show ?thesis by simp
qed


end
