(* ===== verification/Spec2Isabelle.thy ===== *)
theory Spec2Isabelle
  imports StoreProps DispatchProps WorkerProps RuleStoreProps SyncDocsProps HttpSecProps MailParserProps RelayProps
    WebUiMail QueueDrain Shutdown Migrate Events EmailList Cli Startup Routes Site EndToEnd
begin

text \<open>
  A verification library for mailrelay, a server that takes email over SMTP and turns it into webhook
  requests, with a web UI for its rules and its history. The library follows the Go program under
  \<open>cmd/\<close> and \<open>internal/\<close> and the script of the documentation site; names are those of the source.

  \<^bold>\<open>How the program works, and where its parts are.\<close> An SMTP session (\<open>Smtp\<close>: \<open>internal/smtp/server.go\<close>)
  receives a message, parses it (\<open>MailParser\<close>: \<open>parser.go\<close>) and checks SPF, DKIM, DMARC and ARC (\<open>MailAuth\<close>:
  \<open>auth.go\<close>). The handlers of \<open>cmd/mailrelay/main.go\<close> (\<open>Relay\<close>) store it, match it against the rules of the
  engine (\<open>Engine\<close>: \<open>internal/rules/engine.go\<close>, with \<open>path.Match\<close> in \<open>GoPath\<close>) and queue one delivery for
  each rule that matches. The store (\<open>Store\<close> for emails and deliveries, \<open>RuleStore\<close> for rules:
  \<open>internal/storage\<close>) is a record of tables, each statement or transaction a function on it; \<open>Migrate\<close> opens
  the file and brings its tables up to date. The workers
  (\<open>Worker\<close>, \<open>Shutdown\<close>: \<open>internal/webhook/queue.go\<close>) claim due deliveries and send them through the dispatcher
  (\<open>Payload\<close>, \<open>Dispatch\<close>: \<open>dispatcher.go\<close>), whose dialer refuses internal addresses (\<open>NetGuard\<close>). The
  web UI (\<open>WebUi\<close>, \<open>EmailList\<close>, \<open>Events\<close>: \<open>internal/webui\<close>) replays and deletes emails, edits, imports and
  exports rules (\<open>RuleFile\<close>: \<open>internal/rules/transfer.go\<close>, \<open>Json\<close> for \<open>encoding/json\<close> on the data model) and
  changes settings; it stands behind the login and the CSRF check (\<open>HttpSec\<close>: \<open>internal/httpauth\<close>,
  \<open>internal/httpcsrf\<close>, \<open>main.go\<close>), and \<open>Routes\<close> puts its route table, its handlers and these middlewares
  together. \<open>Config\<close> (\<open>internal/config\<close>) loads the configuration, \<open>Cli\<close> follows the flags of \<open>run\<close> and the
  transfer of rules by file (\<open>cmd/mailrelay/rules_transfer.go\<close>), and \<open>Startup\<close> sets all of it up from the
  configuration and the database. \<open>Models\<close> holds the data model; \<open>SyncDocs\<close> and \<open>Site\<close> the script
  \<open>site/scripts/sync-docs.mjs\<close> and the options of the documentation site, over strings of UTF-16 code units.

  \<^bold>\<open>State and effects.\<close> A struct is a record with the fields in their order; an error is the left side of
  a sum or a constructor of a datatype; a handler returns its answer and the new state. Go integers are
  \<open>int\<close> with \<open>int64\<close> and \<open>int32\<close> written where they wrap; times and durations are nanoseconds. Calls of
  libraries, of the clock and of \<open>uuid\<close> are parameters: records of functions (\<open>golib\<close>, \<open>weblib\<close>,
  \<open>filelib\<close>, \<open>maillib\<close>, \<open>authlib\<close>, \<open>conflib\<close>) and streams. What outlives the process is the record \<open>disk\<close>
  of \<open>Startup\<close>; the web UI's state travels through the middlewares in the response (\<open>app_out\<close> of \<open>Routes\<close>).

  \<^bold>\<open>What is shown.\<close>
  \<^item> \<open>StoreInv\<close>, \<open>StoreProps\<close>: keys and foreign keys, the agreement of email statuses, queue rows and
    snapshots (\<open>queue_inv\<close>), kept by every statement; claiming, finishing, enqueueing and expiry exactly.
  \<^item> \<open>Migrate\<close>: a database of any release opens, keeps its rows and has the columns the statements name.
  \<^item> \<open>WorkerProps\<close>, \<open>QueueDrain\<close>: the workers as a transition system; safety of every reachable state,
    recovery, stopping, and that the queue empties within the retries that are left.
  \<^item> \<open>Shutdown\<close>: a stopped queue comes to rest, in every fair run and within two moves of each worker, with
    every unfinished delivery ready for the next start.
  \<^item> \<open>DispatchProps\<close>: classification, fail-closed signing, agreement of the queue with the direct retry
    loop, the arithmetic of the back-off.
  \<^item> \<open>RuleStoreProps\<close>, \<open>RuleFile\<close>, \<open>Json\<close>: imports, round trips, the codecs (locale \<open>struct_codec\<close>).
  \<^item> \<open>RelayProps\<close>: what answering OK to a message means; the locale \<open>email_sink\<close> of \<open>Smtp\<close> is interpreted on
    the handlers of \<open>main.go\<close>, as \<open>delivery_store\<close> of \<open>Worker\<close> is on the tables. \<open>EndToEnd\<close> interprets it once
    more, with a queue at rest as the invariant, and follows an accepted message to the end of its
    deliveries.
  \<^item> \<open>WebUiProps\<close>, \<open>WebUiMail\<close>, \<open>EmailList\<close>, \<open>Events\<close>: the web UI's effects on tables, engine and settings, as
    steps of the queue where they touch it; pages and search; live refresh.
  \<^item> \<open>Routes\<close>: no request changes anything without a CSRF token and, where configured, a login.
  \<^item> \<open>Config\<close>, \<open>Cli\<close>, \<open>Startup\<close>: what loads can be started, a backup restores the rules, a restart is
    invisible; \<open>Site\<close>: the sidebar leads to every page.
  \<^item> \<open>MailAuth\<close>, \<open>MailParserProps\<close>, \<open>HttpSecProps\<close>, \<open>NetGuard\<close>, \<open>SyncDocsProps\<close>: each component's promises.

  \<^bold>\<open>Bounds and fuel.\<close> Loops are functions with a termination proof; the only fuel is that of \<open>queue_loop\<close> in
  \<open>DispatchProps\<close>, the attempts of one delivery, for which the retries plus one are enough. \<open>queue_drains\<close>
  takes as many turns as \<open>queue_tries\<close> counts.

  \<^bold>\<open>Not modelled.\<close> HTML templates and their helpers, metrics and logs (they feed nothing back);
  the go-smtp, net/http, OIDC, DNS, SQLite and YAML libraries (parameters, or the documented meaning
  of the statement), as is koanf; listening, signals and the order of
  the waits at shutdown in \<open>run\<close> (that of the queue is in \<open>Shutdown\<close>); \<open>content.config.ts\<close>, which only
  names parts of Starlight; the vendored \<open>tailwindcdn.js\<close>.
\<close>

end
